(* ===== verification/Prelude.thy ===== *)
theory Prelude
  imports Main "HOL-Library.Word" "HOL-Library.AList" "HOL-Library.Char_ord"
    "HOL-Library.List_Lexorder" "HOL-Library.Multiset"
begin

text \<open>
  What the components share: names for Go's types, the part of Go's standard library the
  sources use on strings and numbers (\<open>strings\<close>, \<open>strconv\<close>, \<open>sort\<close>), Go maps as association
  lists, iteration over a map in an unspecified order, and the generic lemmas on them.

  \<^item> A Go \<open>error\<close> is its message, so a function that returns only an \<open>error\<close> returns a
    \<open>gerror option\<close> (\<open>None\<close> is \<open>nil\<close>) and a function that returns \<open>(v, error)\<close> returns
    \<open>gerror + 'a\<close>.
  \<^item> Go's \<open>string\<close> and \<open>[]byte\<close> are \<open>char\<close> lists, one \<open>char\<close> per byte.
  \<^item> Fixed width integers are words; Go's \<open>int\<close> is \<open>int\<close>, with the 64 bit range checked where
    a parser checks it.
\<close>

type_synonym gerror = string
text \<open>A call that may panic.\<close>

datatype 'a gocall = Panics | Returns 'a

type_synonym u8 = "8 word"
type_synonym u16 = "16 word"
type_synonym u32 = "32 word"
type_synonym int32 = "32 word"

named_theorems go_eval "rules that evaluate the Go library functions on concrete arguments"

subsection \<open>Decimal printing and parsing (strconv)\<close>

definition is_digit :: "char \<Rightarrow> bool" where
  "is_digit c \<longleftrightarrow> CHR ''0'' \<le> c \<and> c \<le> CHR ''9''"

definition digit_char :: "nat \<Rightarrow> char" where
  "digit_char d = char_of (48 + d)"

definition digit_val :: "char \<Rightarrow> nat" where
  "digit_val c = of_char c - 48"

fun show_nat :: "nat \<Rightarrow> string" where
  "show_nat n = (if n < 10 then [digit_char n] else show_nat (n div 10) @ [digit_char (n mod 10)])"

declare show_nat.simps [simp del]

definition Itoa :: "int \<Rightarrow> string" where
  "Itoa i = (if i < 0 then ''-'' @ show_nat (nat (- i)) else show_nat (nat i))"

fun val_digits :: "nat \<Rightarrow> string \<Rightarrow> nat" where
  "val_digits acc [] = acc"
| "val_digits acc (c # cs) = val_digits (10 * acc + digit_val c) cs"

abbreviation nl :: char where "nl \<equiv> CHR 0x0A"
abbreviation tab :: char where "tab \<equiv> CHR 0x09"
abbreviation quote :: char where "quote \<equiv> CHR 0x22"
abbreviation backslash :: char where "backslash \<equiv> CHR 0x5C"

text \<open>
  \<open>strconv.Quote\<close>, the verb \<open>%q\<close>: control characters, quotes and backslashes are escaped. Bytes
  above 127 are copied, as those of printable characters are.
\<close>

definition hex_digit :: "nat \<Rightarrow> char" where
  "hex_digit k = (if k < 10 then char_of (48 + k) else char_of (87 + k))"

definition quote_char :: "char \<Rightarrow> string" where
  "quote_char c =
     (let k = of_char c :: nat in
      if c = quote \<or> c = backslash then [backslash, c]
      else if 7 \<le> k \<and> k \<le> 13 then [backslash, ''abtnvfr'' ! (k - 7)]
      else if k < 32 \<or> k = 127 then [backslash, CHR ''x'', hex_digit (k div 16), hex_digit (k mod 16)]
      else [c])"

definition Quote :: "string \<Rightarrow> string" where
  "Quote s = quote # concat (map quote_char s) @ [quote]"

definition num_error :: "string \<Rightarrow> string \<Rightarrow> string \<Rightarrow> gerror" where
  "num_error f s err = ''strconv.'' @ f @ '': parsing '' @ Quote s @ '': '' @ err"

text \<open>
  \<open>strconv.ParseUint(s, 10, 0)\<close>: digits only, at most \<open>2 ^ 64 - 1\<close>. Digits are read one by one, so a
  number that is out of range is reported before a byte behind it that is no digit.
\<close>

definition ParseUint :: "string \<Rightarrow> gerror + nat" where
  "ParseUint s =
     (let ds = takeWhile is_digit s; n = val_digits 0 ds
      in if s = [] then Inl (num_error ''ParseUint'' s ''invalid syntax'')
         else if n \<ge> 2 ^ 64 then Inl (num_error ''ParseUint'' s ''value out of range'')
         else if ds \<noteq> s then Inl (num_error ''ParseUint'' s ''invalid syntax'')
         else Inr n)"

text \<open>\<open>strconv.Atoi\<close>: an optional sign, then digits, in the range of a 64 bit \<open>int\<close>.\<close>

definition Atoi :: "string \<Rightarrow> gerror + int" where
  "Atoi s =
     (let neg = (s \<noteq> [] \<and> hd s = CHR ''-'');
          body = (if s \<noteq> [] \<and> (hd s = CHR ''-'' \<or> hd s = CHR ''+'') then tl s else s);
          ds = takeWhile is_digit body;
          n = int (val_digits 0 ds)
      in if body = [] then Inl (num_error ''Atoi'' s ''invalid syntax'')
         else if n \<ge> 2 ^ 64 then Inl (num_error ''Atoi'' s ''value out of range'')
         else if ds \<noteq> body then Inl (num_error ''Atoi'' s ''invalid syntax'')
         else if (neg \<and> n > 2 ^ 63) \<or> (\<not> neg \<and> n \<ge> 2 ^ 63)
         then Inl (num_error ''Atoi'' s ''value out of range'')
         else Inr (if neg then - n else n))"

lemma is_digit_iff: "is_digit c \<longleftrightarrow> 48 \<le> (of_char c :: nat) \<and> (of_char c :: nat) \<le> 57"
  by (simp add: is_digit_def less_eq_char_def)

lemma digit_char_is_digit [simp]: "d < 10 \<Longrightarrow> is_digit (digit_char d)"
  by (simp add: is_digit_iff digit_char_def)

lemma digit_val_char [simp]: "d < 10 \<Longrightarrow> digit_val (digit_char d) = d"
  by (simp add: digit_val_def digit_char_def)

lemma digit_char_eval [go_eval]:
  "digit_char 0 = CHR ''0''" "digit_char 1 = CHR ''1''" "digit_char (Suc 0) = CHR ''1''"
  "digit_char 2 = CHR ''2''" "digit_char 3 = CHR ''3''" "digit_char 4 = CHR ''4''"
  "digit_char 5 = CHR ''5''" "digit_char 6 = CHR ''6''" "digit_char 7 = CHR ''7''"
  "digit_char 8 = CHR ''8''" "digit_char 9 = CHR ''9''"
  by code_simp+

declare show_nat.simps [go_eval] Itoa_def [go_eval] is_digit_iff [go_eval] digit_val_def [go_eval]
  ParseUint_def [go_eval] Atoi_def [go_eval]

lemma val_digits_append: "val_digits acc (xs @ ys) = val_digits (val_digits acc xs) ys"
  by (induction xs arbitrary: acc) auto

lemma show_nat_digits [simp]: "list_all is_digit (show_nat n)"
proof (induction n rule: show_nat.induct)
  case (1 n)
  then show ?case by (subst show_nat.simps) (auto simp: show_nat.simps [of n])
qed

lemma show_nat_nonempty [simp]: "show_nat n \<noteq> []"
  by (subst show_nat.simps) simp

lemma val_show_nat [simp]: "val_digits 0 (show_nat n) = n"
proof (induction n rule: show_nat.induct)
  case (1 n)
  then show ?case by (auto simp: show_nat.simps [of n] val_digits_append)
qed

lemma takeWhile_digits: "list_all is_digit s \<longleftrightarrow> takeWhile is_digit s = s"
  by (simp add: takeWhile_eq_all_conv list_all_iff)

lemma ParseUint_Inr:
  "ParseUint s = Inr n \<longleftrightarrow> s \<noteq> [] \<and> list_all is_digit s \<and> val_digits 0 s < 2 ^ 64 \<and> n = val_digits 0 s"
  unfolding ParseUint_def Let_def takeWhile_digits
  by (cases "takeWhile is_digit s = s") (auto simp del: takeWhile_eq_all_conv)

lemma takeWhile_show_nat [simp]: "takeWhile is_digit (show_nat n) = show_nat n"
  using show_nat_digits [of n] by (simp only: takeWhile_digits)

lemma ParseUint_show_nat: "n < 2 ^ 64 \<Longrightarrow> ParseUint (show_nat n) = Inr n"
  by (simp add: ParseUint_Inr)

lemma show_nat_inj: "show_nat m = show_nat n \<Longrightarrow> m = n"
  by (metis val_show_nat)

lemma hd_show_nat_digit: "is_digit (hd (show_nat n))"
  using show_nat_digits [of n] show_nat_nonempty [of n] by (cases "show_nat n") auto

lemma hd_show_nat_zero: "hd (show_nat n) = CHR ''0'' \<Longrightarrow> n = 0"
proof (induction n rule: show_nat.induct)
  case (1 n)
  have "n = 0" if "n < 10" "digit_char n = CHR ''0''"
    using that digit_val_char [of n] by (simp add: digit_val_def)
  then show ?case using 1 by (auto simp: show_nat.simps [of n] split: if_splits)
qed

lemma not_digit_sign [simp]: "\<not> is_digit (CHR ''-'')" "\<not> is_digit (CHR ''+'')" "\<not> is_digit (CHR '':'')"
  "\<not> is_digit (CHR ''.'')" "\<not> is_digit (CHR '','')"
  by (simp_all add: is_digit_iff)

lemma Atoi_show_nat: "n < 2 ^ 63 \<Longrightarrow> Atoi (show_nat n) = Inr (int n)" "n \<le> 2 ^ 63 \<Longrightarrow> Atoi (CHR ''-'' # show_nat n) = Inr (- int n)"
  using hd_show_nat_digit [of n] by (auto simp: Atoi_def Let_def simp del: takeWhile_eq_all_conv)

lemma Atoi_Itoa: "- (2 ^ 63) \<le> i \<Longrightarrow> i < 2 ^ 63 \<Longrightarrow> Atoi (Itoa i) = Inr i"
  using Atoi_show_nat(1) [of "nat i"] Atoi_show_nat(2) [of "nat (- i)"] by (auto simp: Itoa_def)

lemma show_nat_no_minus [simp]: "show_nat n \<noteq> CHR ''-'' # s" "CHR ''-'' # s \<noteq> show_nat n"
proof -
  show "show_nat n \<noteq> CHR ''-'' # s"
    using hd_show_nat_digit [of n] by (metis list.sel(1) not_digit_sign(1))
  then show "CHR ''-'' # s \<noteq> show_nat n" by metis
qed

lemma Itoa_inj: "Itoa i = Itoa j \<Longrightarrow> i = j"
  by (auto simp: Itoa_def split: if_splits dest!: show_nat_inj)

lemma Itoa_no_sep:
  "CHR '':'' \<notin> set (Itoa i)" "CHR '','' \<notin> set (Itoa i)" "CHR ''.'' \<notin> set (Itoa i)"
  using show_nat_digits [of "nat i"] show_nat_digits [of "nat (- i)"]
  by (auto simp: Itoa_def list_all_iff dest: bspec)

subsection \<open>Strings (strings, sort)\<close>

definition HasPrefix :: "string \<Rightarrow> string \<Rightarrow> bool" where
  "HasPrefix s p \<longleftrightarrow> take (length p) s = p"

definition TrimPrefix :: "string \<Rightarrow> string \<Rightarrow> string" where
  "TrimPrefix s p = (if HasPrefix s p then drop (length p) s else s)"

text \<open>\<open>strings.Index\<close> as an option: \<open>None\<close> is Go's \<open>-1\<close>.\<close>

fun IndexOf :: "string \<Rightarrow> string \<Rightarrow> nat option" where
  "IndexOf s p =
     (if HasPrefix s p then Some 0
      else case s of [] \<Rightarrow> None | _ # t \<Rightarrow> map_option Suc (IndexOf t p))"

declare IndexOf.simps [simp del]

definition Contains :: "string \<Rightarrow> string \<Rightarrow> bool" where
  "Contains s p \<longleftrightarrow> IndexOf s p \<noteq> None"

text \<open>\<open>strings.Split\<close> with a separator of one byte, the only form the sources use.\<close>

fun Split :: "string \<Rightarrow> char \<Rightarrow> string list" where
  "Split [] sep = [[]]"
| "Split (c # cs) sep =
     (if c = sep then [] # Split cs sep
      else case Split cs sep of w # ws \<Rightarrow> (c # w) # ws | [] \<Rightarrow> [[c]])"

fun Join :: "string list \<Rightarrow> string \<Rightarrow> string" where
  "Join [] sep = []"
| "Join [w] sep = w"
| "Join (w # v # ws) sep = w @ sep @ Join (v # ws) sep"

definition is_space :: "char \<Rightarrow> bool" where
  "is_space c \<longleftrightarrow> c = CHR '' '' \<or> (9 \<le> (of_char c :: nat) \<and> (of_char c :: nat) \<le> 13)"

text \<open>\<open>strings.Trim\<close> and \<open>strings.TrimSpace\<close>: drop the matching bytes at both ends.\<close>

definition TrimBy :: "(char \<Rightarrow> bool) \<Rightarrow> string \<Rightarrow> string" where
  "TrimBy p s = rev (dropWhile p (rev (dropWhile p s)))"

definition Trim :: "string \<Rightarrow> string \<Rightarrow> string" where
  "Trim s cutset = TrimBy (\<lambda>c. c \<in> set cutset) s"

text \<open>\<open>strings.Fields\<close>: the maximal runs of non-space bytes.\<close>

definition Fields :: "string \<Rightarrow> string list" where
  "Fields s = filter (\<lambda>w. w \<noteq> []) (Split (map (\<lambda>c. if is_space c then CHR '' '' else c) s) (CHR '' ''))"

definition ToLowerC :: "char \<Rightarrow> char" where
  "ToLowerC c = (if 65 \<le> (of_char c :: nat) \<and> (of_char c :: nat) \<le> 90 then char_of (of_char c + 32 :: nat) else c)"

definition ToLower :: "string \<Rightarrow> string" where
  "ToLower s = map ToLowerC s"


declare HasPrefix_def [go_eval] TrimPrefix_def [go_eval] IndexOf.simps [go_eval] Contains_def [go_eval]
  is_space_def [go_eval] TrimBy_def [go_eval] Trim_def [go_eval] Fields_def [go_eval]

lemma ToLower_protocols [go_eval]:
  "ToLower ''TCP'' = ''tcp''" "ToLower ''UDP'' = ''udp''" "ToLower ''tcp'' = ''tcp''"
  "ToLower ''udp'' = ''udp''" "ToLower [] = []"
  by code_simp+

lemma Split_nonempty [simp]: "Split s c \<noteq> []"
  by (induction s) (auto split: list.splits)

lemma Split_Cons_other [simp]:
  "c \<noteq> sep \<Longrightarrow> Split (c # cs) sep = (c # hd (Split cs sep)) # tl (Split cs sep)"
  by (cases "Split cs sep") auto

lemma Join_Cons: "ws \<noteq> [] \<Longrightarrow> Join (w # ws) sep = w @ sep @ Join ws sep"
  by (cases ws) auto

lemma Join_hd_tl: "ws \<noteq> [] \<Longrightarrow> Join ((c # hd ws) # tl ws) sep = c # Join ws sep"
  by (cases ws; cases "tl ws") auto

lemma Join_Split: "Join (Split s c) [c] = s"
proof (induction s)
  case (Cons a s)
  then show ?case
    by (cases "a = c") (simp_all add: Join_Cons Join_hd_tl del: Split.simps(2) add: Split.simps(2) [of c])
qed simp

lemma Split_no_sep: "w \<in> set (Split s c) \<Longrightarrow> c \<notin> set w"
  by (induction s arbitrary: w) (auto split: if_splits list.splits)

lemma append_sep_eq: "c \<notin> set x \<Longrightarrow> c \<notin> set x' \<Longrightarrow> x @ c # y = x' @ c # y' \<Longrightarrow> x = x' \<and> y = y'"
proof (induction x arbitrary: x')
  case Nil
  then show ?case by (cases x') auto
next
  case (Cons a x)
  then show ?case by (cases x') auto
qed

lemma Split_append_sep: "c \<notin> set w \<Longrightarrow> Split (w @ c # s) c = w # Split s c"
  by (induction w) auto

lemma Split_single: "c \<notin> set w \<Longrightarrow> Split w c = [w]"
  by (induction w) auto

text \<open>Words, and texts made of words.\<close>

definition word_ok :: "string \<Rightarrow> bool" where
  "word_ok w \<longleftrightarrow> w \<noteq> [] \<and> (\<forall>c \<in> set w. \<not> is_space c)"

lemma Fields_Nil [simp]: "Fields [] = []"
  by (simp add: Fields_def)

lemma Fields_space: "is_space c \<Longrightarrow> Fields (c # s) = Fields s"
  by (simp add: Fields_def)

lemma map_space_word: "\<forall>c \<in> set w. \<not> is_space c \<Longrightarrow> map (\<lambda>c. if is_space c then CHR '' '' else c) w = w"
  by (induction w) auto

lemma Fields_word_sep:
  assumes "word_ok w" "is_space c"
  shows "Fields (w @ c # s) = w # Fields s"
proof -
  have "CHR '' '' \<notin> set w" using assms(1) by (auto simp: word_ok_def is_space_def)
  then show ?thesis
    using assms by (simp add: Fields_def map_space_word word_ok_def Split_append_sep)
qed

lemma Fields_word:
  assumes "word_ok w"
  shows "Fields w = [w]"
proof -
  have "CHR '' '' \<notin> set w" using assms by (auto simp: word_ok_def is_space_def)
  then show ?thesis
    using assms by (simp add: Fields_def map_space_word word_ok_def Split_single)
qed

lemma tab_space [simp]: "is_space tab" "is_space nl" "is_space (CHR '' '')"
  by (simp_all add: is_space_def)

lemma Fields_Join:
  assumes "\<forall>w \<in> set ws. word_ok w"
  shows "Fields (Join ws '' '') = ws"
  using assms
proof (induction ws)
  case (Cons w ws)
  then show ?case
    by (cases "ws = []") (simp_all add: Join_Cons Fields_word Fields_word_sep)
qed simp

lemma Split_Join:
  "ws \<noteq> [] \<Longrightarrow> (\<And>w. w \<in> set ws \<Longrightarrow> c \<notin> set w) \<Longrightarrow> Split (Join ws [c]) c = ws"
proof (induction ws rule: induct_list012)
  case (3 w v ws)
  then show ?case by (simp add: Split_append_sep)
qed (auto simp: Split_single)

subsection \<open>Go maps\<close>

text \<open>
  A Go map is an association list with one pair per key: \<open>m[k]\<close> is \<open>map_of m k\<close>, a store is
  \<open>AList.update\<close>, \<open>delete(m, k)\<close> is \<open>AList.delete\<close>. Go leaves the order of a \<open>range\<close> over a map
  open. Every such loop of the model visits the pairs sorted by an arbitrary ranking of the
  keys, which is a parameter: each order of the pairs is the order of some ranking, and what
  is proved for every ranking holds for every order.
\<close>

type_synonym ('k, 'v) gomap = "('k \<times> 'v) list"

definition gmap_ok :: "('k, 'v) gomap \<Rightarrow> bool" where
  "gmap_ok m \<longleftrightarrow> distinct (map fst m)"

definition range_map :: "('k \<Rightarrow> nat) \<Rightarrow> ('k, 'v) gomap \<Rightarrow> ('k \<times> 'v) list" where
  "range_map rank m = sort_key (\<lambda>kv. rank (fst kv)) m"

lemma gmap_ok_Nil [simp]: "gmap_ok []"
  by (simp add: gmap_ok_def)

lemma gmap_ok_update [simp]: "gmap_ok m \<Longrightarrow> gmap_ok (AList.update k v m)"
  by (simp add: gmap_ok_def distinct_update)

lemma gmap_ok_delete [simp]: "gmap_ok m \<Longrightarrow> gmap_ok (AList.delete k m)"
  by (simp add: gmap_ok_def distinct_delete)

lemma set_range_map [simp]: "set (range_map rank m) = set m"
  by (simp add: range_map_def)

lemma mset_range_map [simp]: "mset (range_map rank m) = mset m"
  by (simp add: range_map_def)

lemma distinct_range_map [simp]: "distinct (map fst (range_map rank m)) = gmap_ok m"
proof -
  have "mset (map fst (range_map rank m)) = mset (map fst m)"
    by simp
  then show ?thesis
    unfolding gmap_ok_def by (rule mset_eq_imp_distinct_iff)
qed

lemma map_of_range_map [simp]: "gmap_ok m \<Longrightarrow> map_of (range_map rank m) = map_of m"
proof -
  assume ok: "gmap_ok m"
  then have "distinct (map fst (range_map rank m))" "distinct (map fst m)"
    by (simp, simp only: gmap_ok_def)
  then show ?thesis by (simp add: map_of_inject_set)
qed

subsection \<open>Lines\<close>

text \<open>A text made of lines, each with its newline.\<close>

definition lines :: "string list \<Rightarrow> string" where
  "lines ls = concat (map (\<lambda>l. l @ [nl]) ls)"

lemma lines_simps [simp]: "lines [] = []" "lines (l # ls) = l @ nl # lines ls"
  by (simp_all add: lines_def)

lemma lines_append [simp]: "lines (xs @ ys) = lines xs @ lines ys"
  by (simp add: lines_def)

lemma Split_lines: "\<forall>l \<in> set ls. nl \<notin> set l \<Longrightarrow> Split (lines ls) nl = ls @ [[]]"
  by (induction ls) (auto simp: Split_append_sep)

subsection \<open>Conversions between \<open>int32\<close> and \<open>uint16\<close>\<close>

lemma unat_u16_less: "unat (q :: u16) < 65536"
  using unsigned_less [of q, where ?'a = nat] by simp

lemma unat_ucast_down: "unat (p :: int32) < 65536 \<Longrightarrow> unat (ucast p :: u16) = unat p"
  by (simp add: unsigned_ucast_eq take_bit_nat_eq_self)

lemma unat_ucast_up: "unat (ucast (q :: u16) :: int32) = unat q"
  using unat_u16_less [of q] by (simp add: unsigned_ucast_eq take_bit_nat_eq_self)

lemma ucast_16_32: "unat (p :: int32) < 65536 \<Longrightarrow> ucast (ucast p :: u16) = p"
  by (simp only: word_unat_eq_iff unat_ucast_down unat_ucast_up)

lemma ucast_32_16: "ucast (ucast (q :: u16) :: int32) = q"
  by (simp only: word_unat_eq_iff unat_ucast_down unat_ucast_up unat_u16_less)

lemma sint_small: "unat (p :: int32) < 2 ^ 31 \<Longrightarrow> sint p = int (unat p)"
proof -
  assume "unat p < 2 ^ 31"
  then have "int (unat p) < int (2 ^ 31)" by (rule of_nat_less_iff [THEN iffD2])
  then have "uint p < 2 ^ 31" by (simp only: uint_nat of_nat_power of_nat_numeral)
  then have "signed_take_bit 31 (uint p) = uint p"
    by (intro signed_take_bit_int_eq_self) (simp_all add: order_trans [OF _ uint_ge_0])
  then show ?thesis by (simp add: sint_uint)
qed

lemma uint_ucast_16: "unat (p :: int32) < 65536 \<Longrightarrow> uint (ucast p :: u16) = sint p"
  by (simp only: uint_nat unat_ucast_down) (simp add: sint_small)
text \<open>Permutations: behind a map, and of the part of a list that a filter keeps.\<close>

lemma permute_preimage: "mset (map f xs) = mset (map f ys) \<Longrightarrow> \<exists>xs'. mset xs' = mset xs \<and> map f xs' = map f ys"
proof (induction ys arbitrary: xs)
  case (Cons y ys)
  have "f y \<in> f ` set xs" using mset_eq_setD [OF Cons.prems] by simp
  then obtain x where x: "x \<in> set xs" "f x = f y" by force
  obtain us vs where xs: "xs = us @ x # vs" using split_list [OF x(1)] by blast
  then have "mset (map f (us @ vs)) = mset (map f ys)" using Cons.prems x(2) by simp
  from Cons.IH [OF this] obtain zs where zs: "mset zs = mset (us @ vs)" "map f zs = map f ys" by blast
  have "mset (x # zs) = mset xs" "map f (x # zs) = map f (y # ys)" using zs x(2) xs by simp_all
  then show ?case by blast
qed simp

lemma permute_filter:
  assumes "mset ys = mset (filter P xs)"
  shows "\<exists>zs. mset zs = mset xs \<and> filter P zs = ys"
proof -
  have "set ys \<subseteq> Collect P" using mset_eq_setD [OF assms] by auto
  then have "filter P (ys @ filter (\<lambda>x. \<not> P x) xs) = ys" by (auto simp: filter_id_conv)
  moreover have "mset (ys @ filter (\<lambda>x. \<not> P x) xs) = mset xs" using assms by simp
  ultimately show ?thesis by blast
qed

end
