(* ===== verification/Kube.thy ===== *)
theory Kube
  imports Prelude
begin

text \<open>
  The Kubernetes objects (\<^verbatim>\<open>k8s.io/api/core/v1\<close>) with the fields the program reads or writes.
  The fields it only copies or compares as a whole are kept together in one opaque field.
\<close>

record ServicePort =
  spName :: string
  spProtocol :: string
  spPort :: int32

record LoadBalancerIngress =
  igIP :: string
  igHostname :: string

record Service =
  svcNamespace :: string
  svcName :: string
  svcResourceVersion :: string
  svcType :: string
  svcPorts :: "ServicePort list"
  svcIngress :: "LoadBalancerIngress list"
  svcRest :: string

record EndpointPort =
  epName :: string
  epPort :: int32

record EndpointSubset =
  essAddresses :: "string list"
  essPorts :: "EndpointPort list"

record Endpoints =
  epsNamespace :: string
  epsName :: string
  epsSubsets :: "EndpointSubset list"

definition ProtocolTCP :: string where "ProtocolTCP = ''TCP''"
definition ProtocolUDP :: string where "ProtocolUDP = ''UDP''"
definition ServiceTypeLoadBalancer :: string where "ServiceTypeLoadBalancer = ''LoadBalancer''"

subsection \<open>Endpoints by namespace and name\<close>

text \<open>
  Both adaptors build the same two level map \<open>Namespace->Name->Endpoints\<close>: an empty list for
  each service first, then each endpoints object appended where its service is known.
\<close>

type_synonym endpoints_map = "(string, (string, Endpoints list) gomap) gomap"

definition epm_get :: "endpoints_map \<Rightarrow> string \<Rightarrow> string \<Rightarrow> Endpoints list" where
  "epm_get m ns n =
     (case map_of m ns of
        None \<Rightarrow> []
      | Some nameMap \<Rightarrow> (case map_of nameMap n of None \<Rightarrow> [] | Some es \<Rightarrow> es))"

definition epm_has :: "endpoints_map \<Rightarrow> string \<Rightarrow> string \<Rightarrow> bool" where
  "epm_has m ns n \<longleftrightarrow> (case map_of m ns of None \<Rightarrow> False | Some nameMap \<Rightarrow> map_of nameMap n \<noteq> None)"

definition epm_init :: "Service \<Rightarrow> endpoints_map \<Rightarrow> endpoints_map" where
  "epm_init svc m =
     (let m = (case map_of m (svcNamespace svc) of
                 None \<Rightarrow> AList.update (svcNamespace svc) [] m | Some _ \<Rightarrow> m);
          nameMap = the (map_of m (svcNamespace svc))
      in AList.update (svcNamespace svc) (AList.update (svcName svc) [] nameMap) m)"

definition epm_add :: "Endpoints \<Rightarrow> endpoints_map \<Rightarrow> endpoints_map" where
  "epm_add enp m =
     (case map_of m (epsNamespace enp) of
        None \<Rightarrow> m
      | Some nameMap \<Rightarrow>
          (case map_of nameMap (epsName enp) of
             None \<Rightarrow> m
           | Some es \<Rightarrow>
               AList.update (epsNamespace enp) (AList.update (epsName enp) (es @ [enp]) nameMap) m))"

definition endpoints_of :: "Endpoints list \<Rightarrow> string \<Rightarrow> string \<Rightarrow> Endpoints list" where
  "endpoints_of eps ns n = filter (\<lambda>e. epsNamespace e = ns \<and> epsName e = n) eps"

lemma epm_init_has:
  "epm_has (epm_init svc m) ns n \<longleftrightarrow> epm_has m ns n \<or> (ns = svcNamespace svc \<and> n = svcName svc)"
  by (auto simp: epm_init_def epm_has_def update_conv' Let_def split: option.splits)

lemma epm_init_get: "epm_get m ns n = [] \<Longrightarrow> epm_get (epm_init svc m) ns n = []"
  by (auto simp: epm_init_def epm_get_def update_conv' Let_def split: option.splits if_splits)

lemma epm_add_has: "epm_has (epm_add e m) ns n = epm_has m ns n"
  by (auto simp: epm_add_def epm_has_def update_conv' split: option.splits)

lemma epm_add_get:
  "epm_get (epm_add e m) ns n =
     epm_get m ns n @ (if epsNamespace e = ns \<and> epsName e = n \<and> epm_has m ns n then [e] else [])"
  by (auto simp: epm_add_def epm_get_def epm_has_def update_conv' split: option.splits)

lemma fold_epm_init_has:
  "epm_has (fold epm_init svcs m) ns n \<longleftrightarrow>
     epm_has m ns n \<or> (\<exists>svc \<in> set svcs. svcNamespace svc = ns \<and> svcName svc = n)"
  by (induction svcs arbitrary: m) (auto simp: epm_init_has)

lemma fold_epm_init_get: "epm_get m ns n = [] \<Longrightarrow> epm_get (fold epm_init svcs m) ns n = []"
  by (induction svcs arbitrary: m) (auto simp: epm_init_get)

lemma fold_epm_add_get:
  "epm_get (fold epm_add eps m) ns n =
     epm_get m ns n @ (if epm_has m ns n then endpoints_of eps ns n else [])"
  by (induction eps arbitrary: m) (auto simp: epm_add_get epm_add_has endpoints_of_def)

text \<open>For a service of the list, the map holds exactly its endpoints objects, in their order.\<close>

lemma endpoints_map_correct:
  assumes "svc \<in> set svcs"
  shows "epm_get (fold epm_add eps (fold epm_init svcs [])) (svcNamespace svc) (svcName svc)
    = endpoints_of eps (svcNamespace svc) (svcName svc)"
proof -
  have "epm_get ([] :: endpoints_map) ns n = []" for ns n by (simp add: epm_get_def)
  then show ?thesis
    using assms by (auto simp: fold_epm_add_get fold_epm_init_get fold_epm_init_has)
qed

end
