(* ===== verification/Watch.thy ===== *)
theory Watch
  imports Kube
begin

text \<open>
  \<^verbatim>\<open>watch\<close>: the handlers that the informers call with the objects of the cluster, and the lists the
  watchers return. An object is an \<open>interface{}\<close>; \<open>ObjOther\<close> stands for every type but the two the
  watchers know, such as the tombstone the informer delivers for a deletion it has missed.
\<close>

datatype obj = ObjService Service | ObjEndpoints Endpoints | ObjOther

subsection \<open>type.go\<close>

text \<open>A call of the handler interface.\<close>

datatype service_call = AddService Service | DeleteService Service | UpdateService Service Service
datatype endpoints_call = AddEndpoints Endpoints | DeleteEndpoints Endpoints | UpdateEndpoints Endpoints Endpoints

subsection \<open>service.go\<close>

definition serviceAddEventHandler :: "obj \<Rightarrow> service_call option" where
  "serviceAddEventHandler obj =
     (case obj of
        ObjService service \<Rightarrow> if svcType service \<noteq> ServiceTypeLoadBalancer then None else Some (AddService service)
      | _ \<Rightarrow> None)"

definition serviceDeleteEventHandler :: "obj \<Rightarrow> service_call option" where
  "serviceDeleteEventHandler obj =
     (case obj of
        ObjService service \<Rightarrow> if svcType service \<noteq> ServiceTypeLoadBalancer then None else Some (DeleteService service)
      | _ \<Rightarrow> None)"

definition serviceUpdateEventHandler :: "obj \<Rightarrow> obj \<Rightarrow> service_call option" where
  "serviceUpdateEventHandler oldObj newObj =
     (case newObj of
        ObjService service \<Rightarrow>
          (case oldObj of
             ObjService oldService \<Rightarrow>
               if svcType service \<noteq> ServiceTypeLoadBalancer then None else Some (UpdateService oldService service)
           | _ \<Rightarrow> None)
      | _ \<Rightarrow> None)"

text \<open>\<open>List\<close>: the type assertion panics on an object of another type.\<close>

fun service_List :: "obj list \<Rightarrow> Service list gocall" where
  "service_List [] = Returns []"
| "service_List (ins # objs) =
     (case ins of
        ObjService svc \<Rightarrow> (case service_List objs of Panics \<Rightarrow> Panics | Returns svcs \<Rightarrow> Returns (svc # svcs))
      | _ \<Rightarrow> Panics)"

text \<open>\<open>HasSynced\<close> asks the controller, which is a parameter: its answer in the state it is asked in.\<close>

definition service_HasSynced :: "('s \<Rightarrow> bool) \<Rightarrow> 's \<Rightarrow> bool" where
  [simp]: "service_HasSynced ServiceController_HasSynced s = ServiceController_HasSynced s"

text \<open>
  A stop channel: nil before the watcher is started, afterwards the goroutines of the controller
  that wait on it. A send needs one of them to receive; on the nil channel, or when none waits, it
  blocks.
\<close>

type_synonym stop_chan = "nat set option"

inductive chan_send :: "stop_chan \<Rightarrow> stop_chan \<Rightarrow> bool" where
  received: "g \<in> gs \<Longrightarrow> chan_send (Some gs) (Some (gs - {g}))"

inductive_simps chan_send_simps: "chan_send ch ch'"

definition StopServiceWatcher :: "stop_chan \<Rightarrow> stop_chan \<Rightarrow> bool" where
  "StopServiceWatcher servicesStopCh servicesStopCh' \<longleftrightarrow> chan_send servicesStopCh servicesStopCh'"

subsection \<open>endpoint.go\<close>

definition endpointsAddEventHandler :: "obj \<Rightarrow> endpoints_call option" where
  "endpointsAddEventHandler obj =
     (case obj of ObjEndpoints endpoints \<Rightarrow> Some (AddEndpoints endpoints) | _ \<Rightarrow> None)"

definition endpointsDeleteEventHandler :: "obj \<Rightarrow> endpoints_call option" where
  "endpointsDeleteEventHandler obj =
     (case obj of ObjEndpoints endpoints \<Rightarrow> Some (DeleteEndpoints endpoints) | _ \<Rightarrow> None)"

definition endpointsUpdateEventHandler :: "obj \<Rightarrow> obj \<Rightarrow> endpoints_call option" where
  "endpointsUpdateEventHandler oldObj newObj =
     (case newObj of
        ObjEndpoints endpoints \<Rightarrow>
          if epsNamespace endpoints = ''kube-system'' then None
          else (case oldObj of
                  ObjEndpoints oldEndpoints \<Rightarrow> Some (UpdateEndpoints oldEndpoints endpoints)
                | _ \<Rightarrow> None)
      | _ \<Rightarrow> None)"

fun endpoints_List :: "obj list \<Rightarrow> Endpoints list gocall" where
  "endpoints_List [] = Returns []"
| "endpoints_List (ins # objs) =
     (case ins of
        ObjEndpoints ep \<Rightarrow> (case endpoints_List objs of Panics \<Rightarrow> Panics | Returns eps \<Rightarrow> Returns (ep # eps))
      | _ \<Rightarrow> Panics)"

definition endpoints_HasSynced :: "('s \<Rightarrow> bool) \<Rightarrow> 's \<Rightarrow> bool" where
  [simp]: "endpoints_HasSynced EndpointsController_HasSynced s = EndpointsController_HasSynced s"

definition StopEndpointsWatcher :: "stop_chan \<Rightarrow> stop_chan \<Rightarrow> bool" where
  "StopEndpointsWatcher endpointsStopCh endpointsStopCh' \<longleftrightarrow> chan_send endpointsStopCh endpointsStopCh'"

subsection \<open>The event handlers handed to the informers\<close>

text \<open>A notification of the informer, and the handler functions it is given.\<close>

datatype notice = OnAdd obj | OnUpdate obj obj | OnDelete obj

record 'c ResourceEventHandlerFuncs =
  AddFunc :: "obj \<Rightarrow> 'c option"
  DeleteFunc :: "obj \<Rightarrow> 'c option"
  UpdateFunc :: "obj \<Rightarrow> obj \<Rightarrow> 'c option"

fun deliver :: "'c ResourceEventHandlerFuncs \<Rightarrow> notice \<Rightarrow> 'c option" where
  "deliver h (OnAdd x) = AddFunc h x"
| "deliver h (OnUpdate x y) = UpdateFunc h x y"
| "deliver h (OnDelete x) = DeleteFunc h x"

definition service_handlers :: "service_call ResourceEventHandlerFuncs" where
  "service_handlers =
     \<lparr>AddFunc = serviceAddEventHandler, DeleteFunc = serviceDeleteEventHandler, UpdateFunc = serviceUpdateEventHandler\<rparr>"

definition endpoints_handlers :: "endpoints_call ResourceEventHandlerFuncs" where
  "endpoints_handlers =
     \<lparr>AddFunc = endpointsAddEventHandler, DeleteFunc = endpointsDeleteEventHandler, UpdateFunc = endpointsUpdateEventHandler\<rparr>"

text \<open>
  Stopping a watcher wakes one goroutine of its controller, not all: where the controller has two of
  them waiting for the channel, as an informer has, one is left waiting, since the channel is sent
  to and not closed. Before the watcher is started the call blocks.
\<close>

lemma Stop_wakes_one:
  assumes "StopServiceWatcher ch ch' \<or> StopEndpointsWatcher ch ch'"
  obtains gs g where "ch = Some gs" "g \<in> gs" "ch' = Some (gs - {g})"
  using assms by (auto simp: StopServiceWatcher_def StopEndpointsWatcher_def chan_send_simps)

lemma Stop_leaves_others:
  assumes "StopServiceWatcher (Some gs) (Some gs') \<or> StopEndpointsWatcher (Some gs) (Some gs')" "2 \<le> card gs"
  shows "gs' \<noteq> {}"
proof -
  obtain g where "g \<in> gs" "gs' = gs - {g}" by (rule Stop_wakes_one [OF assms(1)]) auto
  moreover have "finite gs" using assms(2) by (intro card_ge_0_finite) simp
  ultimately have "Suc (card gs') = card gs" by (metis card_Suc_Diff1)
  with assms(2) show ?thesis by auto
qed

lemma service_List_total: "service_List (map ObjService svcs) = Returns svcs"
  by (induction svcs) simp_all

lemma endpoints_List_total: "endpoints_List (map ObjEndpoints eps) = Returns eps"
  by (induction eps) simp_all

end
