(* ===== verification/Server.thy ===== *)
theory Server
  imports Watch
begin

text \<open>
  \<^verbatim>\<open>server/bmlb\<close>: the handlers that wake the synchronisation, the filter on the services, the update
  of their status, and the loop \<open>syncing\<close>. The server runs in several goroutines (two informers and
  the loop), so its run is a relation on the state they share.
\<close>

subsection \<open>handler.go\<close>

text \<open>
  The channel \<open>syncChan\<close> carries no data: \<open>None\<close> is the nil channel, \<open>Some n\<close> a channel with \<open>n\<close>
  waiting signals, of which it holds two. A send that would block is dropped.
\<close>

type_synonym sync_chan = "nat option"

definition chan_cap :: nat where "chan_cap = 2"

definition maybeSync :: "sync_chan \<Rightarrow> sync_chan" where
  "maybeSync ch = (case ch of None \<Rightarrow> None | Some n \<Rightarrow> if n < chan_cap then Some (n + 1) else Some n)"

definition comparable :: "Service \<Rightarrow> Service" where
  "comparable svc = svc\<lparr>svcResourceVersion := [], svcIngress := []\<rparr>"

definition skipServiceUpdate :: "Service \<Rightarrow> Service \<Rightarrow> bool" where
  "skipServiceUpdate old new \<longleftrightarrow> comparable old = comparable new"

fun handle_service :: "service_call \<Rightarrow> sync_chan \<Rightarrow> sync_chan" where
  "handle_service (AddService svc) ch = maybeSync ch"
| "handle_service (UpdateService oldSvc newSvc) ch = (if skipServiceUpdate oldSvc newSvc then ch else maybeSync ch)"
| "handle_service (DeleteService svc) ch = maybeSync ch"

fun handle_endpoints :: "endpoints_call \<Rightarrow> sync_chan \<Rightarrow> sync_chan" where
  "handle_endpoints (AddEndpoints ep) ch = maybeSync ch"
| "handle_endpoints (UpdateEndpoints oldEp newEp) ch = maybeSync ch"
| "handle_endpoints (DeleteEndpoints ep) ch = maybeSync ch"

definition objectKey :: "string \<Rightarrow> string \<Rightarrow> string" where
  "objectKey name ns = name @ ''_'' @ ns"

text \<open>
  \<open>updateSvcs\<close> starts one goroutine per service and waits for all of them. A goroutine tries
  \<open>UpdateStatus\<close> at once, then at each tick it is there for, and once more when the time is over
  (\<open>wait.PollImmediate\<close>). The state is the list of the goroutines still running, with the number of
  ticks that can still come or \<open>None\<close> for the last attempt, and the state of the API server. A step
  is one attempt of one goroutine; ticks that come during an attempt are skipped.
\<close>

type_synonym upd_state = "(Service \<times> nat option) list"

inductive upd_step :: "(Service \<Rightarrow> 'w \<Rightarrow> gerror option \<times> 'w) \<Rightarrow> upd_state \<times> 'w \<Rightarrow> upd_state \<times> 'w \<Rightarrow> bool"
  for UpdateStatus where
  updated: "UpdateStatus svc w = (None, w') \<Longrightarrow> upd_step UpdateStatus (gs @ (svc, k) # hs, w) (gs @ hs, w')"
| ticked: "UpdateStatus svc w = (Some err, w') \<Longrightarrow> j < k \<Longrightarrow>
    upd_step UpdateStatus (gs @ (svc, Some k) # hs, w) (gs @ (svc, Some j) # hs, w')"
| timed_out: "UpdateStatus svc w = (Some err, w') \<Longrightarrow>
    upd_step UpdateStatus (gs @ (svc, Some k) # hs, w) (gs @ (svc, None) # hs, w')"
| gave_up: "UpdateStatus svc w = (Some err, w') \<Longrightarrow> upd_step UpdateStatus (gs @ (svc, None) # hs, w) (gs @ hs, w')"

definition update_ticks :: nat where "update_ticks = 120"

definition updateSvcs_start :: "Service list \<Rightarrow> 'w \<Rightarrow> upd_state \<times> 'w" where
  "updateSvcs_start svcs w = (map (\<lambda>svc. (svc, Some update_ticks)) svcs, w)"

subsection \<open>The filter\<close>

text \<open>
  \<open>filter\<close> appends to the status of the objects it is given, which are those of the informer's
  cache; the third result is the list of the objects as it leaves them.
\<close>

definition has_ingress :: "string \<Rightarrow> Service \<Rightarrow> bool" where
  "has_ingress bind svc \<longleftrightarrow> (\<exists>ingress \<in> set (svcIngress svc). igIP ingress = bind)"

definition add_ingress :: "string \<Rightarrow> Service \<Rightarrow> Service" where
  "add_ingress bind svc = svc\<lparr>svcIngress := svcIngress svc @ [\<lparr>igIP = bind, igHostname = []\<rparr>]\<rparr>"

fun server_filter :: "string \<Rightarrow> Service list \<Rightarrow> Service list \<times> Service list \<times> Service list" where
  "server_filter bind [] = ([], [], [])"
| "server_filter bind (svc # svcs) =
     (let (filtered, needsUpdate, objs) = server_filter bind svcs
      in if svcType svc \<noteq> ServiceTypeLoadBalancer then (filtered, needsUpdate, svc # objs)
         else if has_ingress bind svc then (svc # filtered, needsUpdate, svc # objs)
         else let svc = add_ingress bind svc in (svc # filtered, svc # needsUpdate, svc # objs))"

subsection \<open>The run of the server\<close>

text \<open>
  Where the loop \<open>syncing\<close> is: waiting for the informers, between making the channel and its first
  send, in the \<open>select\<close>, behind it, with the filtered services in hand, behind \<open>Build\<close>.
\<close>

datatype loop_pc = Polling | Made | Selecting | Woken | Listed "Service list" "Service list" | Updating "Service list"

type_synonym obj_key = "string \<times> string"

text \<open>
  The caches of the informers, the notification each has still to deliver, whether each has
  synced, the channel, the loop, the balancer, and what the last \<open>Build\<close> was given.
\<close>

record 'l server =
  sv_svcs :: "obj_key \<rightharpoonup> Service"
  sv_eps :: "obj_key \<rightharpoonup> Endpoints"
  sv_svc_note :: "notice option"
  sv_ep_note :: "notice option"
  sv_svc_synced :: bool
  sv_ep_synced :: bool
  sv_chan :: sync_chan
  sv_loop :: loop_pc
  sv_lb :: 'l
  sv_built :: "(Service list \<times> Endpoints list) option"

definition service_key :: "Service \<Rightarrow> obj_key" where
  "service_key svc = (svcNamespace svc, svcName svc)"

definition endpoints_key :: "Endpoints \<Rightarrow> obj_key" where
  "endpoints_key ep = (epsNamespace ep, epsName ep)"

text \<open>\<open>List\<close> returns the objects of a cache in any order.\<close>

definition enumerates :: "(obj_key \<rightharpoonup> 'a) \<Rightarrow> 'a list \<Rightarrow> bool" where
  "enumerates cache xs \<longleftrightarrow> distinct xs \<and> set xs = ran cache"

definition mark_svc :: "string \<Rightarrow> Service \<Rightarrow> Service" where
  "mark_svc bind svc =
     (if svcType svc = ServiceTypeLoadBalancer \<and> \<not> has_ingress bind svc then add_ingress bind svc else svc)"

datatype server_event =
    SvcAdd Service | SvcUpdate Service Service | SvcDelete Service bool | SvcNotify
  | EpAdd Endpoints | EpUpdate Endpoints Endpoints | EpDelete Endpoints bool | EpNotify
  | SvcSynced | EpSynced | Polled | FirstSend | Receive | Tick | ListAndFilter | BuildLB | Updated

text \<open>
  An informer first changes its cache and then delivers the notification, one after the other.
  A deletion that the informer has missed is delivered as a tombstone (\<open>SvcDelete\<close>, \<open>EpDelete\<close> with
  \<open>True\<close>). \<open>ListAndFilter\<close> may find that the informer has replaced some of the listed objects in
  the meantime, so any part of the cache has the new status afterwards.
\<close>

inductive sstep :: "string \<Rightarrow> (Service list \<Rightarrow> Endpoints list \<Rightarrow> 'l \<Rightarrow> 'l) \<Rightarrow> 'l server \<Rightarrow> server_event \<Rightarrow> 'l server \<Rightarrow> bool"
  for bind and build where
  svc_add: "sv_svc_note s = None \<Longrightarrow> sv_svcs s (service_key svc) = None \<Longrightarrow>
    sstep bind build s (SvcAdd svc)
      (s\<lparr>sv_svcs := (sv_svcs s)(service_key svc \<mapsto> svc), sv_svc_note := Some (OnAdd (ObjService svc))\<rparr>)"
| svc_update: "sv_svc_note s = None \<Longrightarrow> sv_svcs s (service_key new) = Some old \<Longrightarrow>
    sstep bind build s (SvcUpdate old new)
      (s\<lparr>sv_svcs := (sv_svcs s)(service_key new \<mapsto> new),
         sv_svc_note := Some (OnUpdate (ObjService old) (ObjService new))\<rparr>)"
| svc_delete: "sv_svc_note s = None \<Longrightarrow> sv_svcs s k = Some svc \<Longrightarrow>
    sstep bind build s (SvcDelete svc tombstone)
      (s\<lparr>sv_svcs := (sv_svcs s)(k := None),
         sv_svc_note := Some (OnDelete (if tombstone then ObjOther else ObjService svc))\<rparr>)"
| svc_notify: "sv_svc_note s = Some n \<Longrightarrow>
    sstep bind build s SvcNotify
      (s\<lparr>sv_svc_note := None,
         sv_chan := (case deliver service_handlers n of None \<Rightarrow> sv_chan s | Some c \<Rightarrow> handle_service c (sv_chan s))\<rparr>)"
| ep_add: "sv_ep_note s = None \<Longrightarrow> sv_eps s (endpoints_key ep) = None \<Longrightarrow>
    sstep bind build s (EpAdd ep)
      (s\<lparr>sv_eps := (sv_eps s)(endpoints_key ep \<mapsto> ep), sv_ep_note := Some (OnAdd (ObjEndpoints ep))\<rparr>)"
| ep_update: "sv_ep_note s = None \<Longrightarrow> sv_eps s (endpoints_key new) = Some old \<Longrightarrow>
    sstep bind build s (EpUpdate old new)
      (s\<lparr>sv_eps := (sv_eps s)(endpoints_key new \<mapsto> new),
         sv_ep_note := Some (OnUpdate (ObjEndpoints old) (ObjEndpoints new))\<rparr>)"
| ep_delete: "sv_ep_note s = None \<Longrightarrow> sv_eps s k = Some ep \<Longrightarrow>
    sstep bind build s (EpDelete ep tombstone)
      (s\<lparr>sv_eps := (sv_eps s)(k := None),
         sv_ep_note := Some (OnDelete (if tombstone then ObjOther else ObjEndpoints ep))\<rparr>)"
| ep_notify: "sv_ep_note s = Some n \<Longrightarrow>
    sstep bind build s EpNotify
      (s\<lparr>sv_ep_note := None,
         sv_chan := (case deliver endpoints_handlers n of None \<Rightarrow> sv_chan s | Some c \<Rightarrow> handle_endpoints c (sv_chan s))\<rparr>)"
| svc_synced: "\<not> sv_svc_synced s \<Longrightarrow> sstep bind build s SvcSynced (s\<lparr>sv_svc_synced := True\<rparr>)"
| ep_synced: "\<not> sv_ep_synced s \<Longrightarrow> sstep bind build s EpSynced (s\<lparr>sv_ep_synced := True\<rparr>)"
| polled: "sv_loop s = Polling \<Longrightarrow> service_HasSynced sv_svc_synced s \<Longrightarrow> endpoints_HasSynced sv_ep_synced s \<Longrightarrow>
    sstep bind build s Polled (s\<lparr>sv_chan := Some 0, sv_loop := Made\<rparr>)"
| first_send: "sv_loop s = Made \<Longrightarrow> sv_chan s = Some n \<Longrightarrow> n < chan_cap \<Longrightarrow>
    sstep bind build s FirstSend (s\<lparr>sv_chan := Some (n + 1), sv_loop := Selecting\<rparr>)"
| receive: "sv_loop s = Selecting \<Longrightarrow> sv_chan s = Some (Suc n) \<Longrightarrow>
    sstep bind build s Receive (s\<lparr>sv_chan := Some n, sv_loop := Woken\<rparr>)"
| tick: "sv_loop s = Selecting \<Longrightarrow> sstep bind build s Tick (s\<lparr>sv_loop := Woken\<rparr>)"
| list_filter: "sv_loop s = Woken \<Longrightarrow> enumerates (sv_svcs s) svcs \<Longrightarrow>
    server_filter bind svcs = (filtered, needsUpdate, objs) \<Longrightarrow>
    \<forall>k. cache k = sv_svcs s k \<or> cache k = map_option (mark_svc bind) (sv_svcs s k) \<Longrightarrow>
    sstep bind build s ListAndFilter (s\<lparr>sv_svcs := cache, sv_loop := Listed filtered needsUpdate\<rparr>)"
| build_lb: "sv_loop s = Listed filtered needsUpdate \<Longrightarrow> enumerates (sv_eps s) eps \<Longrightarrow>
    sstep bind build s BuildLB
      (s\<lparr>sv_lb := build filtered eps (sv_lb s), sv_built := Some (filtered, eps), sv_loop := Updating needsUpdate\<rparr>)"
| updated_svcs: "sv_loop s = Updating needsUpdate \<Longrightarrow> sstep bind build s Updated (s\<lparr>sv_loop := Selecting\<rparr>)"

inductive_cases sstepE: "sstep bind build s ev s'"

definition server0 :: "'l \<Rightarrow> 'l server" where
  "server0 lb = \<lparr>sv_svcs = Map.empty, sv_eps = Map.empty, sv_svc_note = None, sv_ep_note = None, sv_svc_synced = False, sv_ep_synced = False,
     sv_chan = None, sv_loop = Polling, sv_lb = lb, sv_built = None\<rparr>"

text \<open>The states reached by events that all satisfy \<open>P\<close>.\<close>

inductive sreach :: "(server_event \<Rightarrow> bool) \<Rightarrow> string \<Rightarrow> (Service list \<Rightarrow> Endpoints list \<Rightarrow> 'l \<Rightarrow> 'l) \<Rightarrow> 'l \<Rightarrow> 'l server \<Rightarrow> bool"
  for P bind build lb where
  start: "sreach P bind build lb (server0 lb)"
| step: "sreach P bind build lb s \<Longrightarrow> sstep bind build s ev s' \<Longrightarrow> P ev \<Longrightarrow> sreach P bind build lb s'"

end
