(* ===== verification/ServerProps.thy ===== *)
theory ServerProps
  imports Server
begin

text \<open>
  The server: what the filter returns, that updating the status ends, the invariant that no change
  of the cluster is lost between the informers and the loop, and where the code falls short of it.
\<close>

subsection \<open>The filter\<close>

lemma comparable_mark [simp]: "comparable (mark_svc bind svc) = comparable svc"
  by (simp add: mark_svc_def comparable_def add_ingress_def)

lemma mark_type [simp]: "svcType (mark_svc bind svc) = svcType svc"
  by (simp add: mark_svc_def add_ingress_def)

lemma add_has_ingress: "has_ingress bind (add_ingress bind svc)"
  by (simp add: has_ingress_def add_ingress_def)

definition is_lb :: "Service \<Rightarrow> bool" where
  "is_lb svc \<longleftrightarrow> svcType svc = ServiceTypeLoadBalancer"

lemma is_lb_mark [simp]: "is_lb (mark_svc bind svc) = is_lb svc"
  by (simp add: is_lb_def)

lemma filter_spec:
  "server_filter bind svcs =
     (map (mark_svc bind) (filter is_lb svcs),
      map (add_ingress bind) (filter (\<lambda>svc. is_lb svc \<and> \<not> has_ingress bind svc) svcs),
      map (mark_svc bind) svcs)"
  by (induction svcs) (auto simp: Let_def is_lb_def mark_svc_def)

text \<open>
  C19. The filter keeps exactly the services of type LoadBalancer, in their order, each with the
  balancer's address in its status; it asks for an update of exactly those that did not have the
  address; and all other objects of the cache stay as they are.
\<close>

theorem server_filter_exact:
  "case server_filter bind svcs of
     (filtered, needsUpdate, objs) \<Rightarrow>
       filtered = map (mark_svc bind) (filter is_lb svcs) \<and>
       list_all (has_ingress bind) filtered \<and>
       needsUpdate = map (add_ingress bind) (filter (\<lambda>svc. is_lb svc \<and> \<not> has_ingress bind svc) svcs) \<and>
       map comparable objs = map comparable svcs"
  by (auto simp: filter_spec comp_def mark_svc_def is_lb_def has_ingress_def list_all_iff comparable_def add_ingress_def)

text \<open>
  The filter asks for the update of a status only once: it has written the address into the
  objects of the cache, so a second run on them asks for nothing. If the update has failed in
  the meantime it is not tried again until the informer replaces the object.
\<close>

theorem filter_asks_once:
  "case server_filter bind svcs of (filtered, needsUpdate, objs) \<Rightarrow> fst (snd (server_filter bind objs)) = []"
  by (auto simp: filter_spec filter_empty_conv mark_svc_def add_has_ingress is_lb_def split: if_splits)

subsection \<open>Updating the status\<close>

definition attempts_left :: "nat option \<Rightarrow> nat" where
  "attempts_left k = (case k of None \<Rightarrow> 1 | Some k \<Rightarrow> k + 2)"

definition upd_measure :: "upd_state \<Rightarrow> nat" where
  "upd_measure gs = (\<Sum>g \<leftarrow> gs. attempts_left (snd g))"

lemma upd_step_less: "upd_step U a b \<Longrightarrow> upd_measure (fst b) < upd_measure (fst a)"
  by (induction rule: upd_step.induct) (simp_all add: upd_measure_def attempts_left_def split: option.split)

lemma upd_step_exists: "fst a \<noteq> [] \<Longrightarrow> \<exists>b. upd_step U a b"
proof -
  assume "fst a \<noteq> []"
  then obtain svc k gs w where a: "a = ([] @ (svc, k) # gs, w)" by (cases a; cases "fst a") auto
  obtain e w' where u: "U svc w = (e, w')" by force
  show ?thesis
  proof (cases e)
    case None
    then show ?thesis using u unfolding a by (metis upd_step.updated)
  next
    case (Some err)
    then show ?thesis
      using u unfolding a by (cases k) (metis upd_step.gave_up, metis upd_step.timed_out)
  qed
qed

lemma upd_steps_bound: "(upd_step U ^^ n) a b \<Longrightarrow> n + upd_measure (fst b) \<le> upd_measure (fst a)"
proof (induction n arbitrary: b)
  case (Suc n)
  then obtain c where c: "(upd_step U ^^ n) a c" "upd_step U c b" by auto
  from Suc.IH [OF c(1)] upd_step_less [OF c(2)] show ?case by simp
qed simp

text \<open>
  C17. \<open>updateSvcs\<close> comes back, whatever the API server answers and however its goroutines are
  interleaved: while a goroutine runs there is a next attempt, and there are at most 122
  attempts for each service, so the loop of the server is not held up for ever.
\<close>

theorem updateSvcs_ends:
  assumes "(upd_step U ^^ n) (updateSvcs_start svcs w) (gs, w')"
  shows "n \<le> 122 * length svcs \<and> (gs = [] \<or> (\<exists>b. upd_step U (gs, w') b))"
proof -
  have "upd_measure (fst (updateSvcs_start svcs w)) = 122 * length svcs"
    by (induction svcs) (simp_all add: updateSvcs_start_def upd_measure_def attempts_left_def update_ticks_def)
  then show ?thesis
    using upd_steps_bound [OF assms] upd_step_exists [of "(gs, w')" U] by fastforce
qed

definition some_svc :: Service where
  "some_svc = \<lparr>svcNamespace = ''default'', svcName = ''web'', svcResourceVersion = ''1'', svcType = ''LoadBalancer'',
     svcPorts = [\<lparr>spName = ''http'', spProtocol = ''TCP'', spPort = 80\<rparr>], svcIngress = [], svcRest = []\<rparr>"

theorem updateSvcs_ends_witness:
  "(upd_step (\<lambda>svc w. (None, w + 1)) ^^ 1) (updateSvcs_start [some_svc] (0 :: nat)) ([], 1) \<and> 1 \<le> 122 * length [some_svc]"
proof -
  have "upd_step (\<lambda>svc w. (None, w + 1)) ([] @ (some_svc, Some 120) # [], 0 :: nat) ([] @ [], 1)"
    by (rule upd_step.updated) simp
  then have run: "(upd_step (\<lambda>svc w. (None, w + 1)) ^^ 1) (updateSvcs_start [some_svc] (0 :: nat)) ([], 1)"
    by (simp add: updateSvcs_start_def update_ticks_def eq_OO)
  from updateSvcs_ends [OF this] run show ?thesis by blast
qed

subsection \<open>No lost changes\<close>

text \<open>The services of type LoadBalancer in a cache, without what the server itself changes.\<close>

definition lb_content :: "(obj_key \<rightharpoonup> Service) \<Rightarrow> Service set" where
  "lb_content cache = comparable ` {svc \<in> ran cache. is_lb svc}"

text \<open>
  What a service is apart from its resource version and the addresses in its status, written out;
  \<open>comparable\<close>, with which the server decides whether an update matters, must agree with it.
\<close>

definition svc_view :: "Service \<Rightarrow> string \<times> string \<times> string \<times> ServicePort list \<times> string" where
  "svc_view svc = (svcNamespace svc, svcName svc, svcType svc, svcPorts svc, svcRest svc)"

lemma comparable_view: "comparable svc = comparable svc' \<longleftrightarrow> svc_view svc = svc_view svc'"
  by (cases svc; cases svc') (auto simp: comparable_def svc_view_def)

definition lb_views :: "(obj_key \<rightharpoonup> Service) \<Rightarrow> (string \<times> string \<times> string \<times> ServicePort list \<times> string) set" where
  "lb_views cache = svc_view ` {svc \<in> ran cache. is_lb svc}"

lemma svc_view_mark [simp]: "svc_view (mark_svc bind svc) = svc_view svc"
  by (simp add: svc_view_def mark_svc_def add_ingress_def)

lemma comparable_image_views: "comparable ` A = comparable ` B \<longleftrightarrow> svc_view ` A = svc_view ` B"
proof -
  have "(comparable ` A \<subseteq> comparable ` B) = (svc_view ` A \<subseteq> svc_view ` B)" for A B
    by (simp add: image_subset_iff image_iff comparable_view)
  then show ?thesis by (metis subset_antisym subset_refl)
qed

lemma lb_content_views: "comparable ` A = lb_content cache \<longleftrightarrow> svc_view ` A = lb_views cache"
  by (simp add: lb_content_def lb_views_def comparable_image_views)

lemma lb_views_cong: "lb_content cache = lb_content cache' \<Longrightarrow> lb_views cache = lb_views cache'"
  by (simp add: lb_content_def lb_views_def comparable_image_views)

text \<open>A change that the handlers do not pass on although it matters.\<close>

fun unheard :: "server_event \<Rightarrow> bool" where
  "unheard (SvcUpdate old new) = (is_lb old \<and> \<not> is_lb new)"
| "unheard (SvcDelete svc tombstone) = (is_lb svc \<and> tombstone)"
| "unheard (EpUpdate old new) = (epsNamespace new = ''kube-system'')"
| "unheard (EpDelete ep tombstone) = tombstone"
| "unheard _ = False"

definition will_list :: "'l server \<Rightarrow> bool" where
  "will_list s \<longleftrightarrow> sv_loop s = Polling \<or> sv_loop s = Made \<or> sv_loop s = Woken \<or> (\<exists>n. sv_chan s = Some (Suc n))"

definition svc_wakes :: "notice \<Rightarrow> bool" where
  "svc_wakes n \<longleftrightarrow> (\<exists>c. deliver service_handlers n = Some c \<and> (\<forall>old new. c = UpdateService old new \<longrightarrow> \<not> skipServiceUpdate old new))"

definition ep_wakes :: "notice \<Rightarrow> bool" where
  "ep_wakes n \<longleftrightarrow> deliver endpoints_handlers n \<noteq> None"

text \<open>The services the balancer has, or is about to be given.\<close>

definition known_svcs :: "'l server \<Rightarrow> Service list option" where
  "known_svcs s = (case sv_loop s of Listed filtered _ \<Rightarrow> Some filtered | _ \<Rightarrow> map_option fst (sv_built s))"

lemma known_svcs_updates [simp]:
  "known_svcs (s\<lparr>sv_svcs := c\<rparr>) = known_svcs s" "known_svcs (s\<lparr>sv_svc_note := n\<rparr>) = known_svcs s"
  "known_svcs (s\<lparr>sv_eps := e\<rparr>) = known_svcs s" "known_svcs (s\<lparr>sv_ep_note := n\<rparr>) = known_svcs s"
  "known_svcs (s\<lparr>sv_chan := ch\<rparr>) = known_svcs s" "known_svcs (s\<lparr>sv_svc_synced := y\<rparr>) = known_svcs s"
  "known_svcs (s\<lparr>sv_ep_synced := y\<rparr>) = known_svcs s"
  by (simp_all add: known_svcs_def split: loop_pc.split)

definition svcs_tracked :: "'l server \<Rightarrow> bool" where
  "svcs_tracked s \<longleftrightarrow> will_list s \<or> (\<exists>n. sv_svc_note s = Some n \<and> svc_wakes n) \<or>
     (\<exists>fs. known_svcs s = Some fs \<and> comparable ` set fs = lb_content (sv_svcs s))"

definition eps_tracked :: "'l server \<Rightarrow> bool" where
  "eps_tracked s \<longleftrightarrow> will_list s \<or> (\<exists>f n. sv_loop s = Listed f n) \<or> (\<exists>n. sv_ep_note s = Some n \<and> ep_wakes n) \<or>
     (\<exists>fs es. sv_built s = Some (fs, es) \<and> set es = ran (sv_eps s))"

definition server_inv :: "'l server \<Rightarrow> bool" where
  "server_inv s \<longleftrightarrow> (sv_loop s = Polling \<or> sv_chan s \<noteq> None) \<and> svcs_tracked s \<and> eps_tracked s"

lemma maybeSync_token: "sv \<noteq> None \<Longrightarrow> \<exists>n. maybeSync sv = Some (Suc n)"
  by (cases sv; cases "the sv") (auto simp: maybeSync_def chan_cap_def)

lemma maybeSync_keeps: "\<exists>n. sv = Some (Suc n) \<Longrightarrow> \<exists>n. maybeSync sv = Some (Suc n)"
  by (auto simp: maybeSync_def)

lemma handlers_None: "handle_service c sv = None \<longleftrightarrow> sv = None" "handle_endpoints e sv = None \<longleftrightarrow> sv = None"
  by (cases c; auto simp: maybeSync_def split: option.splits) (cases e; auto simp: maybeSync_def split: option.splits)

lemma chan_made: "sstep bind build s ev s' \<Longrightarrow> sv_loop s = Polling \<or> sv_chan s \<noteq> None \<Longrightarrow> sv_loop s' = Polling \<or> sv_chan s' \<noteq> None"
  by (induction rule: sstep.induct) (auto simp: handlers_None split: option.splits)

definition lb_at :: "Service option \<Rightarrow> Service option" where
  "lb_at e = (case e of None \<Rightarrow> None | Some svc \<Rightarrow> if is_lb svc then Some (comparable svc) else None)"

lemma lb_at_Some: "lb_at e = Some y \<longleftrightarrow> (\<exists>svc. e = Some svc \<and> is_lb svc \<and> y = comparable svc)"
  by (auto simp: lb_at_def split: option.splits)

lemma lb_content_at: "lb_content cache = {y. \<exists>k. lb_at (cache k) = Some y}"
  unfolding lb_content_def ran_def lb_at_Some by blast

lemma lb_content_cong: "(\<And>k. lb_at (cache' k) = lb_at (cache k)) \<Longrightarrow> lb_content cache' = lb_content cache"
  by (simp only: lb_content_at)

lemma lb_content_add: "cache k = None \<Longrightarrow> \<not> is_lb svc \<Longrightarrow> lb_content (cache(k \<mapsto> svc)) = lb_content cache"
  by (rule lb_content_cong) (simp add: lb_at_def)

lemma lb_content_delete: "cache k = Some svc \<Longrightarrow> \<not> is_lb svc \<Longrightarrow> lb_content (cache(k := None)) = lb_content cache"
  by (rule lb_content_cong) (simp add: lb_at_def)

lemma lb_content_update:
  "cache k = Some old \<Longrightarrow> is_lb old = is_lb new \<Longrightarrow> is_lb new \<longrightarrow> comparable old = comparable new \<Longrightarrow>
   lb_content (cache(k \<mapsto> new)) = lb_content cache"
  by (rule lb_content_cong) (simp add: lb_at_def)

lemma lb_content_mark:
  assumes "\<forall>k. cache' k = cache k \<or> cache' k = map_option (mark_svc bind) (cache k)"
  shows "lb_content cache' = lb_content cache"
proof (rule lb_content_cong)
  fix k show "lb_at (cache' k) = lb_at (cache k)"
    using assms [THEN spec, of k] by (cases "cache k") (auto simp: lb_at_def)
qed

lemma filtered_content:
  assumes "enumerates cache svcs" "server_filter bind svcs = (filtered, needsUpdate, objs)"
  shows "comparable ` set filtered = lb_content cache"
  using assms by (auto simp: filter_spec enumerates_def lb_content_def image_image)

lemma comparable_lb: "comparable old = comparable new \<Longrightarrow> is_lb old = is_lb new"
  by (metis comparable_def is_lb_def Service.select_convs(4) Service.surjective Service.update_convs(3,6))

lemma wake_rules:
  "svc_wakes (OnAdd (ObjService svc)) = is_lb svc"
  "svc_wakes (OnUpdate (ObjService old) (ObjService new)) = (is_lb new \<and> comparable old \<noteq> comparable new)"
  "svc_wakes (OnDelete (ObjService svc)) = is_lb svc"
  "ep_wakes (OnAdd (ObjEndpoints ep))"
  "ep_wakes (OnUpdate (ObjEndpoints ep) (ObjEndpoints ep')) = (epsNamespace ep' \<noteq> ''kube-system'')"
  "ep_wakes (OnDelete (ObjEndpoints ep))"
  by (auto simp: svc_wakes_def ep_wakes_def service_handlers_def endpoints_handlers_def serviceAddEventHandler_def
      serviceUpdateEventHandler_def serviceDeleteEventHandler_def endpointsAddEventHandler_def endpointsUpdateEventHandler_def
      endpointsDeleteEventHandler_def is_lb_def skipServiceUpdate_def)

text \<open>Delivering a notification keeps a waiting signal and, if it wakes, leaves one.\<close>

lemma notify_svc:
  assumes "sv \<noteq> None"
  shows "svc_wakes n \<Longrightarrow> \<exists>k. (case deliver service_handlers n of None \<Rightarrow> sv | Some c \<Rightarrow> handle_service c sv) = Some (Suc k)"
    "sv = Some (Suc j) \<Longrightarrow> \<exists>k. (case deliver service_handlers n of None \<Rightarrow> sv | Some c \<Rightarrow> handle_service c sv) = Some (Suc k)"
proof -
  assume "svc_wakes n"
  then obtain c where c: "deliver service_handlers n = Some c" "\<forall>old new. c = UpdateService old new \<longrightarrow> \<not> skipServiceUpdate old new"
    by (auto simp: svc_wakes_def)
  then show "\<exists>k. (case deliver service_handlers n of None \<Rightarrow> sv | Some c \<Rightarrow> handle_service c sv) = Some (Suc k)"
    using maybeSync_token [OF assms] by (cases c) auto
next
  assume "sv = Some (Suc j)"
  then show "\<exists>k. (case deliver service_handlers n of None \<Rightarrow> sv | Some c \<Rightarrow> handle_service c sv) = Some (Suc k)"
    by (cases "deliver service_handlers n"; cases "the (deliver service_handlers n)") (auto simp: maybeSync_def)
qed

lemma notify_ep:
  assumes "sv \<noteq> None"
  shows "ep_wakes n \<Longrightarrow> \<exists>k. (case deliver endpoints_handlers n of None \<Rightarrow> sv | Some c \<Rightarrow> handle_endpoints c sv) = Some (Suc k)"
    "sv = Some (Suc j) \<Longrightarrow> \<exists>k. (case deliver endpoints_handlers n of None \<Rightarrow> sv | Some c \<Rightarrow> handle_endpoints c sv) = Some (Suc k)"
proof -
  assume "ep_wakes n"
  then obtain c where c: "deliver endpoints_handlers n = Some c" by (auto simp: ep_wakes_def)
  then show "\<exists>k. (case deliver endpoints_handlers n of None \<Rightarrow> sv | Some c \<Rightarrow> handle_endpoints c sv) = Some (Suc k)"
    using maybeSync_token [OF assms] by (cases c) auto
next
  assume "sv = Some (Suc j)"
  then show "\<exists>k. (case deliver endpoints_handlers n of None \<Rightarrow> sv | Some c \<Rightarrow> handle_endpoints c sv) = Some (Suc k)"
    by (cases "deliver endpoints_handlers n"; cases "the (deliver endpoints_handlers n)") (auto simp: maybeSync_def)
qed

lemma svcs_tracked_step:
  assumes "sstep bind build s ev s'" "\<not> unheard ev" "sv_loop s = Polling \<or> sv_chan s \<noteq> None" "svcs_tracked s"
  shows "svcs_tracked s'"
  using assms
proof (induction rule: sstep.induct)
  case (svc_add s svc)
  then show ?case
    by (cases "is_lb svc")
      (auto simp: svcs_tracked_def will_list_def wake_rules lb_content_add)
next
  case (svc_update s new old)
  show ?case
  proof (cases "is_lb new \<and> comparable old \<noteq> comparable new")
    case True
    then show ?thesis by (simp add: svcs_tracked_def wake_rules)
  next
    case False
    then have "is_lb old = is_lb new" "is_lb new \<longrightarrow> comparable old = comparable new"
      using svc_update.prems(1) comparable_lb [of old new] by auto
    from lb_content_update [of "sv_svcs s" "service_key new", OF svc_update.hyps(2) this] svc_update.prems(3) svc_update.hyps(1) show ?thesis
      by (auto simp: svcs_tracked_def will_list_def)
  qed
next
  case (svc_delete s k svc tombstone)
  then show ?case
    by (cases "is_lb svc")
      (auto simp: svcs_tracked_def will_list_def wake_rules lb_content_delete)
next
  case (svc_notify s n)
  show ?case
  proof (cases "sv_loop s = Polling")
    case True
    then show ?thesis by (simp add: svcs_tracked_def will_list_def)
  next
    case False
    then have "sv_chan s \<noteq> None" using svc_notify.prems by simp
    then show ?thesis
      using svc_notify notify_svc [where sv = "sv_chan s" and n = n] by (auto simp: svcs_tracked_def will_list_def)
  qed
next
  case (ep_notify s n)
  show ?case
  proof (cases "sv_loop s = Polling")
    case True
    then show ?thesis by (simp add: svcs_tracked_def will_list_def)
  next
    case False
    then have "sv_chan s \<noteq> None" using ep_notify.prems by simp
    then show ?thesis
      using ep_notify notify_ep(2) [where sv = "sv_chan s" and n = n] by (auto simp: svcs_tracked_def will_list_def)
  qed
next
  case (list_filter s svcs filtered needsUpdate objs cache)
  then show ?case
    using filtered_content [OF list_filter(2,3)] lb_content_mark [OF list_filter(4)]
    by (simp add: svcs_tracked_def known_svcs_def)
next
  case (build_lb s filtered needsUpdate eps)
  then show ?case by (auto simp: svcs_tracked_def will_list_def known_svcs_def)
next
  case (updated_svcs s needsUpdate)
  then show ?case by (auto simp: svcs_tracked_def will_list_def known_svcs_def)
qed (auto simp: svcs_tracked_def will_list_def)

lemma eps_tracked_step:
  assumes "sstep bind build s ev s'" "\<not> unheard ev" "sv_loop s = Polling \<or> sv_chan s \<noteq> None" "eps_tracked s"
  shows "eps_tracked s'"
  using assms
proof (induction rule: sstep.induct)
  case (ep_notify s n)
  show ?case
  proof (cases "sv_loop s = Polling")
    case True
    then show ?thesis by (simp add: eps_tracked_def will_list_def)
  next
    case False
    then have "sv_chan s \<noteq> None" using ep_notify.prems by simp
    then show ?thesis
      using ep_notify notify_ep [where sv = "sv_chan s" and n = n] by (auto simp: eps_tracked_def will_list_def)
  qed
next
  case (svc_notify s n)
  show ?case
  proof (cases "sv_loop s = Polling")
    case True
    then show ?thesis by (simp add: eps_tracked_def will_list_def)
  next
    case False
    then have "sv_chan s \<noteq> None" using svc_notify.prems by simp
    then show ?thesis
      using svc_notify notify_svc(2) [where sv = "sv_chan s" and n = n] by (auto simp: eps_tracked_def will_list_def)
  qed
next
  case (build_lb s filtered needsUpdate eps)
  then show ?case by (simp add: eps_tracked_def enumerates_def)
qed (auto simp: eps_tracked_def will_list_def wake_rules)

lemma server_inv_reach:
  assumes "sreach P bind build lb s" "\<And>ev. P ev \<Longrightarrow> \<not> unheard ev"
  shows "server_inv s"
  using assms(1)
proof induction
  case start
  then show ?case by (simp add: server_inv_def server0_def svcs_tracked_def eps_tracked_def will_list_def)
next
  case (step s ev s')
  then show ?case
    using chan_made [OF step(2)] svcs_tracked_step [OF step(2)] eps_tracked_step [OF step(2)] assms(2) [of ev]
    unfolding server_inv_def by blast
qed

definition quiescent :: "'l server \<Rightarrow> bool" where
  "quiescent s \<longleftrightarrow> sv_loop s = Selecting \<and> sv_chan s = Some 0 \<and> sv_svc_note s = None \<and> sv_ep_note s = None"

lemma quiescent_fresh:
  assumes "sreach P bind build lb s" "\<And>ev. P ev \<Longrightarrow> \<not> unheard ev" "quiescent s"
  shows "\<exists>fs es. sv_built s = Some (fs, es) \<and> comparable ` set fs = lb_content (sv_svcs s) \<and> set es = ran (sv_eps s)"
  using server_inv_reach [OF assms(1,2)] assms(3)
  by (auto simp: server_inv_def quiescent_def svcs_tracked_def eps_tracked_def will_list_def known_svcs_def)

subsection \<open>The first send can block\<close>

definition stuck :: "'l server \<Rightarrow> bool" where
  "stuck s \<longleftrightarrow> sv_loop s = Made \<and> sv_chan s = Some chan_cap \<and> sv_built s = None"

lemma handlers_full:
  "handle_service c (Some chan_cap) = Some chan_cap" "handle_endpoints e (Some chan_cap) = Some chan_cap"
  by (cases c; simp add: maybeSync_def) (cases e; simp add: maybeSync_def)

lemma stuck_step: "sstep bind build s ev s' \<Longrightarrow> stuck s \<Longrightarrow> stuck s'"
  by (induction rule: sstep.induct) (auto simp: stuck_def handlers_full split: option.splits)

lemma stuck_forever: "(\<lambda>a b. \<exists>ev. sstep bind build a ev b)\<^sup>*\<^sup>* s s' \<Longrightarrow> stuck s \<Longrightarrow> stuck s'"
  by (induction rule: rtranclp_induct) (auto dest: stuck_step)

definition some_ep :: Endpoints where
  "some_ep = \<lparr>epsNamespace = ''default'', epsName = ''web'', epsSubsets = []\<rparr>"

lemmas delivery_defs =
  service_handlers_def endpoints_handlers_def serviceAddEventHandler_def endpointsAddEventHandler_def maybeSync_def chan_cap_def

text \<open>A run: the informers have synced, the loop has made the channel, and one object of each kind comes.\<close>

definition two_added :: "'l \<Rightarrow> 'l server" where
  "two_added lb = (server0 lb)\<lparr>sv_svcs := [service_key some_svc \<mapsto> some_svc], sv_eps := [endpoints_key some_ep \<mapsto> some_ep],
     sv_svc_synced := True, sv_ep_synced := True, sv_chan := Some chan_cap, sv_loop := Made\<rparr>"

lemma reach_made: "sreach (\<lambda>ev. \<not> unheard ev) bind build lb ((server0 lb)\<lparr>sv_svc_synced := True, sv_ep_synced := True, sv_chan := Some 0, sv_loop := Made\<rparr>)"
  (is "sreach ?P _ _ _ ?s")
proof -
  let ?a = "(server0 lb)\<lparr>sv_svc_synced := True, sv_ep_synced := True\<rparr>"
  have "sreach ?P bind build lb ?a"
    by (rule sreach.step [OF sreach.step [OF sreach.start sstep.svc_synced] sstep.ep_synced]) (simp_all add: server0_def)
  then show ?thesis by (rule sreach.step [where ev = Polled]) (use sstep.polled [of ?a bind build] in \<open>simp_all add: server0_def\<close>)
qed

lemma reach_two_added: "sreach (\<lambda>ev. \<not> unheard ev) bind build lb (two_added lb)"
proof -
  let ?P = "\<lambda>ev. \<not> unheard ev"
  let ?s0 = "(server0 lb)\<lparr>sv_svc_synced := True, sv_ep_synced := True, sv_chan := Some 0, sv_loop := Made\<rparr>"
  let ?s1 = "?s0\<lparr>sv_svcs := [service_key some_svc \<mapsto> some_svc], sv_svc_note := Some (OnAdd (ObjService some_svc))\<rparr>"
  let ?s2 = "?s1\<lparr>sv_svc_note := None, sv_chan := Some 1\<rparr>"
  let ?s3 = "?s2\<lparr>sv_eps := [endpoints_key some_ep \<mapsto> some_ep], sv_ep_note := Some (OnAdd (ObjEndpoints some_ep))\<rparr>"
  have lb: "svcType some_svc = ServiceTypeLoadBalancer" by (simp add: some_svc_def ServiceTypeLoadBalancer_def)
  have "sreach ?P bind build lb ?s1"
    by (rule sreach.step [OF reach_made, where ev = "SvcAdd some_svc"])
      (use sstep.svc_add [of ?s0 some_svc bind build] in \<open>simp_all add: server0_def\<close>)
  then have "sreach ?P bind build lb ?s2"
    by (rule sreach.step [where ev = SvcNotify])
      (use sstep.svc_notify [of ?s1 _ bind build] lb in \<open>simp_all add: server0_def delivery_defs\<close>)
  then have "sreach ?P bind build lb ?s3"
    by (rule sreach.step [where ev = "EpAdd some_ep"])
      (use sstep.ep_add [of ?s2 some_ep bind build] in \<open>simp_all add: server0_def\<close>)
  then show ?thesis
    by (rule sreach.step [where ev = EpNotify])
      (use sstep.ep_notify [of ?s3 _ bind build] in \<open>simp_all add: server0_def delivery_defs two_added_def numeral_2_eq_2\<close>)
qed

text \<open>
  C39. Between making the channel and its own first send the loop has no receiver: two
  notifications in that window fill the channel, the send blocks, and since only the loop
  receives, no later sequence of events brings it on: the balancer is never built.
\<close>

theorem first_send_deadlock:
  "\<exists>s. sreach (\<lambda>ev. \<not> unheard ev) bind build lb s \<and> stuck s \<and>
     Collect ((\<lambda>a b. \<exists>ev. sstep bind build a ev b)\<^sup>*\<^sup>* s) \<subseteq> Collect stuck"
proof (intro exI conjI subsetI)
  show "sreach (\<lambda>ev. \<not> unheard ev) bind build lb (two_added lb)" by (rule reach_two_added)
  show st: "stuck (two_added lb)" by (simp add: stuck_def two_added_def server0_def)
  fix s assume "s \<in> Collect ((\<lambda>a b. \<exists>ev. sstep bind build a ev b)\<^sup>*\<^sup>* (two_added lb))"
  then show "s \<in> Collect stuck" using stuck_forever st by blast
qed

subsection \<open>A full round of the loop\<close>

text \<open>One service and one endpoints object are in the caches before the informers have synced.\<close>

definition built_server :: "string \<Rightarrow> (Service list \<Rightarrow> Endpoints list \<Rightarrow> 'l \<Rightarrow> 'l) \<Rightarrow> Service \<Rightarrow> Endpoints \<Rightarrow> 'l \<Rightarrow> 'l server" where
  "built_server bind build svc ep lb = \<lparr>sv_svcs = [service_key svc \<mapsto> mark_svc bind svc], sv_eps = [endpoints_key ep \<mapsto> ep],
     sv_svc_note = None, sv_ep_note = None, sv_svc_synced = True, sv_ep_synced = True, sv_chan = Some 0, sv_loop = Selecting,
     sv_lb = build [mark_svc bind svc] [ep] lb, sv_built = Some ([mark_svc bind svc], [ep])\<rparr>"

lemma reach_cached:
  assumes P: "P (SvcAdd svc)" "P SvcNotify" "P (EpAdd ep)" "P EpNotify"
  shows "sreach P bind build lb ((server0 lb)\<lparr>sv_svcs := [service_key svc \<mapsto> svc], sv_eps := [endpoints_key ep \<mapsto> ep]\<rparr>)"
proof -
  let ?s1 = "(server0 lb)\<lparr>sv_svcs := [service_key svc \<mapsto> svc], sv_svc_note := Some (OnAdd (ObjService svc))\<rparr>"
  let ?s2 = "?s1\<lparr>sv_svc_note := None\<rparr>"
  let ?s3 = "?s2\<lparr>sv_eps := [endpoints_key ep \<mapsto> ep], sv_ep_note := Some (OnAdd (ObjEndpoints ep))\<rparr>"
  have "sreach P bind build lb ?s1"
    by (rule sreach.step [of P bind build lb "server0 lb", OF sreach.start _ P(1)]) (use sstep.svc_add [of "server0 lb" svc bind build] in \<open>simp add: server0_def\<close>)
  then have "sreach P bind build lb ?s2"
    by (rule sreach.step [of P bind build lb, OF _ _ P(2)])
      (use sstep.svc_notify [of ?s1 _ bind build] in \<open>simp add: server0_def delivery_defs split: if_splits\<close>)
  then have "sreach P bind build lb ?s3"
    by (rule sreach.step [of P bind build lb, OF _ _ P(3)]) (use sstep.ep_add [of ?s2 ep bind build] in \<open>simp add: server0_def\<close>)
  then show ?thesis
    by (rule sreach.step [of P bind build lb, OF _ _ P(4)])
      (use sstep.ep_notify [of ?s3 _ bind build] in \<open>simp add: server0_def delivery_defs\<close>)
qed

text \<open>The loop has been woken and has that service and those endpoints to list.\<close>

definition woken_server :: "Service \<Rightarrow> Endpoints \<Rightarrow> 'l \<Rightarrow> 'l server" where
  "woken_server svc ep lb = (server0 lb)\<lparr>sv_svcs := [service_key svc \<mapsto> svc], sv_eps := [endpoints_key ep \<mapsto> ep],
     sv_svc_synced := True, sv_ep_synced := True, sv_chan := Some 0, sv_loop := Woken\<rparr>"

lemma reach_woken:
  assumes P: "P (SvcAdd svc)" "P SvcNotify" "P (EpAdd ep)" "P EpNotify"
    and Q: "P SvcSynced" "P EpSynced" "P Polled" "P FirstSend" "P Receive"
  shows "sreach P bind build lb (woken_server svc ep lb)"
proof -
  let ?s0 = "(server0 lb)\<lparr>sv_svcs := [service_key svc \<mapsto> svc], sv_eps := [endpoints_key ep \<mapsto> ep]\<rparr>"
  let ?s1 = "?s0\<lparr>sv_svc_synced := True, sv_ep_synced := True\<rparr>"
  let ?s2 = "?s1\<lparr>sv_chan := Some 0, sv_loop := Made\<rparr>"
  let ?s3 = "?s2\<lparr>sv_chan := Some 1, sv_loop := Selecting\<rparr>"
  have "sreach P bind build lb ?s1"
    by (rule sreach.step [of P bind build lb, OF sreach.step [of P bind build lb, OF reach_cached [OF P] sstep.svc_synced Q(1)]
          sstep.ep_synced Q(2)]) (simp_all add: server0_def)
  then have "sreach P bind build lb ?s2"
    by (rule sreach.step [of P bind build lb, OF _ _ Q(3)]) (rule sstep.polled, simp_all add: server0_def)
  then have "sreach P bind build lb ?s3"
    by (rule sreach.step [of P bind build lb, OF _ _ Q(4)]) (use sstep.first_send [of ?s2 0 bind build] in \<open>simp add: server0_def chan_cap_def\<close>)
  then show ?thesis
    by (rule sreach.step [of P bind build lb, OF _ _ Q(5)])
      (use sstep.receive [of ?s3 0 bind build] in \<open>simp add: server0_def woken_server_def\<close>)
qed

lemma woken_lists:
  assumes "is_lb svc"
  shows "sstep bind build (woken_server svc ep lb) ListAndFilter
    ((woken_server svc ep lb)\<lparr>sv_svcs := [service_key svc \<mapsto> mark_svc bind svc],
       sv_loop := Listed [mark_svc bind svc] (if has_ingress bind svc then [] else [mark_svc bind svc])\<rparr>)"
proof -
  have f: "server_filter bind [svc] =
      ([mark_svc bind svc], if has_ingress bind svc then [] else [mark_svc bind svc], [mark_svc bind svc])"
    using assms by (simp add: filter_spec mark_svc_def is_lb_def)
  show ?thesis
    by (rule sstep.list_filter [OF _ _ f]) (simp_all add: woken_server_def enumerates_def)
qed

lemma reach_built:
  assumes "is_lb svc" and P: "P (SvcAdd svc)" "P SvcNotify" "P (EpAdd ep)" "P EpNotify"
    and Q: "P SvcSynced" "P Polled" "P FirstSend" "P Receive" "P ListAndFilter" "P BuildLB" "P Updated" "P EpSynced"
  shows "sreach P bind build lb (built_server bind build svc ep lb)"
proof -
  let ?svc = "mark_svc bind svc"
  let ?upd = "if has_ingress bind svc then [] else [?svc]"
  let ?s5 = "(woken_server svc ep lb)\<lparr>sv_svcs := [service_key svc \<mapsto> ?svc], sv_loop := Listed [?svc] ?upd\<rparr>"
  let ?s6 = "?s5\<lparr>sv_lb := build [?svc] [ep] lb, sv_built := Some ([?svc], [ep]), sv_loop := Updating ?upd\<rparr>"
  have "sreach P bind build lb ?s5"
    by (rule sreach.step [of P bind build lb, OF reach_woken woken_lists [OF assms(1)]]) (use P Q in simp_all)
  then have "sreach P bind build lb ?s6"
    by (rule sreach.step [of P bind build lb, OF _ _ Q(6)])
      (use sstep.build_lb [of ?s5 "[?svc]" ?upd "[ep]" bind build] in \<open>simp add: woken_server_def server0_def enumerates_def\<close>)
  then show ?thesis
    by (rule sreach.step [of P bind build lb, OF _ _ Q(7)])
      (use sstep.updated_svcs [of ?s6 ?upd bind build] in \<open>simp add: woken_server_def server0_def built_server_def\<close>)
qed

lemma built_quiescent: "quiescent (built_server bind build svc ep lb)"
  by (simp add: quiescent_def built_server_def)

text \<open>The state after the update that the handler drops: the service is no longer of type LoadBalancer.\<close>

definition stale_server :: "string \<Rightarrow> (Service list \<Rightarrow> Endpoints list \<Rightarrow> 'l \<Rightarrow> 'l) \<Rightarrow> 'l \<Rightarrow> 'l server" where
  "stale_server bind build lb = (built_server bind build some_svc some_ep lb)
     \<lparr>sv_svcs := [service_key some_svc \<mapsto> some_svc\<lparr>svcType := ''ClusterIP''\<rparr>]\<rparr>"

lemma reach_stale: "sreach (\<lambda>_. True) bind build lb (stale_server bind build lb)"
proof -
  let ?s0 = "built_server bind build some_svc some_ep lb"
  let ?old = "mark_svc bind some_svc" and ?new = "some_svc\<lparr>svcType := ''ClusterIP''\<rparr>"
  let ?s1 = "?s0\<lparr>sv_svcs := [service_key some_svc \<mapsto> ?new], sv_svc_note := Some (OnUpdate (ObjService ?old) (ObjService ?new))\<rparr>"
  have "sreach (\<lambda>_. True) bind build lb ?s0"
    by (rule reach_built) (simp_all add: is_lb_def some_svc_def ServiceTypeLoadBalancer_def)
  then have "sreach (\<lambda>_. True) bind build lb ?s1"
    by (rule sreach.step [where ev = "SvcUpdate ?old ?new"])
      (use sstep.svc_update [of ?s0 ?new ?old bind build] in \<open>simp_all add: built_server_def service_key_def\<close>)
  then show ?thesis
    by (rule sreach.step [where ev = SvcNotify])
      (use sstep.svc_notify [of ?s1 _ bind build] in
        \<open>simp_all add: built_server_def stale_server_def service_handlers_def serviceUpdateEventHandler_def ServiceTypeLoadBalancer_def\<close>)
qed


end
