(* ===== verification/ServerLive.thy ===== *)
theory ServerLive
  imports ServerProps
begin

text \<open>
  The run of the server as a whole: the shape of its state (\<open>server_wf\<close>), that no change of the cluster
  that the handlers pass on is lost, that its own steps run out when the cluster is quiet, that
  the ticker repairs what was dropped, and that its own updates of the status do not keep it busy.
\<close>

subsection \<open>The shape of the state\<close>

fun service_notice :: "notice \<Rightarrow> bool" where
  "service_notice (OnAdd x) = (\<exists>svc. x = ObjService svc)"
| "service_notice (OnUpdate x y) = (\<exists>old new. x = ObjService old \<and> y = ObjService new)"
| "service_notice (OnDelete x) = ((\<exists>svc. x = ObjService svc) \<or> x = ObjOther)"

fun endpoints_notice :: "notice \<Rightarrow> bool" where
  "endpoints_notice (OnAdd x) = (\<exists>ep. x = ObjEndpoints ep)"
| "endpoints_notice (OnUpdate x y) = (\<exists>old new. x = ObjEndpoints old \<and> y = ObjEndpoints new)"
| "endpoints_notice (OnDelete x) = ((\<exists>ep. x = ObjEndpoints ep) \<or> x = ObjOther)"

definition cache_wf :: "('a \<Rightarrow> obj_key) \<Rightarrow> (obj_key \<rightharpoonup> 'a) \<Rightarrow> bool" where
  "cache_wf key cache \<longleftrightarrow> finite (dom cache) \<and> (\<forall>k x. cache k = Some x \<longrightarrow> key x = k)"

text \<open>What the loop has in hand: marked services of type LoadBalancer.\<close>

definition loop_wf :: "string \<Rightarrow> loop_pc \<Rightarrow> bool" where
  "loop_wf bind pc \<longleftrightarrow>
     (case pc of
        Listed filtered needsUpdate \<Rightarrow>
          list_all (\<lambda>svc. is_lb svc \<and> has_ingress bind svc) filtered \<and> set needsUpdate \<subseteq> set filtered
      | Updating needsUpdate \<Rightarrow> list_all (\<lambda>svc. is_lb svc \<and> has_ingress bind svc) needsUpdate
      | _ \<Rightarrow> True)"

definition server_wf :: "string \<Rightarrow> 'l server \<Rightarrow> bool" where
  "server_wf bind s \<longleftrightarrow>
     cache_wf service_key (sv_svcs s) \<and> cache_wf endpoints_key (sv_eps s) \<and>
     pred_option service_notice (sv_svc_note s) \<and> pred_option endpoints_notice (sv_ep_note s) \<and>
     pred_option (\<lambda>n. n \<le> chan_cap) (sv_chan s) \<and> (sv_chan s = None \<longleftrightarrow> sv_loop s = Polling) \<and>
     (sv_loop s = Polling \<or> sv_svc_synced s \<and> sv_ep_synced s) \<and>
     (sv_loop s = Polling \<or> sv_loop s = Made \<longrightarrow> sv_built s = None) \<and>
     (\<forall>needsUpdate. sv_loop s = Updating needsUpdate \<longrightarrow> sv_built s \<noteq> None) \<and> loop_wf bind (sv_loop s)"

lemma cache_wf_empty: "cache_wf key Map.empty"
  by (simp add: cache_wf_def)

lemma cache_wf_add: "cache_wf key cache \<Longrightarrow> cache_wf key (cache(key x \<mapsto> x))"
  by (auto simp: cache_wf_def split: if_splits)

lemma cache_wf_delete: "cache_wf key cache \<Longrightarrow> cache_wf key (cache(k := None))"
  by (auto simp: cache_wf_def split: if_splits)

lemma service_key_mark [simp]: "service_key (mark_svc bind svc) = service_key svc"
  by (simp add: service_key_def mark_svc_def add_ingress_def)

lemma cache_wf_mark:
  assumes "cache_wf service_key cache" "\<forall>k. cache' k = cache k \<or> cache' k = map_option (mark_svc bind) (cache k)"
  shows "cache_wf service_key cache'"
  supply split_paired_All [simp del]
proof -
  have same: "cache' k = None \<longleftrightarrow> cache k = None" for k using assms(2) [THEN spec, of k] by auto
  then have "dom cache' = dom cache" by (auto simp: dom_def)
  moreover have "service_key x = k" if "cache' k = Some x" for k x
    using assms(1) assms(2) [THEN spec, of k] that by (cases "cache k") (auto simp: cache_wf_def)
  ultimately show ?thesis using assms(1) by (simp add: cache_wf_def)
qed

lemma chan_bounds:
  "pred_option (\<lambda>n. n \<le> chan_cap) ch \<Longrightarrow> pred_option (\<lambda>n. n \<le> chan_cap) (maybeSync ch)"
  by (auto simp: maybeSync_def split: option.splits)

lemma handlers_bounds:
  assumes "pred_option (\<lambda>n. n \<le> chan_cap) ch"
  shows "pred_option (\<lambda>n. n \<le> chan_cap) (handle_service c ch)" "pred_option (\<lambda>n. n \<le> chan_cap) (handle_endpoints e ch)"
  using assms chan_bounds by (cases c; simp) (use assms chan_bounds in \<open>cases e; simp\<close>)

lemma filtered_wf:
  assumes "server_filter bind svcs = (filtered, needsUpdate, objs)"
  shows "loop_wf bind (Listed filtered needsUpdate)"
  using assms add_has_ingress
  by (auto simp: filter_spec loop_wf_def list_all_iff mark_svc_def is_lb_def image_iff add_ingress_def split: if_splits)

lemma server_wf_step: "sstep bind build s ev s' \<Longrightarrow> server_wf bind s \<Longrightarrow> server_wf bind s'"
proof (induction rule: sstep.induct)
  case (svc_notify s n)
  then show ?case using handlers_bounds(1) by (auto simp: server_wf_def handlers_None split: option.split)
next
  case (ep_notify s n)
  then show ?case using handlers_bounds(2) by (auto simp: server_wf_def handlers_None split: option.split)
next
  case (list_filter s svcs filtered needsUpdate objs cache)
  then show ?case using cache_wf_mark filtered_wf by (auto simp: server_wf_def)
next
  case (build_lb s filtered needsUpdate eps)
  then show ?case by (auto simp: server_wf_def loop_wf_def list_all_iff)
qed (auto simp: server_wf_def loop_wf_def cache_wf_add cache_wf_delete chan_cap_def)

lemma sreach_wf:
  assumes "sreach P bind build lb s"
  shows "server_wf bind s"
  using assms
proof (induction rule: sreach.induct)
  case start
  then show ?case by (simp add: server_wf_def server0_def cache_wf_empty loop_wf_def)
qed (rule server_wf_step)

text \<open>
  C14. The state of the server keeps its shape in every interleaving: the caches are finite and hold
  each object under its own key, the pending notifications carry objects of their kind, the
  channel exists exactly once the loop has made it and holds at most two signals, the loop works
  only on marked services of type LoadBalancer, and updates a status only after a \<open>Build\<close>.
\<close>

theorem server_state_wf:
  assumes "sreach P bind build lb s"
  shows "server_wf bind s"
  by (rule sreach_wf [OF assms])

theorem server_state_wf_witness:
  "server_wf ''10.0.0.1'' (built_server ''10.0.0.1'' (\<lambda>fs es n. n + 1) some_svc some_ep (0 :: nat))"
proof -
  have "is_lb some_svc" by (simp add: is_lb_def some_svc_def ServiceTypeLoadBalancer_def)
  from server_state_wf [OF reach_built [OF this, of "\<lambda>_. True"]] show ?thesis by simp
qed

subsection \<open>No lost changes\<close>

text \<open>No object is given to the balancer twice.\<close>

definition lists_distinct :: "'l server \<Rightarrow> bool" where
  "lists_distinct s \<longleftrightarrow>
     (\<forall>fs n. sv_loop s = Listed fs n \<longrightarrow> distinct (map service_key fs)) \<and>
     (\<forall>fs es. sv_built s = Some (fs, es) \<longrightarrow> distinct (map service_key fs) \<and> distinct es)"

lemma enumerated_keys:
  assumes "cache_wf key cache" "enumerates cache xs"
  shows "distinct (map key xs)"
proof -
  have "cache (key x) = Some x" if "x \<in> ran cache" for x
    using assms(1) that by (auto simp: cache_wf_def ran_def)
  then have "inj_on key (ran cache)" by (intro inj_onI) (metis option.inject)
  then show ?thesis using assms(2) by (simp add: enumerates_def distinct_map)
qed

lemma filtered_keys:
  assumes "distinct (map service_key svcs)" "server_filter bind svcs = (filtered, needsUpdate, objs)"
  shows "distinct (map service_key filtered)"
proof -
  have "map service_key filtered = map service_key (filter is_lb svcs)"
    using assms(2) by (auto simp: filter_spec)
  then show ?thesis using assms(1) by (simp add: distinct_map_filter)
qed

lemma lists_distinct_step: "sstep bind build s ev s' \<Longrightarrow> server_wf bind s \<Longrightarrow> lists_distinct s \<Longrightarrow> lists_distinct s'"
proof (induction rule: sstep.induct)
  case (list_filter s svcs filtered needsUpdate objs cache)
  then have "distinct (map service_key svcs)" using enumerated_keys by (auto simp: server_wf_def)
  from filtered_keys [OF this list_filter(3)] list_filter show ?case by (simp add: lists_distinct_def)
next
  case (build_lb s filtered needsUpdate eps)
  then show ?case by (simp add: lists_distinct_def enumerates_def)
qed (simp_all add: lists_distinct_def)

lemma sreach_distinct:
  assumes "sreach P bind build lb s"
  shows "lists_distinct s"
  using assms
proof (induction rule: sreach.induct)
  case start
  then show ?case by (simp add: lists_distinct_def server0_def)
next
  case (step s ev s')
  show ?case by (rule lists_distinct_step [OF step(2) sreach_wf [OF step(1)] step.IH])
qed

lemma rests_fresh:
  assumes "sreach P bind build lb s" "\<And>ev. P ev \<Longrightarrow> \<not> unheard ev" "quiescent s"
  shows "\<exists>fs es. sv_built s = Some (fs, es) \<and> distinct (map service_key fs) \<and> svc_view ` set fs = lb_views (sv_svcs s) \<and>
    distinct es \<and> set es = ran (sv_eps s)"
  using quiescent_fresh [OF assms] sreach_distinct [OF assms(1)] by (auto simp: lists_distinct_def lb_content_views)

text \<open>
  C3. No change of the cluster that the handlers pass on is lost between the informers and the
  loop: in every interleaving of the informers and the loop in which no event is one that the
  handlers drop (\<open>unheard\<close>), when the notifications are delivered, the channel is empty and the loop
  waits, the last \<open>Build\<close> was given the services of type LoadBalancer and the endpoints that are in
  the caches now, each once, the services with their namespace, name, type, ports and everything
  else but the resource version and the addresses in the status. The channel holds two signals
  and drops more, and notifications before it exists are dropped too.
\<close>

theorem no_lost_changes:
  assumes "sreach (\<lambda>ev. \<not> unheard ev) bind build lb s" "quiescent s"
  shows "\<exists>fs es. sv_built s = Some (fs, es) \<and> distinct (map service_key fs) \<and> svc_view ` set fs = lb_views (sv_svcs s) \<and>
    distinct es \<and> set es = ran (sv_eps s)"
  using rests_fresh [OF assms(1) _ assms(2)] by simp

theorem no_lost_changes_witness:
  "\<exists>s. sreach (\<lambda>ev. \<not> unheard ev) ''10.0.0.1'' (\<lambda>fs es n. n + 1) (0 :: nat) s \<and> quiescent s \<and>
     (\<exists>fs es. sv_built s = Some (fs, es) \<and> svc_view ` set fs = {svc_view some_svc} \<and> set es = {some_ep})"
proof -
  let ?s = "built_server ''10.0.0.1'' (\<lambda>fs es n. n + 1) some_svc some_ep (0 :: nat)"
  have lb: "is_lb some_svc" by (simp add: is_lb_def some_svc_def ServiceTypeLoadBalancer_def)
  have r: "sreach (\<lambda>ev. \<not> unheard ev) ''10.0.0.1'' (\<lambda>fs es n. n + 1) 0 ?s" by (rule reach_built) (simp_all add: lb)
  have "lb_views (sv_svcs ?s) = {svc_view some_svc}" "ran (sv_eps ?s) = {some_ep}"
    using lb by (auto simp: lb_views_def built_server_def)
  with no_lost_changes [OF r built_quiescent] r built_quiescent show ?thesis by fastforce
qed

subsection \<open>The server settles\<close>

text \<open>The steps of the program itself: deliveries and the loop, but neither changes of the cluster nor ticks.\<close>

fun internal :: "server_event \<Rightarrow> bool" where
  "internal SvcNotify = True"
| "internal EpNotify = True"
| "internal SvcSynced = True"
| "internal EpSynced = True"
| "internal Polled = True"
| "internal FirstSend = True"
| "internal Receive = True"
| "internal ListAndFilter = True"
| "internal BuildLB = True"
| "internal Updated = True"
| "internal _ = False"

definition istep :: "string \<Rightarrow> (Service list \<Rightarrow> Endpoints list \<Rightarrow> 'l \<Rightarrow> 'l) \<Rightarrow> 'l server \<Rightarrow> 'l server \<Rightarrow> bool" where
  "istep bind build s s' \<longleftrightarrow> (\<exists>ev. internal ev \<and> sstep bind build s ev s')"

fun pc_work :: "loop_pc \<Rightarrow> nat" where
  "pc_work Polling = 6"
| "pc_work Made = 5"
| "pc_work Selecting = 0"
| "pc_work Woken = 3"
| "pc_work (Listed _ _) = 2"
| "pc_work (Updating _) = 1"

definition note_work :: "notice option \<Rightarrow> nat" where
  "note_work n = (if n = None then 0 else 5)"

definition work :: "'l server \<Rightarrow> nat" where
  "work s = pc_work (sv_loop s) + note_work (sv_svc_note s) + note_work (sv_ep_note s) +
     (case sv_chan s of None \<Rightarrow> 0 | Some n \<Rightarrow> 4 * n) + (if sv_svc_synced s then 0 else 1) + (if sv_ep_synced s then 0 else 1)"

definition chan_work :: "sync_chan \<Rightarrow> nat" where
  "chan_work ch = (case ch of None \<Rightarrow> 0 | Some n \<Rightarrow> 4 * n)"

lemma maybeSync_work: "chan_work (maybeSync ch) \<le> chan_work ch + 4"
  by (simp add: chan_work_def maybeSync_def split: option.split)

lemma handlers_work:
  "chan_work (handle_service c ch) \<le> chan_work ch + 4" "chan_work (handle_endpoints e ch) \<le> chan_work ch + 4"
  using maybeSync_work [of ch] by (cases c; simp) (use maybeSync_work [of ch] in \<open>cases e; simp\<close>)

lemma notify_work:
  "chan_work (case deliver service_handlers n of None \<Rightarrow> ch | Some c \<Rightarrow> handle_service c ch) \<le> chan_work ch + 4"
  "chan_work (case deliver endpoints_handlers n of None \<Rightarrow> ch | Some e \<Rightarrow> handle_endpoints e ch) \<le> chan_work ch + 4"
  using handlers_work by (simp_all split: option.split)

lemma internal_less: "sstep bind build s ev s' \<Longrightarrow> internal ev \<Longrightarrow> server_wf bind s \<Longrightarrow> work s' < work s"
proof (induction rule: sstep.induct)
  case (svc_notify s n)
  then show ?case using notify_work(1) [where ch = "sv_chan s" and n = n] by (simp add: work_def note_work_def flip: chan_work_def)
next
  case (ep_notify s n)
  then show ?case using notify_work(2) [where ch = "sv_chan s" and n = n] by (simp add: work_def note_work_def flip: chan_work_def)
qed (auto simp: work_def server_wf_def)

lemma cache_enumerable: "cache_wf key cache \<Longrightarrow> \<exists>xs. enumerates cache xs"
  unfolding cache_wf_def enumerates_def by (metis finite_distinct_list finite_ran)

lemma list_filter_enabled:
  assumes "server_wf bind s" "sv_loop s = Woken"
  shows "\<exists>s'. sstep bind build s ListAndFilter s'"
proof -
  obtain svcs where e: "enumerates (sv_svcs s) svcs"
    using assms(1) cache_enumerable unfolding server_wf_def by blast
  obtain f n objs where "server_filter bind svcs = (f, n, objs)" by (cases "server_filter bind svcs") auto
  from sstep.list_filter [OF assms(2) e this, of "sv_svcs s"] show ?thesis by auto
qed

lemma build_enabled:
  assumes "server_wf bind s" "sv_loop s = Listed filtered needsUpdate"
  shows "\<exists>s'. sstep bind build s BuildLB s'"
proof -
  obtain eps where "enumerates (sv_eps s) eps"
    using assms(1) cache_enumerable unfolding server_wf_def by blast
  from sstep.build_lb [OF assms(2) this] show ?thesis by blast
qed

lemma internal_enabled:
  assumes "server_wf bind s" "\<not> quiescent s" "\<not> stuck s"
  shows "\<exists>s'. istep bind build s s'"
proof -
  have step: "\<exists>s'. istep bind build s s'" if "sstep bind build s ev s'" "internal ev" for ev s'
    using that by (auto simp: istep_def)
  consider (snote) n where "sv_svc_note s = Some n" | (enote) n where "sv_ep_note s = Some n"
    | (none) "sv_svc_note s = None" "sv_ep_note s = None" by (cases "sv_svc_note s"; cases "sv_ep_note s") auto
  then show ?thesis
  proof cases
    case snote
    from step [OF sstep.svc_notify [OF this]] show ?thesis by simp
  next
    case enote
    from step [OF sstep.ep_notify [OF this]] show ?thesis by simp
  next
    case none
    show ?thesis
    proof (cases "sv_loop s")
      case Polling
      then show ?thesis
        using step [OF sstep.svc_synced] step [OF sstep.ep_synced] step [OF sstep.polled]
        by (cases "sv_svc_synced s"; cases "sv_ep_synced s") auto
    next
      case Made
      then obtain n where "sv_chan s = Some n" "n < chan_cap"
        using assms(1,3) by (cases "sv_chan s") (auto simp: server_wf_def stuck_def)
      from step [OF sstep.first_send [OF Made this]] show ?thesis by simp
    next
      case Selecting
      then obtain n where "sv_chan s = Some (Suc n)"
        using assms(1,2) none by (cases "sv_chan s"; cases "the (sv_chan s)") (auto simp: server_wf_def quiescent_def)
      from step [OF sstep.receive [OF Selecting this]] show ?thesis by simp
    next
      case Woken
      from list_filter_enabled [OF assms(1) this] step show ?thesis by fastforce
    next
      case (Listed f n)
      from build_enabled [OF assms(1) this] step show ?thesis by fastforce
    next
      case (Updating n)
      from step [OF sstep.updated_svcs [OF Updating]] show ?thesis by simp
    qed
  qed
qed

lemma work_bound: "server_wf bind s \<Longrightarrow> work s \<le> 23"
  by (cases "sv_loop s"; cases "sv_chan s") (auto simp: server_wf_def work_def note_work_def chan_cap_def)

lemma isteps_work:
  "(istep bind build ^^ n) s s' \<Longrightarrow> server_wf bind s \<Longrightarrow> server_wf bind s' \<and> n + work s' \<le> work s"
proof (induction n arbitrary: s')
  case (Suc n)
  then obtain t where t: "(istep bind build ^^ n) s t" "istep bind build t s'" by auto
  with Suc have wf: "server_wf bind t" "n + work t \<le> work s" by blast+
  from t(2) wf(1) have "server_wf bind s'" "work s' < work t"
    by (auto simp: istep_def intro: server_wf_step internal_less)
  with wf(2) show ?case by simp
qed simp

text \<open>
  C4. When the cluster is quiet the server settles: from every state it can be in, whatever the
  interleaving of deliveries and loop, it makes at most 23 steps of its own, and it only stops
  where it is at rest, or blocked at its first send.
\<close>

theorem server_settles:
  assumes "sreach P bind build lb s" "(istep bind build ^^ n) s s'"
  shows "n \<le> 23 \<and> (quiescent s' \<or> stuck s' \<or> (\<exists>t. istep bind build s' t))"
proof -
  note wf = sreach_wf [OF assms(1)]
  have "server_wf bind s'" "n \<le> work s" using isteps_work [OF assms(2) wf] by simp_all
  with work_bound [OF wf] internal_enabled [of bind s' build] show ?thesis by auto
qed

theorem server_settles_witness:
  "\<exists>s'. (istep ''10.0.0.1'' (\<lambda>fs es n. n + 1) ^^ 1) (server0 (0 :: nat)) s' \<and> \<not> quiescent s' \<and> \<not> stuck s' \<and>
     (\<exists>t. istep ''10.0.0.1'' (\<lambda>fs es n. n + 1) s' t)"
proof -
  let ?s = "(server0 (0 :: nat))\<lparr>sv_svc_synced := True\<rparr>"
  have "sstep ''10.0.0.1'' (\<lambda>fs es n. n + 1) (server0 (0 :: nat)) SvcSynced ?s"
    by (rule sstep.svc_synced) (simp add: server0_def)
  then have run: "(istep ''10.0.0.1'' (\<lambda>fs es n. n + 1) ^^ 1) (server0 (0 :: nat)) ?s"
    by (auto simp: istep_def eq_OO intro: exI [of _ SvcSynced])
  have busy: "\<not> quiescent ?s" "\<not> stuck ?s" by (simp_all add: quiescent_def stuck_def server0_def)
  have r: "sreach (\<lambda>_. True) ''10.0.0.1'' (\<lambda>fs es n. n + 1) (0 :: nat) (server0 0)" by (rule sreach.start)
  from server_settles [OF r run] busy run show ?thesis by blast
qed

subsection \<open>The ticker\<close>

text \<open>What the informers do while the loop is somewhere.\<close>

fun informer_event :: "server_event \<Rightarrow> bool" where
  "informer_event (SvcAdd _) = True"
| "informer_event (SvcUpdate _ _) = True"
| "informer_event (SvcDelete _ _) = True"
| "informer_event SvcNotify = True"
| "informer_event (EpAdd _) = True"
| "informer_event (EpUpdate _ _) = True"
| "informer_event (EpDelete _ _) = True"
| "informer_event EpNotify = True"
| "informer_event SvcSynced = True"
| "informer_event EpSynced = True"
| "informer_event _ = False"

definition informs :: "string \<Rightarrow> (Service list \<Rightarrow> Endpoints list \<Rightarrow> 'l \<Rightarrow> 'l) \<Rightarrow> 'l server \<Rightarrow> 'l server \<Rightarrow> bool" where
  "informs bind build s s' \<longleftrightarrow> (\<lambda>a b. \<exists>ev. informer_event ev \<and> sstep bind build a ev b)\<^sup>*\<^sup>* s s'"

lemma informer_step:
  "sstep bind build s ev s' \<Longrightarrow> informer_event ev \<Longrightarrow> sv_loop s' = sv_loop s \<and> sv_lb s' = sv_lb s \<and> sv_built s' = sv_built s"
  by (induction rule: sstep.induct) simp_all

lemma informs_keeps:
  assumes "informs bind build s s'" "server_wf bind s"
  shows "server_wf bind s' \<and> sv_loop s' = sv_loop s \<and> sv_lb s' = sv_lb s \<and> sv_built s' = sv_built s"
  using assms(1) unfolding informs_def
proof (induction rule: rtranclp_induct)
  case base
  then show ?case using assms(2) by simp
next
  case (step t u)
  then show ?case using informer_step server_wf_step by metis
qed

lemma list_filter_result:
  assumes "sstep bind build s ListAndFilter s'"
  shows "\<exists>fs n. sv_loop s' = Listed fs n \<and> svc_view ` set fs = lb_views (sv_svcs s) \<and> lb_views (sv_svcs s') = lb_views (sv_svcs s) \<and>
    sv_lb s' = sv_lb s"
proof -
  from assms obtain svcs filtered needsUpdate objs cache where 1: "enumerates (sv_svcs s) svcs"
      "server_filter bind svcs = (filtered, needsUpdate, objs)"
      "\<forall>k. cache k = sv_svcs s k \<or> cache k = map_option (mark_svc bind) (sv_svcs s k)"
      "s' = s\<lparr>sv_svcs := cache, sv_loop := Listed filtered needsUpdate\<rparr>" by (auto elim: sstepE)
  then show ?thesis
    using filtered_content [OF 1(1,2)] lb_views_cong [OF lb_content_mark [OF 1(3)]] by (simp add: lb_content_views)
qed

lemma build_result:
  assumes "sstep bind build s BuildLB s'" "sv_loop s = Listed fs n"
  shows "\<exists>es. sv_built s' = Some (fs, es) \<and> sv_lb s' = build fs es (sv_lb s) \<and> set es = ran (sv_eps s')"
  using assms by (auto elim!: sstepE simp: enumerates_def)

text \<open>
  C18. The ticker repairs what the handlers drop. Whenever the loop waits, whatever has happened
  before and whichever events were dropped, a tick can start a round; the round goes on to \<open>List\<close>
  and to \<open>Build\<close> whatever the informers do before (\<open>s2\<close>) and between them (\<open>s4\<close>): both steps are then
  possible, and the balancer is given the services of type LoadBalancer that are in the cache when
  they are listed, and the endpoints that are in the cache when it is called.
\<close>

theorem tick_round_fresh:
  assumes "sreach P bind build lb s" "sv_loop s = Selecting"
  shows "sstep bind build s Tick (s\<lparr>sv_loop := Woken\<rparr>) \<and>
    (\<forall>s2. informs bind build (s\<lparr>sv_loop := Woken\<rparr>) s2 \<longrightarrow>
       (\<exists>s3. sstep bind build s2 ListAndFilter s3) \<and>
       (\<forall>s3 s4. sstep bind build s2 ListAndFilter s3 \<longrightarrow> informs bind build s3 s4 \<longrightarrow>
          (\<exists>s5. sstep bind build s4 BuildLB s5) \<and>
          (\<forall>s5. sstep bind build s4 BuildLB s5 \<longrightarrow>
             (\<exists>fs es. sv_built s5 = Some (fs, es) \<and> sv_lb s5 = build fs es (sv_lb s) \<and>
                svc_view ` set fs = lb_views (sv_svcs s2) \<and> set es = ran (sv_eps s5)))))"
proof (intro conjI allI impI)
  show tick: "sstep bind build s Tick (s\<lparr>sv_loop := Woken\<rparr>)" by (rule sstep.tick) (rule assms(2))
  fix s2 assume i2: "informs bind build (s\<lparr>sv_loop := Woken\<rparr>) s2"
  have 2: "server_wf bind s2" "sv_loop s2 = Woken" "sv_lb s2 = sv_lb s"
    using informs_keeps [OF i2 server_wf_step [OF tick sreach_wf [OF assms(1)]]] by simp_all
  show "\<exists>s3. sstep bind build s2 ListAndFilter s3" by (rule list_filter_enabled [OF 2(1,2)])
  fix s3 s4 assume l: "sstep bind build s2 ListAndFilter s3" and i4: "informs bind build s3 s4"
  obtain fs n where 3: "sv_loop s3 = Listed fs n" "svc_view ` set fs = lb_views (sv_svcs s2)" "sv_lb s3 = sv_lb s2"
    using list_filter_result [OF l] by blast
  have 4: "server_wf bind s4" "sv_loop s4 = Listed fs n" "sv_lb s4 = sv_lb s"
    using informs_keeps [OF i4 server_wf_step [OF l 2(1)]] 3 2(3) by simp_all
  show "\<exists>s5. sstep bind build s4 BuildLB s5" by (rule build_enabled [OF 4(1,2)])
  fix s5 assume "sstep bind build s4 BuildLB s5"
  from build_result [OF this 4(2)] 3(2) 4(3) show "\<exists>fs es. sv_built s5 = Some (fs, es) \<and> sv_lb s5 = build fs es (sv_lb s) \<and>
      svc_view ` set fs = lb_views (sv_svcs s2) \<and> set es = ran (sv_eps s5)" by auto
qed

theorem tick_round_fresh_witness:
  "\<exists>s s3 s5 es. sreach (\<lambda>_. True) ''10.0.0.1'' (\<lambda>fs es n. n + 1) (0 :: nat) s \<and> quiescent s \<and> lb_views (sv_svcs s) = {} \<and>
     sv_built s = Some ([mark_svc ''10.0.0.1'' some_svc], [some_ep]) \<and>
     sstep ''10.0.0.1'' (\<lambda>fs es n. n + 1) s Tick (s\<lparr>sv_loop := Woken\<rparr>) \<and>
     sstep ''10.0.0.1'' (\<lambda>fs es n. n + 1) (s\<lparr>sv_loop := Woken\<rparr>) ListAndFilter s3 \<and>
     sstep ''10.0.0.1'' (\<lambda>fs es n. n + 1) s3 BuildLB s5 \<and> sv_built s5 = Some ([], es) \<and> sv_lb s5 = 2"
proof -
  let ?bind = "''10.0.0.1''" and ?build = "\<lambda>fs es n. n + (1 :: nat)"
  let ?s = "stale_server ?bind ?build 0"
  have st: "sv_loop ?s = Selecting" "sv_lb ?s = 1" "sv_built ?s = Some ([mark_svc ?bind some_svc], [some_ep])" "quiescent ?s"
      "lb_views (sv_svcs ?s) = {}"
    by (auto simp: stale_server_def built_server_def quiescent_def lb_views_def is_lb_def ServiceTypeLoadBalancer_def)
  have i: "informs ?bind ?build t t" for t by (simp add: informs_def)
  note T = tick_round_fresh [OF reach_stale st(1)]
  then obtain s3 where 3: "sstep ?bind ?build (?s\<lparr>sv_loop := Woken\<rparr>) ListAndFilter s3" using i by blast
  with T obtain s5 where 5: "sstep ?bind ?build s3 BuildLB s5" using i by blast
  from T i 3 5 obtain fs es where "sv_built s5 = Some (fs, es)" "sv_lb s5 = sv_lb ?s + 1"
      "svc_view ` set fs = lb_views (sv_svcs (?s\<lparr>sv_loop := Woken\<rparr>))" by blast
  then have "sv_built s5 = Some ([], es)" "sv_lb s5 = 2" using st(2,5) by simp_all
  with reach_stale [of ?bind ?build 0] st T 3 5 show ?thesis by blast
qed

subsection \<open>Its own updates\<close>

text \<open>
  C15. The server does not keep itself busy. Let \<open>svc\<close> be a service whose status the loop updates
  after a round, and let the update come back from the API server with a new resource version,
  while the cached object is still the one the round has left. Then the notification leaves the
  channel as it is, and the loop, the balancer and what the caches hold for it stay the same: a
  server at rest stays at rest.
\<close>

theorem status_update_silent:
  assumes "sreach P bind build lb s0" "sstep bind build s0 ListAndFilter s1" "sv_loop s1 = Listed filtered needsUpdate"
    and "svc \<in> set needsUpdate" "sv_svcs s (service_key svc) = sv_svcs s1 (service_key svc)"
    and "sstep bind build s (SvcUpdate old (svc\<lparr>svcResourceVersion := rv\<rparr>)) t" "sstep bind build t SvcNotify u"
  shows "sv_chan u = sv_chan s \<and> sv_loop u = sv_loop s \<and> sv_built u = sv_built s \<and> sv_lb u = sv_lb s \<and>
    lb_views (sv_svcs u) = lb_views (sv_svcs s) \<and> (quiescent u \<longleftrightarrow> quiescent s)"
proof -
  let ?new = "svc\<lparr>svcResourceVersion := rv\<rparr>"
  let ?note = "OnUpdate (ObjService old) (ObjService ?new)"
  have key: "service_key ?new = service_key svc" by (simp add: service_key_def)
  from assms(6) have 1: "sv_svcs s (service_key svc) = Some old" "sv_svc_note s = None"
    "t = s\<lparr>sv_svcs := (sv_svcs s)(service_key svc \<mapsto> ?new), sv_svc_note := Some ?note\<rparr>"
    by (auto elim: sstepE simp: key)
  from assms(2,3) obtain svcs objs where 2: "enumerates (sv_svcs s0) svcs"
      "server_filter bind svcs = (filtered, needsUpdate, objs)"
      "\<forall>k. sv_svcs s1 k = sv_svcs s0 k \<or> sv_svcs s1 k = map_option (mark_svc bind) (sv_svcs s0 k)"
    by (auto elim!: sstepE)
  obtain svc0 where 3: "svc0 \<in> ran (sv_svcs s0)" "svc = add_ingress bind svc0"
    using assms(4) 2(1,2) by (auto simp: filter_spec enumerates_def)
  have "service_key svc = service_key svc0" by (simp add: 3(2) service_key_def add_ingress_def)
  moreover have "sv_svcs s0 (service_key svc0) = Some svc0"
    using sreach_wf [OF assms(1)] 3(1) by (auto simp: server_wf_def cache_wf_def ran_def)
  ultimately have "old = svc0 \<or> old = mark_svc bind svc0"
    using 1(1) assms(5) 2(3) [THEN spec, of "service_key svc0"] by auto
  then have same: "comparable old = comparable ?new"
    by (auto simp: comparable_view 3(2)) (simp_all add: svc_view_def add_ingress_def)
  have silent: "(case deliver service_handlers ?note of None \<Rightarrow> ch | Some c \<Rightarrow> handle_service c ch) = ch" for ch
    using same by (simp add: service_handlers_def serviceUpdateEventHandler_def skipServiceUpdate_def)
  from assms(7) 1(3) have u: "u = t\<lparr>sv_svc_note := None, sv_chan := sv_chan t\<rparr>"
    by (auto elim!: sstepE simp del: deliver.simps simp: silent)
  have "lb_content ((sv_svcs s)(service_key svc \<mapsto> ?new)) = lb_content (sv_svcs s)"
    by (rule lb_content_update [of "sv_svcs s" "service_key svc" old ?new]) (simp_all add: 1(1) comparable_lb [OF same] same)
  then show ?thesis using 1(2,3) u by (auto simp: quiescent_def dest: lb_views_cong)
qed

theorem status_update_silent_witness:
  "\<exists>s t u. quiescent s \<and> sv_lb s = (1 :: nat) \<and>
     sstep ''10.0.0.1'' (\<lambda>fs es n. n + 1) s
       (SvcUpdate (mark_svc ''10.0.0.1'' some_svc) ((mark_svc ''10.0.0.1'' some_svc)\<lparr>svcResourceVersion := ''2''\<rparr>)) t \<and>
     sstep ''10.0.0.1'' (\<lambda>fs es n. n + 1) t SvcNotify u \<and> quiescent u \<and> sv_lb u = 1"
proof -
  let ?b = "\<lambda>fs es n. n + (1 :: nat)" and ?svc = "mark_svc ''10.0.0.1'' some_svc"
  let ?new = "?svc\<lparr>svcResourceVersion := ''2''\<rparr>"
  let ?s = "built_server ''10.0.0.1'' ?b some_svc some_ep 0"
  let ?note = "OnUpdate (ObjService ?svc) (ObjService ?new)"
  let ?t = "?s\<lparr>sv_svcs := (sv_svcs ?s)(service_key ?new \<mapsto> ?new), sv_svc_note := Some ?note\<rparr>"
  have lb: "is_lb some_svc" "\<not> has_ingress ''10.0.0.1'' some_svc"
    by (simp_all add: is_lb_def has_ingress_def some_svc_def ServiceTypeLoadBalancer_def)
  have r: "sreach (\<lambda>_. True) ''10.0.0.1'' ?b 0 (woken_server some_svc some_ep 0)" by (rule reach_woken) simp_all
  note l = woken_lists [OF lb(1), of "''10.0.0.1''" ?b some_ep 0]
  have key: "service_key ?new = service_key some_svc" "service_key ?svc = service_key some_svc"
    using service_key_mark [of "''10.0.0.1''" some_svc] by (simp_all add: service_key_def)
  have 1: "sstep ''10.0.0.1'' ?b ?s (SvcUpdate ?svc ?new) ?t"
    by (rule sstep.svc_update) (simp_all add: built_server_def key)
  obtain u where 2: "sstep ''10.0.0.1'' ?b ?t SvcNotify u"
    using sstep.svc_notify [of ?t ?note "''10.0.0.1''" ?b] by auto
  have "sv_lb ?s = 1" by (simp add: built_server_def)
  with status_update_silent [OF r l _ _ _ 1 2, of "[?svc]" "[?svc]"] built_quiescent [of "''10.0.0.1''" ?b some_svc some_ep 0]
  have "quiescent u" "sv_lb u = 1" by (simp_all add: lb(2) built_server_def key)
  with 1 2 \<open>sv_lb ?s = 1\<close> built_quiescent show ?thesis by (intro exI [of _ ?s] exI [of _ ?t] exI [of _ u] conjI)
qed

end
