(* ===== verification/NetIP.thy ===== *)
theory NetIP
  imports Prelude
begin

text \<open>
  The part of Go's package \<open>net\<close> the sources use: \<open>net.IP\<close> as a byte slice (\<open>nil\<close> is the
  empty list), \<open>To4\<close>, \<open>Equal\<close>, \<open>String\<close>, \<open>ParseIP\<close>, \<open>ParseCIDR\<close> and \<open>JoinHostPort\<close>, as the
  standard library of the code's time (Go 1.9) has them. The lemmas show that \<open>Equal\<close> is
  equality of the 16 byte forms, that \<open>String\<close> depends on that form only, and that parsing
  the text of an IPv4 address gives the address back.
\<close>

type_synonym IP = "u8 list"

definition v4InV6Prefix :: "u8 list" where
  "v4InV6Prefix = replicate 10 0 @ [255, 255]"

definition IPv4 :: "u8 \<Rightarrow> u8 \<Rightarrow> u8 \<Rightarrow> u8 \<Rightarrow> IP" where
  "IPv4 a b c d = v4InV6Prefix @ [a, b, c, d]"

definition IPv4zero :: IP where "IPv4zero = IPv4 0 0 0 0"
definition IPv6zero :: IP where "IPv6zero = replicate 16 0"

definition To4 :: "IP \<Rightarrow> IP" where
  "To4 ip = (if length ip = 4 then ip
             else if length ip = 16 \<and> take 12 ip = v4InV6Prefix then drop 12 ip
             else [])"

definition IP_Equal :: "IP \<Rightarrow> IP \<Rightarrow> bool" where
  "IP_Equal ip x =
     (if length ip = length x then ip = x
      else if length ip = 4 \<and> length x = 16 then take 12 x = v4InV6Prefix \<and> ip = drop 12 x
      else if length ip = 16 \<and> length x = 4 then take 12 ip = v4InV6Prefix \<and> drop 12 ip = x
      else False)"

subsection \<open>Printing\<close>

fun show_hex :: "nat \<Rightarrow> string" where
  "show_hex n = (let d = (\<lambda>k. if k < 10 then char_of (48 + k) else char_of (87 + k)) in
     if n < 16 then [d n] else show_hex (n div 16) @ [d (n mod 16)])"

declare show_hex.simps [simp del]

definition hex2 :: "u8 \<Rightarrow> string" where
  "hex2 b = show_hex (unat b div 16) @ show_hex (unat b mod 16)"

fun groups :: "u8 list \<Rightarrow> nat list" where
  "groups (a # b # bs) = (256 * unat a + unat b) # groups bs"
| "groups _ = []"

text \<open>The first longest run of zero groups, if it has at least two of them.\<close>

definition zero_run :: "nat list \<Rightarrow> nat \<Rightarrow> nat" where
  "zero_run gs i = length (takeWhile (\<lambda>g. g = 0) (drop i gs))"

definition best_run :: "nat list \<Rightarrow> nat \<times> nat" where
  "best_run gs =
     (let (e0, n) = fold (\<lambda>i (e0, n). if zero_run gs i > n then (i, zero_run gs i) else (e0, n))
                      [0..<length gs] (0, 0)
      in if n \<le> 1 then (length gs, 0) else (e0, n))"

definition show_v6 :: "nat list \<Rightarrow> string" where
  "show_v6 gs =
     (let (e0, n) = best_run gs in
      if n = 0 then Join (map show_hex gs) '':''
      else Join (map show_hex (take e0 gs)) '':'' @ ''::'' @ Join (map show_hex (drop (e0 + n) gs)) '':'')"

definition show_v4 :: "u8 list \<Rightarrow> string" where
  "show_v4 p = Join (map (\<lambda>b. show_nat (unat b)) p) ''.''"

definition IP_String :: "IP \<Rightarrow> string" where
  "IP_String ip =
     (if ip = [] then ''<nil>''
      else if length (To4 ip) = 4 then show_v4 (To4 ip)
      else if length ip \<noteq> 16 then ''?'' @ concat (map hex2 ip)
      else show_v6 (groups ip))"

definition JoinHostPort :: "string \<Rightarrow> string \<Rightarrow> string" where
  "JoinHostPort host port =
     (if CHR '':'' \<in> set host \<or> CHR ''%'' \<in> set host then ''['' @ host @ '']:'' @ port
      else host @ '':'' @ port)"

subsection \<open>Parsing\<close>

definition big :: nat where "big = 0xFFFFFF"

text \<open>\<open>dtoi\<close> and \<open>xtoi\<close>: the leading number and what follows it.\<close>

definition dtoi :: "string \<Rightarrow> (nat \<times> string) option" where
  "dtoi s = (let ds = takeWhile is_digit s; n = val_digits 0 ds in
     if ds = [] \<or> n \<ge> big then None else Some (n, dropWhile is_digit s))"

definition hex_val :: "char \<Rightarrow> nat option" where
  "hex_val c = (let k = (of_char c :: nat) in
     if 48 \<le> k \<and> k \<le> 57 then Some (k - 48)
     else if 97 \<le> k \<and> k \<le> 102 then Some (k - 87)
     else if 65 \<le> k \<and> k \<le> 70 then Some (k - 55) else None)"

definition is_hex :: "char \<Rightarrow> bool" where
  "is_hex c \<longleftrightarrow> hex_val c \<noteq> None"

definition xtoi :: "string \<Rightarrow> (nat \<times> string) option" where
  "xtoi s = (let ds = takeWhile is_hex s; n = foldl (\<lambda>a c. 16 * a + the (hex_val c)) 0 ds in
     if ds = [] \<or> n \<ge> big then None else Some (n, dropWhile is_hex s))"

fun parse_v4_bytes :: "nat \<Rightarrow> bool \<Rightarrow> string \<Rightarrow> (u8 list \<times> string) option" where
  "parse_v4_bytes 0 dot s = Some ([], s)"
| "parse_v4_bytes (Suc k) dot s =
     (if s = [] \<or> (dot \<and> hd s \<noteq> CHR ''.'') then None
      else case dtoi (if dot then tl s else s) of
             None \<Rightarrow> None
           | Some (n, s') \<Rightarrow>
               if n > 255 then None
               else map_option (\<lambda>(bs, r). (of_nat n # bs, r)) (parse_v4_bytes k True s'))"

definition parseIPv4 :: "string \<Rightarrow> IP" where
  "parseIPv4 s =
     (case parse_v4_bytes 4 False s of
        Some (bs, []) \<Rightarrow> v4InV6Prefix @ bs
      | _ \<Rightarrow> [])"

text \<open>
  The loop of \<open>parseIPv6\<close>: \<open>k\<close> groups still fit, \<open>acc\<close> holds the bytes read, \<open>ell\<close> the
  position of the ellipsis. It returns the unread text, the bytes and the ellipsis.
\<close>

fun parse_v6_loop :: "nat \<Rightarrow> string \<Rightarrow> u8 list \<Rightarrow> nat option \<Rightarrow> (string \<times> u8 list \<times> nat option) option" where
  "parse_v6_loop 0 s acc ell = Some (s, acc, ell)"
| "parse_v6_loop (Suc k) s acc ell =
     (case xtoi s of
        None \<Rightarrow> None
      | Some (n, s') \<Rightarrow>
          if n > 0xFFFF then None
          else if s' \<noteq> [] \<and> hd s' = CHR ''.'' then
            (if (ell = None \<and> length acc \<noteq> 12) \<or> length acc + 4 > 16 then None
             else case parseIPv4 s of
                    [] \<Rightarrow> None
                  | ip4 \<Rightarrow> Some ([], acc @ drop 12 ip4, ell))
          else let acc' = acc @ [of_nat (n div 256), of_nat (n mod 256)] in
            if s' = [] then Some ([], acc', ell)
            else if hd s' \<noteq> CHR '':'' \<or> length s' = 1 then None
            else if hd (tl s') = CHR '':'' then
              (if ell \<noteq> None then None
               else if tl (tl s') = [] then Some ([], acc', Some (length acc'))
               else parse_v6_loop k (tl (tl s')) acc' (Some (length acc')))
            else parse_v6_loop k (tl s') acc' ell)"

definition parseIPv6 :: "string \<Rightarrow> IP" where
  "parseIPv6 s =
     (let lead = (take 2 s = ''::''); s1 = (if lead then drop 2 s else s) in
      if lead \<and> s1 = [] then replicate 16 0
      else case parse_v6_loop 8 s1 [] (if lead then Some 0 else None) of
             None \<Rightarrow> []
           | Some (r, bs, ell) \<Rightarrow>
               if r \<noteq> [] then []
               else if length bs < 16 then
                 (case ell of None \<Rightarrow> []
                  | Some e \<Rightarrow> take e bs @ replicate (16 - length bs) 0 @ drop e bs)
               else if ell \<noteq> None then [] else bs)"

fun ParseIP_scan :: "string \<Rightarrow> string \<Rightarrow> IP" where
  "ParseIP_scan s [] = []"
| "ParseIP_scan s (c # cs) =
     (if c = CHR ''.'' then parseIPv4 s
      else if c = CHR '':'' then parseIPv6 s
      else ParseIP_scan s cs)"

definition ParseIP :: "string \<Rightarrow> IP" where
  "ParseIP s = ParseIP_scan s s"

text \<open>\<open>net.ParseCIDR\<close>, of which the sources use only whether it succeeds.\<close>

definition ParseCIDR_ok :: "string \<Rightarrow> bool" where
  "ParseCIDR_ok s =
     (case IndexOf s ''/'' of
        None \<Rightarrow> False
      | Some i \<Rightarrow>
          let addr = take i s; mask = drop (Suc i) s;
              v4 = parseIPv4 addr; ip = (if v4 \<noteq> [] then v4 else parseIPv6 addr);
              iplen = (if v4 \<noteq> [] then 4 else 16)
          in ip \<noteq> [] \<and>
             (case dtoi mask of Some (n, []) \<Rightarrow> n \<le> 8 * iplen | _ \<Rightarrow> False))"

subsection \<open>Lemmas\<close>

text \<open>The 16 byte form that identifies an address.\<close>

definition canonIP :: "IP \<Rightarrow> IP" where
  "canonIP ip = (if length ip = 4 then v4InV6Prefix @ ip else ip)"

lemma length_prefix [simp]: "length v4InV6Prefix = 12"
  by (simp add: v4InV6Prefix_def)

lemma prefix_append_iff:
  "v4InV6Prefix @ a = b \<longleftrightarrow> take 12 b = v4InV6Prefix \<and> a = drop 12 b"
  by (metis append_eq_conv_conj append_take_drop_id length_prefix)

lemma IP_Equal_canon: "IP_Equal ip x \<longleftrightarrow> canonIP ip = canonIP x"
proof (cases "length ip = 4"; cases "length x = 4")
  assume "length ip = 4" "length x = 4"
  then show ?thesis by (simp add: IP_Equal_def canonIP_def)
next
  assume 4: "length ip = 4" and "length x \<noteq> 4"
  then have "canonIP ip = canonIP x \<longleftrightarrow> length x = 16 \<and> take 12 x = v4InV6Prefix \<and> ip = drop 12 x"
    by (auto simp: canonIP_def prefix_append_iff)
  then show ?thesis using 4 \<open>length x \<noteq> 4\<close> by (auto simp: IP_Equal_def)
next
  assume "length ip \<noteq> 4" and 4: "length x = 4"
  then have "canonIP ip = canonIP x \<longleftrightarrow> v4InV6Prefix @ x = ip"
    by (auto simp: canonIP_def)
  also have "\<dots> \<longleftrightarrow> length ip = 16 \<and> take 12 ip = v4InV6Prefix \<and> drop 12 ip = x"
    using 4 by (auto simp: prefix_append_iff)
  finally show ?thesis using 4 \<open>length ip \<noteq> 4\<close> by (auto simp: IP_Equal_def)
next
  assume "length ip \<noteq> 4" "length x \<noteq> 4"
  then show ?thesis by (auto simp: IP_Equal_def canonIP_def)
qed

lemma To4_canon: "length (To4 ip) = 4 \<Longrightarrow> canonIP ip = v4InV6Prefix @ To4 ip"
  by (auto simp: To4_def canonIP_def split: if_splits) (metis append_take_drop_id)

lemma IP_String_canon: "IP_String (canonIP ip) = IP_String ip"
  by (auto simp: IP_String_def canonIP_def To4_def)

lemma IP_Equal_String: "IP_Equal ip x \<Longrightarrow> IP_String ip = IP_String x"
  by (metis IP_Equal_canon IP_String_canon)

lemma takeWhile_digits_sep:
  "list_all is_digit ds \<Longrightarrow> \<not> is_digit c \<Longrightarrow> takeWhile is_digit (ds @ c # r) = ds"
  "list_all is_digit ds \<Longrightarrow> \<not> is_digit c \<Longrightarrow> dropWhile is_digit (ds @ c # r) = c # r"
  by (induction ds) auto

lemma takeWhile_digits_end:
  "list_all is_digit ds \<Longrightarrow> takeWhile is_digit ds = ds"
  "list_all is_digit ds \<Longrightarrow> dropWhile is_digit ds = []"
  by (induction ds) auto

lemma unat_u8_less: "unat (b :: u8) < 256"
  using unsigned_less [of b] by simp

lemma dtoi_show_byte [simp]:
  "dtoi (show_nat (unat (b :: u8)) @ CHR ''.'' # r) = Some (unat b, CHR ''.'' # r)"
  "dtoi (show_nat (unat b)) = Some (unat b, [])"
  using unat_u8_less [of b] show_nat_digits [of "unat b"]
  by (simp_all add: dtoi_def takeWhile_digits_sep takeWhile_digits_end big_def)

lemma byte_le [simp]: "\<not> 255 < unat (b :: u8)"
  using unat_u8_less [of b] by simp

lemma parse_v4_bytes_4:
  "parse_v4_bytes 4 dot s = parse_v4_bytes (Suc (Suc (Suc (Suc 0)))) dot s"
  by (simp only: eval_nat_numeral BitM.simps numeral_One)

declare ParseIP_def [go_eval] parseIPv4_def [go_eval] parse_v4_bytes_4 [go_eval] IPv4_def [go_eval]
  dtoi_def [go_eval] big_def [go_eval] IP_String_def [go_eval] show_v4_def [go_eval] To4_def [go_eval]
  v4InV6Prefix_def [go_eval] IP_Equal_def [go_eval] JoinHostPort_def [go_eval]

lemma parseIPv4_show: "parseIPv4 (show_v4 [a, b, c, d]) = IPv4 a b c d"
  by (simp add: parseIPv4_def show_v4_def parse_v4_bytes_4 IPv4_def)

lemma ParseIP_scan_v4:
  "list_all is_digit ds \<Longrightarrow> ParseIP_scan s (ds @ CHR ''.'' # r) = parseIPv4 s"
  by (induction ds) (auto simp: is_digit_iff)

lemma ParseIP_IP_String_v4:
  assumes "length (To4 ip) = 4"
  shows "ParseIP (IP_String ip) = canonIP ip"
proof -
  obtain a b c d where p: "To4 ip = [a, b, c, d]"
    using assms by (auto simp: length_Suc_conv eval_nat_numeral)
  then have "IP_String ip = show_v4 [a, b, c, d]"
    using assms by (auto simp: IP_String_def To4_def)
  moreover have "ParseIP (show_v4 [a, b, c, d]) = parseIPv4 (show_v4 [a, b, c, d])"
    by (simp add: ParseIP_def show_v4_def ParseIP_scan_v4)
  ultimately show ?thesis
    using p assms by (simp add: parseIPv4_show To4_canon IPv4_def)
qed

lemma IP_String_v4_inj:
  "length (To4 ip) = 4 \<Longrightarrow> length (To4 x) = 4 \<Longrightarrow> IP_String ip = IP_String x \<Longrightarrow> IP_Equal ip x"
  by (metis IP_Equal_canon ParseIP_IP_String_v4)

end
