(* ===== verification/LvsContract.thy ===== *)
theory LvsContract
  imports Lvs
begin

text \<open>
  What the lvs \<open>Interface\<close> promises its client (\<open>lvs_contract\<close>, \<open>lvs_reliable\<close>), what an ipvs
  kernel promises the runner (\<open>ipvs_kernel\<close>, \<open>ipvs_kernel_reliable\<close>), and that the runner of
  \<^verbatim>\<open>lvs/lvs.go\<close> turns one into the other. The abstract state is a table: from a virtual server
  (address, protocol number, port) to the set of its real servers (address text, port), the
  identity the adaptor itself compares. An operation that fails leaves the table as it is.
\<close>

subsection \<open>Identities\<close>

type_synonym vs_id = "IP \<times> u16 \<times> u16"
type_synonym rs_id = "string \<times> u16"
type_synonym lvs_table = "vs_id \<Rightarrow> rs_id set option"

definition vs_key :: "VirtualServer \<Rightarrow> vs_id" where
  "vs_key vs = (canonIP (vsAddress vs), stringToProtocolNumber (vsProtocol vs), vsPort vs)"

definition rs_key :: "RealServer \<Rightarrow> rs_id" where
  "rs_key rs = (IP_String (rsAddress rs), rsPort rs)"

definition svc_key :: "ipvs_Service \<Rightarrow> vs_id" where
  "svc_key s = (canonIP (isAddress s), isProtocol s, isPort s)"

definition dst_key :: "ipvs_Destination \<Rightarrow> rs_id" where
  "dst_key d = (IP_String (idAddress d), idPort d)"

definition known_proto :: "VirtualServer \<Rightarrow> bool" where
  "known_proto vs \<longleftrightarrow> vsProtocol vs = ''TCP'' \<or> vsProtocol vs = ''UDP''"

definition ip_valid :: "IP \<Rightarrow> bool" where
  "ip_valid ip \<longleftrightarrow> length ip = 4 \<or> length ip = 16"

definition vs_valid :: "VirtualServer \<Rightarrow> bool" where
  "vs_valid vs \<longleftrightarrow> known_proto vs \<and> ip_valid (vsAddress vs) \<and> vsPort vs \<noteq> 0 \<and> vsScheduler vs = RoundRobin"

definition rs_valid :: "RealServer \<Rightarrow> bool" where
  "rs_valid rs \<longleftrightarrow> ip_valid (rsAddress rs) \<and> rsPort rs \<noteq> 0 \<and> 0 \<le> rsWeight rs"

definition svc_listed :: "ipvs_Service \<Rightarrow> bool" where
  "svc_listed s \<longleftrightarrow> isAddress s \<noteq> [] \<and> isFlags s AND FlagHashed \<noteq> 0 \<and>
     (isProtocol s = IPPROTO_TCP \<or> isProtocol s = IPPROTO_UDP)"

subsection \<open>Conversions keep the identities\<close>

lemma protocol_numbers [simp]:
  "stringToProtocolNumber ''TCP'' = IPPROTO_TCP" "stringToProtocolNumber ''UDP'' = IPPROTO_UDP"
  "protocolNumbeToString IPPROTO_TCP = ''TCP''" "protocolNumbeToString IPPROTO_UDP = ''UDP''"
  "IPPROTO_TCP \<noteq> IPPROTO_UDP" "IPPROTO_UDP \<noteq> IPPROTO_TCP" "IPPROTO_TCP \<noteq> 0" "IPPROTO_UDP \<noteq> 0"
  by (simp_all add: stringToProtocolNumber_def protocolNumbeToString_def IPPROTO_TCP_def
      IPPROTO_UDP_def go_eval)

lemma known_proto_number:
  "known_proto vs \<Longrightarrow> stringToProtocolNumber (vsProtocol vs) = (if vsProtocol vs = ''UDP'' then IPPROTO_UDP else IPPROTO_TCP)"
  by (auto simp: known_proto_def)

lemma toBackendService_Some:
  "\<exists>b. toBackendService (Some vs) = Inr b \<and> svc_key b = vs_key vs \<and> isFlags b = vsFlags vs \<and>
     isSchedName b = vsScheduler vs \<and> isTimeout b = vsTimeout vs"
  by (auto simp: toBackendService_def svc_key_def vs_key_def Let_def)

lemma toBackendDestination_Some:
  "\<exists>b. toBackendDestination (Some rs) = Inr b \<and> dst_key b = rs_key rs \<and> idWeight b = rsWeight rs \<and>
     idAddress b = rsAddress rs"
  by (auto simp: toBackendDestination_def dst_key_def rs_key_def)

lemma toVirtualServer_listed:
  assumes "svc_listed s"
  shows "\<exists>vs. toVirtualServer (Some s) = Inr vs \<and> vs_key vs = svc_key s \<and> known_proto vs"
  using assms
  by (auto simp: toVirtualServer_def svc_listed_def svc_key_def vs_key_def known_proto_def Let_def)

lemma toVirtualServers_listed:
  "list_all svc_listed ss \<Longrightarrow>
     \<exists>vss. toVirtualServers ss = Inr vss \<and> map vs_key vss = map svc_key ss \<and> list_all known_proto vss"
proof (induction ss)
  case (Cons s ss)
  then obtain vss where "toVirtualServers ss = Inr vss" "map vs_key vss = map svc_key ss"
      "list_all known_proto vss" by auto
  moreover obtain vs where "toVirtualServer (Some s) = Inr vs" "vs_key vs = svc_key s" "known_proto vs"
    using toVirtualServer_listed [of s] Cons.prems by auto
  ultimately show ?case by simp
qed simp

lemma toRealServers_keys: "\<exists>rss. toRealServers ds = Inr rss \<and> map rs_key rss = map dst_key ds"
proof (induction ds)
  case (Cons d ds)
  then show ?case by (auto simp: toRealServer_def rs_key_def dst_key_def)
qed simp

subsection \<open>The client's contract\<close>

locale lvs_contract =
  fixes L :: "'l lvs_Interface" and inv :: "'l \<Rightarrow> bool" and tab :: "'l \<Rightarrow> lvs_table"
  assumes list_vs: "inv s \<Longrightarrow> GetVirtualServers L s = (r, s') \<Longrightarrow>
      inv s' \<and> tab s' = tab s \<and>
      (\<forall>vss. r = Inr vss \<longrightarrow> distinct (map vs_key vss) \<and> vs_key ` set vss = dom (tab s) \<and>
         list_all known_proto vss)"
    and add_vs: "inv s \<Longrightarrow> known_proto vs \<Longrightarrow> AddVirtualServer L (Some vs) s = (e, s') \<Longrightarrow>
      inv s' \<and> (e = None \<longrightarrow> vs_key vs \<notin> dom (tab s)) \<and>
      tab s' = (if e = None then (tab s)(vs_key vs \<mapsto> {}) else tab s)"
    and del_vs: "inv s \<Longrightarrow> vs_key vs \<in> dom (tab s) \<Longrightarrow> DeleteVirtualServer L (Some vs) s = (e, s') \<Longrightarrow>
      inv s' \<and> tab s' = (if e = None then (tab s)(vs_key vs := None) else tab s)"
    and list_rs: "inv s \<Longrightarrow> tab s (vs_key vs) = Some R \<Longrightarrow> GetRealServers L (Some vs) s = (q, s') \<Longrightarrow>
      inv s' \<and> tab s' = tab s \<and>
      (\<forall>rss. q = Inr rss \<longrightarrow> distinct (map rs_key rss) \<and> rs_key ` set rss = R)"
    and add_rs: "inv s \<Longrightarrow> tab s (vs_key vs) = Some R \<Longrightarrow> rs_key rs \<notin> R \<Longrightarrow>
      AddRealServer L (Some vs) (Some rs) s = (e, s') \<Longrightarrow>
      inv s' \<and> tab s' = (if e = None then (tab s)(vs_key vs \<mapsto> insert (rs_key rs) R) else tab s)"
    and del_rs: "inv s \<Longrightarrow> tab s (vs_key vs) = Some R \<Longrightarrow> rs_key rs \<in> R \<Longrightarrow>
      DeleteRealServer L (Some vs) (Some rs) s = (e, s') \<Longrightarrow>
      inv s' \<and> tab s' = (if e = None then (tab s)(vs_key vs \<mapsto> R - {rs_key rs}) else tab s)"

locale lvs_reliable = lvs_contract +
  assumes list_vs_ok: "inv s \<Longrightarrow> \<exists>vss. fst (GetVirtualServers L s) = Inr vss"
    and add_vs_ok: "inv s \<Longrightarrow> vs_valid vs \<Longrightarrow> vs_key vs \<notin> dom (tab s) \<Longrightarrow>
      fst (AddVirtualServer L (Some vs) s) = None"
    and del_vs_ok: "inv s \<Longrightarrow> vs_key vs \<in> dom (tab s) \<Longrightarrow> fst (DeleteVirtualServer L (Some vs) s) = None"
    and list_rs_ok: "inv s \<Longrightarrow> vs_key vs \<in> dom (tab s) \<Longrightarrow> \<exists>rss. fst (GetRealServers L (Some vs) s) = Inr rss"
    and add_rs_ok: "inv s \<Longrightarrow> rs_valid rs \<Longrightarrow> tab s (vs_key vs) = Some R \<Longrightarrow> rs_key rs \<notin> R \<Longrightarrow>
      fst (AddRealServer L (Some vs) (Some rs) s) = None"
    and del_rs_ok: "inv s \<Longrightarrow> tab s (vs_key vs) = Some R \<Longrightarrow> rs_key rs \<in> R \<Longrightarrow>
      fst (DeleteRealServer L (Some vs) (Some rs) s) = None"

subsection \<open>What the kernel promises the runner\<close>

definition svc_valid :: "ipvs_Service \<Rightarrow> bool" where
  "svc_valid s \<longleftrightarrow> (isProtocol s = IPPROTO_TCP \<or> isProtocol s = IPPROTO_UDP) \<and>
     ip_valid (isAddress s) \<and> isPort s \<noteq> 0 \<and> isSchedName s = RoundRobin"

definition dst_valid :: "ipvs_Destination \<Rightarrow> bool" where
  "dst_valid d \<longleftrightarrow> ip_valid (idAddress d) \<and> idPort d \<noteq> 0 \<and> 0 \<le> idWeight d"

locale ipvs_kernel =
  fixes h :: "'k ipvs_Handle" and kinv :: "'k \<Rightarrow> bool" and ktab :: "'k \<Rightarrow> lvs_table"
  assumes get_services: "kinv k \<Longrightarrow> GetServices h k = (r, k') \<Longrightarrow>
      kinv k' \<and> ktab k' = ktab k \<and>
      (\<forall>ss. r = Inr ss \<longrightarrow> distinct (map svc_key ss) \<and> svc_key ` set ss = dom (ktab k) \<and>
         list_all svc_listed ss)"
    and new_service: "kinv k \<Longrightarrow> isProtocol s = IPPROTO_TCP \<or> isProtocol s = IPPROTO_UDP \<Longrightarrow>
      NewService h s k = (e, k') \<Longrightarrow>
      kinv k' \<and> (e = None \<longrightarrow> svc_key s \<notin> dom (ktab k)) \<and>
      ktab k' = (if e = None then (ktab k)(svc_key s \<mapsto> {}) else ktab k)"
    and del_service: "kinv k \<Longrightarrow> svc_key s \<in> dom (ktab k) \<Longrightarrow> DelService h s k = (e, k') \<Longrightarrow>
      kinv k' \<and> ktab k' = (if e = None then (ktab k)(svc_key s := None) else ktab k)"
    and get_destinations: "kinv k \<Longrightarrow> ktab k (svc_key s) = Some R \<Longrightarrow> GetDestinations h s k = (q, k') \<Longrightarrow>
      kinv k' \<and> ktab k' = ktab k \<and>
      (\<forall>ds. q = Inr ds \<longrightarrow> distinct (map dst_key ds) \<and> dst_key ` set ds = R)"
    and new_destination: "kinv k \<Longrightarrow> ktab k (svc_key s) = Some R \<Longrightarrow> dst_key d \<notin> R \<Longrightarrow>
      NewDestination h s d k = (e, k') \<Longrightarrow>
      kinv k' \<and> ktab k' = (if e = None then (ktab k)(svc_key s \<mapsto> insert (dst_key d) R) else ktab k)"
    and del_destination: "kinv k \<Longrightarrow> ktab k (svc_key s) = Some R \<Longrightarrow> dst_key d \<in> R \<Longrightarrow>
      DelDestination h s d k = (e, k') \<Longrightarrow>
      kinv k' \<and> ktab k' = (if e = None then (ktab k)(svc_key s \<mapsto> R - {dst_key d}) else ktab k)"

locale ipvs_kernel_reliable = ipvs_kernel +
  assumes get_services_ok: "kinv k \<Longrightarrow> \<exists>ss. fst (GetServices h k) = Inr ss"
    and new_service_ok: "kinv k \<Longrightarrow> svc_valid s \<Longrightarrow> svc_key s \<notin> dom (ktab k) \<Longrightarrow> fst (NewService h s k) = None"
    and del_service_ok: "kinv k \<Longrightarrow> svc_key s \<in> dom (ktab k) \<Longrightarrow> fst (DelService h s k) = None"
    and get_destinations_ok: "kinv k \<Longrightarrow> svc_key s \<in> dom (ktab k) \<Longrightarrow> \<exists>ds. fst (GetDestinations h s k) = Inr ds"
    and new_destination_ok: "kinv k \<Longrightarrow> dst_valid d \<Longrightarrow> ktab k (svc_key s) = Some R \<Longrightarrow> dst_key d \<notin> R \<Longrightarrow>
      fst (NewDestination h s d k) = None"
    and del_destination_ok: "kinv k \<Longrightarrow> ktab k (svc_key s) = Some R \<Longrightarrow> dst_key d \<in> R \<Longrightarrow>
      fst (DelDestination h s d k) = None"

subsection \<open>The runner meets the client's contract\<close>

lemmas runner_defs = lvs_runner_def runner_AddVirtualServer_def runner_DeleteVirtualServer_def
  runner_GetVirtualServers_def runner_AddRealServer_def runner_DeleteRealServer_def
  runner_GetRealServers_def

lemma known_proto_backend:
  "toBackendService (Some vs) = Inr b \<Longrightarrow> known_proto vs \<Longrightarrow>
     isProtocol b = IPPROTO_TCP \<or> isProtocol b = IPPROTO_UDP"
  by (auto simp: toBackendService_def known_proto_def Let_def split: if_splits)

lemma vs_valid_backend: "toBackendService (Some vs) = Inr b \<Longrightarrow> vs_valid vs \<Longrightarrow> svc_valid b"
  by (auto simp: toBackendService_def vs_valid_def svc_valid_def known_proto_def Let_def split: if_splits)

lemma rs_valid_backend: "toBackendDestination (Some rs) = Inr b \<Longrightarrow> rs_valid rs \<Longrightarrow> dst_valid b"
  by (auto simp: toBackendDestination_def rs_valid_def dst_valid_def)

sublocale ipvs_kernel \<subseteq> lvs_contract "lvs_runner h" kinv ktab
proof
  fix s r s'
  assume *: "kinv s" "GetVirtualServers (lvs_runner h) s = (r, s')"
  obtain q k where q: "GetServices h s = (q, k)" by force
  note law = get_services [OF *(1) q]
  show "kinv s' \<and> ktab s' = ktab s \<and>
      (\<forall>vss. r = Inr vss \<longrightarrow> distinct (map vs_key vss) \<and> vs_key ` set vss = dom (ktab s) \<and>
         list_all known_proto vss)"
  proof (cases q)
    case (Inl err)
    then show ?thesis using * q law by (auto simp: runner_defs)
  next
    case (Inr ss)
    then obtain vss where "toVirtualServers ss = Inr vss" and keys: "map vs_key vss = map svc_key ss"
        and "list_all known_proto vss"
      using law toVirtualServers_listed [of ss] by auto
    moreover have "vs_key ` set vss = svc_key ` set ss" using keys by (metis list.set_map)
    ultimately show ?thesis using * q law Inr by (auto simp: runner_defs)
  qed
next
  fix s vs e s'
  assume *: "kinv s" "known_proto vs" "AddVirtualServer (lvs_runner h) (Some vs) s = (e, s')"
  obtain b where b: "toBackendService (Some vs) = Inr b" "svc_key b = vs_key vs"
    using toBackendService_Some by blast
  then show "kinv s' \<and> (e = None \<longrightarrow> vs_key vs \<notin> dom (ktab s)) \<and>
      ktab s' = (if e = None then (ktab s)(vs_key vs \<mapsto> {}) else ktab s)"
    using new_service [OF *(1) known_proto_backend [OF b(1) *(2)], of e s'] *(3)
    by (simp add: runner_defs)
next
  fix s vs e s'
  assume *: "kinv s" "vs_key vs \<in> dom (ktab s)" "DeleteVirtualServer (lvs_runner h) (Some vs) s = (e, s')"
  obtain b where b: "toBackendService (Some vs) = Inr b" "svc_key b = vs_key vs"
    using toBackendService_Some by blast
  then show "kinv s' \<and> ktab s' = (if e = None then (ktab s)(vs_key vs := None) else ktab s)"
    using del_service [OF *(1), of b e s'] *(2,3) by (simp add: runner_defs)
next
  fix s vs R r s'
  assume *: "kinv s" "ktab s (vs_key vs) = Some R" "GetRealServers (lvs_runner h) (Some vs) s = (r, s')"
  obtain b where b: "toBackendService (Some vs) = Inr b" "svc_key b = vs_key vs"
    using toBackendService_Some by blast
  obtain q k where q: "GetDestinations h b s = (q, k)" by force
  note law = get_destinations [OF *(1) _ q]
  show "kinv s' \<and> ktab s' = ktab s \<and>
      (\<forall>rss. r = Inr rss \<longrightarrow> distinct (map rs_key rss) \<and> rs_key ` set rss = R)"
  proof (cases q)
    case (Inl err)
    then show ?thesis using * q law b by (auto simp: runner_defs)
  next
    case (Inr ds)
    obtain rss where "toRealServers ds = Inr rss" and keys: "map rs_key rss = map dst_key ds"
      using toRealServers_keys by blast
    moreover have "rs_key ` set rss = dst_key ` set ds" using keys by (metis list.set_map)
    ultimately show ?thesis using * q law b Inr by (auto simp: runner_defs)
  qed
next
  fix s vs R rs e s'
  assume *: "kinv s" "ktab s (vs_key vs) = Some R" "rs_key rs \<notin> R"
    "AddRealServer (lvs_runner h) (Some vs) (Some rs) s = (e, s')"
  obtain b d where b: "toBackendService (Some vs) = Inr b" "svc_key b = vs_key vs"
    and d: "toBackendDestination (Some rs) = Inr d" "dst_key d = rs_key rs"
    using toBackendService_Some toBackendDestination_Some by blast
  then show "kinv s' \<and> ktab s' = (if e = None then (ktab s)(vs_key vs \<mapsto> insert (rs_key rs) R) else ktab s)"
    using new_destination [OF *(1), of b R d e s'] * by (simp add: runner_defs)
next
  fix s vs R rs e s'
  assume *: "kinv s" "ktab s (vs_key vs) = Some R" "rs_key rs \<in> R"
    "DeleteRealServer (lvs_runner h) (Some vs) (Some rs) s = (e, s')"
  obtain b d where b: "toBackendService (Some vs) = Inr b" "svc_key b = vs_key vs"
    and d: "toBackendDestination (Some rs) = Inr d" "dst_key d = rs_key rs"
    using toBackendService_Some toBackendDestination_Some by blast
  then show "kinv s' \<and> ktab s' = (if e = None then (ktab s)(vs_key vs \<mapsto> R - {rs_key rs}) else ktab s)"
    using del_destination [OF *(1), of b R d e s'] * by (simp add: runner_defs)
qed

sublocale ipvs_kernel_reliable \<subseteq> lvs_reliable "lvs_runner h" kinv ktab
proof
  fix s assume *: "kinv s"
  then obtain ss k where q: "GetServices h s = (Inr ss, k)"
    using get_services_ok [OF *] by (metis prod.collapse)
  then show "\<exists>vss. fst (GetVirtualServers (lvs_runner h) s) = Inr vss"
    using get_services [OF * q] toVirtualServers_listed [of ss] by (auto simp: runner_defs)
next
  fix s vs assume *: "kinv s" "vs_valid vs" "vs_key vs \<notin> dom (ktab s)"
  obtain b where "toBackendService (Some vs) = Inr b" "svc_key b = vs_key vs"
    using toBackendService_Some by blast
  then show "fst (AddVirtualServer (lvs_runner h) (Some vs) s) = None"
    using new_service_ok [OF *(1), of b] vs_valid_backend [of vs b] * by (simp add: runner_defs)
next
  fix s vs assume *: "kinv s" "vs_key vs \<in> dom (ktab s)"
  obtain b where b: "toBackendService (Some vs) = Inr b" "svc_key b = vs_key vs"
    using toBackendService_Some by blast
  then show "fst (DeleteVirtualServer (lvs_runner h) (Some vs) s) = None"
    using del_service_ok [OF *(1), of b] * by (simp add: runner_defs)
  obtain ds k where "GetDestinations h b s = (Inr ds, k)"
    using get_destinations_ok [OF *(1), of b] * b by (metis prod.collapse)
  then show "\<exists>rss. fst (GetRealServers (lvs_runner h) (Some vs) s) = Inr rss"
    using b toRealServers_keys [of ds] by (auto simp: runner_defs)
next
  fix s rs vs R assume *: "kinv s" "rs_valid rs" "ktab s (vs_key vs) = Some R" "rs_key rs \<notin> R"
  obtain b d where "toBackendService (Some vs) = Inr b" "svc_key b = vs_key vs"
    "toBackendDestination (Some rs) = Inr d" "dst_key d = rs_key rs"
    using toBackendService_Some toBackendDestination_Some by blast
  then show "fst (AddRealServer (lvs_runner h) (Some vs) (Some rs) s) = None"
    using new_destination_ok [OF *(1), of d b R] rs_valid_backend [of rs d] * by (simp add: runner_defs)
next
  fix s vs R rs assume *: "kinv s" "ktab s (vs_key vs) = Some R" "rs_key rs \<in> R"
  obtain b d where "toBackendService (Some vs) = Inr b" "svc_key b = vs_key vs"
    "toBackendDestination (Some rs) = Inr d" "dst_key d = rs_key rs"
    using toBackendService_Some toBackendDestination_Some by blast
  then show "fst (DeleteRealServer (lvs_runner h) (Some vs) (Some rs) s) = None"
    using del_destination_ok [OF *(1), of b R d] * by (simp add: runner_defs)
qed

end
