(* ===== verification/LvsSync.thy ===== *)
theory LvsSync
  imports LvsContract Kube
begin

text \<open>
  \<^verbatim>\<open>lvs/adaptor/adaptor.go\<close>, the part that works on the lvs interface: the map from ports to
  services, the real servers expected behind a port, the loop that brings the existing virtual
  servers in line and the loop that creates the missing ones.
\<close>

definition protolcolIndex :: "string \<Rightarrow> nat" where
  "protolcolIndex protocol = (if protocol = ProtocolUDP then 1 else 0)"

definition protolcol :: "nat \<Rightarrow> string" where
  "protolcol i = (if i = 1 then ProtocolUDP else ProtocolTCP)"

type_synonym port_services = "(int32, Service list) gomap"

text \<open>\<open>portServiceMap\<close>: one map for TCP (index 0), one for UDP (index 1).\<close>

definition add_port :: "Service \<Rightarrow> ServicePort \<Rightarrow> port_services list \<Rightarrow> port_services list" where
  "add_port svc port psm =
     (let i = protolcolIndex (spProtocol port); protocolMap = psm ! i;
          old = (case map_of protocolMap (spPort port) of None \<Rightarrow> [] | Some svcs \<Rightarrow> svcs)
      in psm[i := AList.update (spPort port) (old @ [svc]) protocolMap])"

definition add_service :: "Service \<Rightarrow> port_services list \<Rightarrow> port_services list" where
  "add_service svc psm = fold (add_port svc) (svcPorts svc) psm"

definition port_service_map :: "Service list \<Rightarrow> port_services list" where
  "port_service_map lbSvcs = fold add_service lbSvcs [[], []]"

subsection \<open>Expected real servers\<close>

fun getTargetPort_loop :: "int32 \<Rightarrow> ServicePort list \<Rightarrow> ServicePort option" where
  "getTargetPort_loop port [] = None"
| "getTargetPort_loop port (svcPort # ps) =
     (if spPort svcPort = port then Some svcPort else getTargetPort_loop port ps)"

definition getTargetPort :: "int32 \<Rightarrow> Service \<Rightarrow> ServicePort option" where
  "getTargetPort port svc = getTargetPort_loop port (svcPorts svc)"

fun getTargetIntPort_loop :: "ServicePort \<Rightarrow> EndpointPort list \<Rightarrow> int32" where
  "getTargetIntPort_loop targetPort [] = 0"
| "getTargetIntPort_loop targetPort (port # ps) =
     (if epName port = spName targetPort then epPort port else getTargetIntPort_loop targetPort ps)"

definition getTargetIntPort :: "ServicePort \<Rightarrow> EndpointSubset \<Rightarrow> int32" where
  "getTargetIntPort targetPort sset = getTargetIntPort_loop targetPort (essPorts sset)"

type_synonym rs_map = "(string, RealServer) gomap"

definition add_addr :: "int32 \<Rightarrow> string \<Rightarrow> rs_map \<Rightarrow> rs_map" where
  "add_addr port ip expectRS =
     AList.update (ip @ '':'' @ Itoa (sint port))
       \<lparr>rsAddress = ParseIP ip, rsPort = ucast port, rsWeight = 1\<rparr> expectRS"

definition add_subset :: "ServicePort \<Rightarrow> EndpointSubset \<Rightarrow> rs_map \<Rightarrow> rs_map" where
  "add_subset targetPort sset expectRS =
     (let port = getTargetIntPort targetPort sset
      in if port = 0 then expectRS else fold (add_addr port) (essAddresses sset) expectRS)"

definition addExpectRS :: "Endpoints list \<Rightarrow> VirtualServer \<Rightarrow> Service \<Rightarrow> rs_map \<Rightarrow> rs_map" where
  "addExpectRS edpts vs svc expectRS =
     (case getTargetPort (ucast (vsPort vs)) svc of
        None \<Rightarrow> expectRS
      | Some targetPort \<Rightarrow>
          fold (\<lambda>edpt m. fold (add_subset targetPort) (epsSubsets edpt) m) edpts expectRS)"

definition add_svc_RSs :: "endpoints_map \<Rightarrow> VirtualServer \<Rightarrow> Service \<Rightarrow> rs_map \<Rightarrow> rs_map" where
  "add_svc_RSs endpointsMap vs svc expectRSs =
     (let edpts = epm_get endpointsMap (svcNamespace svc) (svcName svc)
      in if edpts = [] then expectRSs else addExpectRS edpts vs svc expectRSs)"

definition getExpectRSs :: "Service list \<Rightarrow> endpoints_map \<Rightarrow> VirtualServer \<Rightarrow> rs_map" where
  "getExpectRSs svcs endpointsMap vs = fold (add_svc_RSs endpointsMap vs) svcs []"

subsection \<open>Synchronising\<close>

text \<open>The orders in which the two \<open>range\<close> loops over Go maps visit their keys.\<close>

record map_order =
  rank_port :: "nat \<Rightarrow> int32 \<Rightarrow> nat"
  rank_rs :: "VirtualServer \<Rightarrow> string \<Rightarrow> nat"

fun addRS_loop :: "'l lvs_Interface \<Rightarrow> VirtualServer \<Rightarrow> (string \<times> RealServer) list \<Rightarrow> 'l \<Rightarrow> 'l" where
  "addRS_loop L vs [] s = s"
| "addRS_loop L vs ((str, expectRS) # rest) s =
     addRS_loop L vs rest (snd (AddRealServer L (Some vs) (Some expectRS) s))"

definition addRealServers :: "'l lvs_Interface \<Rightarrow> map_order \<Rightarrow> VirtualServer \<Rightarrow> rs_map \<Rightarrow> 'l \<Rightarrow> 'l" where
  "addRealServers L ord vs expectRSs s = addRS_loop L vs (range_map (rank_rs ord vs) expectRSs) s"

text \<open>The loop over the existing real servers of one virtual server.\<close>

fun prune_RSs :: "'l lvs_Interface \<Rightarrow> VirtualServer \<Rightarrow> RealServer list \<Rightarrow> rs_map \<Rightarrow> 'l \<Rightarrow> rs_map \<times> 'l" where
  "prune_RSs L vs [] expectRSs s = (expectRSs, s)"
| "prune_RSs L vs (rs # rss) expectRSs s =
     (let rsStr = IP_String (rsAddress rs) @ '':'' @ Itoa (uint (rsPort rs))
      in if map_of expectRSs rsStr = None
         then prune_RSs L vs rss expectRSs (snd (DeleteRealServer L (Some vs) (Some rs) s))
         else prune_RSs L vs rss (AList.delete rsStr expectRSs) s)"

text \<open>One existing virtual server: one iteration of the first loop of \<open>Build\<close>.\<close>

definition sync_vs :: "'l lvs_Interface \<Rightarrow> map_order \<Rightarrow> IP \<Rightarrow> endpoints_map \<Rightarrow> VirtualServer
    \<Rightarrow> port_services list \<times> 'l \<Rightarrow> port_services list \<times> 'l" where
  "sync_vs L ord virtualServerAddress endpointsMap vs = (\<lambda>(psm, s).
     let index = (if vsProtocol vs = ''UDP'' then 1 else 0); port = ucast (vsPort vs)
     in if \<not> IP_Equal (vsAddress vs) virtualServerAddress
        then (psm, snd (DeleteVirtualServer L (Some vs) s))
        else case map_of (psm ! index) port of
               None \<Rightarrow> (psm, snd (DeleteVirtualServer L (Some vs) s))
             | Some svcs \<Rightarrow>
                 let psm = psm[index := AList.delete port (psm ! index)];
                     expectRSs = getExpectRSs svcs endpointsMap vs
                 in case GetRealServers L (Some vs) s of
                      (Inl err, s) \<Rightarrow> (psm, s)
                    | (Inr rss, s) \<Rightarrow>
                        let (expectRSs, s) = prune_RSs L vs rss expectRSs s
                        in (psm, addRealServers L ord vs expectRSs s))"

definition new_vs :: "IP \<Rightarrow> nat \<Rightarrow> int32 \<Rightarrow> VirtualServer" where
  "new_vs virtualServerAddress i port =
     \<lparr>vsAddress = virtualServerAddress, vsProtocol = (if i = 1 then ''UDP'' else ''TCP''),
      vsPort = ucast port, vsScheduler = RoundRobin, vsFlags = 0, vsTimeout = 0\<rparr>"

fun create_loop :: "'l lvs_Interface \<Rightarrow> map_order \<Rightarrow> IP \<Rightarrow> endpoints_map \<Rightarrow> nat
    \<Rightarrow> (int32 \<times> Service list) list \<Rightarrow> 'l \<Rightarrow> 'l" where
  "create_loop L ord addr endpointsMap i [] s = s"
| "create_loop L ord addr endpointsMap i ((port, svcs) # rest) s =
     (let vs = new_vs addr i port
      in case AddVirtualServer L (Some vs) s of
           (Some err, s) \<Rightarrow> create_loop L ord addr endpointsMap i rest s
         | (None, s) \<Rightarrow>
             create_loop L ord addr endpointsMap i rest
               (addRealServers L ord vs (getExpectRSs svcs endpointsMap vs) s))"

definition create_vss :: "'l lvs_Interface \<Rightarrow> map_order \<Rightarrow> IP \<Rightarrow> endpoints_map
    \<Rightarrow> port_services list \<Rightarrow> 'l \<Rightarrow> 'l" where
  "create_vss L ord addr endpointsMap psm s =
     fold (\<lambda>i s. create_loop L ord addr endpointsMap i (range_map (rank_port ord i) (psm ! i)) s)
       [0..<length psm] s"

text \<open>\<open>Build\<close> from the call of \<open>GetVirtualServers\<close> on.\<close>

definition sync_lvs :: "'l lvs_Interface \<Rightarrow> map_order \<Rightarrow> IP \<Rightarrow> endpoints_map \<Rightarrow> port_services list
    \<Rightarrow> 'l \<Rightarrow> 'l" where
  "sync_lvs L ord addr endpointsMap psm s =
     (case GetVirtualServers L s of
        (Inl err, s) \<Rightarrow> s
      | (Inr vss, s) \<Rightarrow>
          let (psm, s) = fold (sync_vs L ord addr endpointsMap) vss (psm, s)
          in create_vss L ord addr endpointsMap psm s)"

end
