(* ===== verification/Exec.thy ===== *)
theory Exec
  imports Prelude
begin

text \<open>
  Running commands (\<^verbatim>\<open>k8s.io/utils/exec\<close>). The package is a parameter: a record with one
  operation, which runs a command with its arguments and its standard input on an unknown
  state of the machine and returns the combined output and the error.
\<close>

datatype exec_err =
    ExitError bool int gerror \<comment> \<open>exited, exit status, text\<close>
  | ExecFailed gerror

fun err_text :: "exec_err \<Rightarrow> gerror" where
  "err_text (ExitError _ _ t) = t"
| "err_text (ExecFailed t) = t"

text \<open>The test \<open>ee, ok := err.(utilexec.ExitError); ok \<and> ee.Exited() \<and> ee.ExitStatus() == 1\<close>.\<close>

fun exited_1 :: "exec_err \<Rightarrow> bool" where
  "exited_1 (ExitError exited status _) = (exited \<and> status = 1)"
| "exited_1 (ExecFailed _) = False"

record 'w Exec =
  CombinedOutput :: "string \<Rightarrow> string list \<Rightarrow> string \<Rightarrow> 'w \<Rightarrow> (string \<times> exec_err option) \<times> 'w"

end
