(* ===== verification/Regex.thy ===== *)
theory Regex
  imports Prelude
begin

text \<open>
  The part of Go's \<open>regexp\<close> the sources use. A pattern is a value of \<open>re\<close>; \<open>m\<close> is the
  backtracking matcher with Go's leftmost-first preference: a repetition tries one more round
  before it stops, the left branch of an alternative comes first. A round of a repetition that
  consumes nothing is not taken, so a repetition takes at most as many rounds as there are
  characters, which is the fuel it starts with.
\<close>

datatype re =
    Eps
  | Cls "char \<Rightarrow> bool"
  | Seq re re
  | Alt re re
  | Star re
  | Grp nat re
  | Bol
  | BolM
  | Eol

definition Opt :: "re \<Rightarrow> re" where "Opt r = Alt r Eps"
definition Plus :: "re \<Rightarrow> re" where "Plus r = Seq r (Star r)"

fun Lit :: "string \<Rightarrow> re" where
  "Lit [] = Eps"
| "Lit (c # cs) = Seq (Cls (\<lambda>x. x = c)) (Lit cs)"

definition digit :: re where "digit = Cls is_digit"
definition dot :: re where "dot = Cls (\<lambda>c. c \<noteq> nl)"

text \<open>A state: the character before the position, the rest of the text, the groups so far.\<close>

type_synonym mstate = "char option \<times> string \<times> (nat \<Rightarrow> string)"

definition rest :: "mstate \<Rightarrow> string" where
  "rest st = fst (snd st)"

fun star :: "(mstate \<Rightarrow> (mstate \<Rightarrow> 'b option) \<Rightarrow> 'b option) \<Rightarrow> nat \<Rightarrow> mstate
    \<Rightarrow> (mstate \<Rightarrow> 'b option) \<Rightarrow> 'b option" where
  "star f 0 st k = k st"
| "star f (Suc n) st k =
     (case f st (\<lambda>st'. if length (rest st') < length (rest st) then star f n st' k else None) of
        Some x \<Rightarrow> Some x | None \<Rightarrow> k st)"

lemma star_step:
  "f st (\<lambda>st'. if length (rest st') < length (rest st) then star f n st' k else None) = Some x \<Longrightarrow>
     star f (Suc n) st k = Some x"
  by simp

primrec m :: "re \<Rightarrow> mstate \<Rightarrow> (mstate \<Rightarrow> 'b option) \<Rightarrow> 'b option" where
  "m Eps st k = k st"
| "m (Cls P) st k =
     (case st of (p, s, c) \<Rightarrow>
        (case s of [] \<Rightarrow> None | x # xs \<Rightarrow> if P x then k (Some x, xs, c) else None))"
| "m (Seq r1 r2) st k = m r1 st (\<lambda>st'. m r2 st' k)"
| "m (Alt r1 r2) st k = (case m r1 st k of Some x \<Rightarrow> Some x | None \<Rightarrow> m r2 st k)"
| "m (Star r) st k = star (m r) (length (rest st)) st k"
| "m (Grp n r) st k =
     (case st of (p, s, c) \<Rightarrow>
        m r st (\<lambda>(p', s', c'). k (p', s', c'(n := take (length s - length s') s))))"
| "m Bol st k = (case st of (p, s, c) \<Rightarrow> if p = None then k st else None)"
| "m BolM st k = (case st of (p, s, c) \<Rightarrow> if p = None \<or> p = Some nl then k st else None)"
| "m Eol st k = (case st of (p, s, c) \<Rightarrow> if s = [] then k st else None)"

definition match_here :: "re \<Rightarrow> char option \<Rightarrow> string \<Rightarrow> mstate option" where
  "match_here r p s = m r (p, s, \<lambda>_. []) Some"

text \<open>\<open>FindStringSubmatch\<close>: the leftmost match; group 0 is the whole match.\<close>

fun find_from :: "re \<Rightarrow> char option \<Rightarrow> string \<Rightarrow> (nat \<Rightarrow> string) option" where
  "find_from r p s =
     (case match_here r p s of
        Some (p', s', c) \<Rightarrow> Some (c(0 := take (length s - length s') s))
      | None \<Rightarrow> (case s of [] \<Rightarrow> None | x # xs \<Rightarrow> find_from r (Some x) xs))"

declare find_from.simps [simp del]

definition FindStringSubmatch :: "re \<Rightarrow> string \<Rightarrow> (nat \<Rightarrow> string) option" where
  "FindStringSubmatch r s = find_from r None s"

definition MatchString :: "re \<Rightarrow> string \<Rightarrow> bool" where
  "MatchString r s \<longleftrightarrow> FindStringSubmatch r s \<noteq> None"

text \<open>
  \<open>ReplaceAllString\<close>, with the replacement as a function of the groups, for patterns that
  match no empty text: the loop goes on behind each match.
\<close>

function replace_from :: "re \<Rightarrow> ((nat \<Rightarrow> string) \<Rightarrow> string) \<Rightarrow> char option \<Rightarrow> string \<Rightarrow> string" where
  "replace_from r f p s =
     (case match_here r p s of
        Some (p', s', c) \<Rightarrow>
          if length s' < length s
          then f (c(0 := take (length s - length s') s)) @ replace_from r f p' s'
          else (case s of [] \<Rightarrow> [] | x # xs \<Rightarrow> x # replace_from r f (Some x) xs)
      | None \<Rightarrow> (case s of [] \<Rightarrow> [] | x # xs \<Rightarrow> x # replace_from r f (Some x) xs))"
  by pat_completeness auto
termination
  by (relation "measure (\<lambda>(r, f, p, s). length s)") auto

declare replace_from.simps [simp del]

definition ReplaceAllString :: "re \<Rightarrow> string \<Rightarrow> ((nat \<Rightarrow> string) \<Rightarrow> string) \<Rightarrow> string" where
  "ReplaceAllString r src repl = replace_from r repl None src"

subsection \<open>Greedy repetition of a character class\<close>

definition last_char :: "char option \<Rightarrow> string \<Rightarrow> char option" where
  "last_char p u = (if u = [] then p else Some (last u))"

lemma last_char_simps [simp]: "last_char p [] = p" "last_char p (x # xs) = last_char (Some x) xs"
  by (simp_all add: last_char_def)

lemma last_char_append: "last_char p (u @ v) = last_char (last_char p u) v"
  by (simp add: last_char_def)

lemma star_Cls_Suc:
  "star (m (Cls P)) (Suc n) (p, a # xs, c) k =
     (case if P a then star (m (Cls P)) n (Some a, xs, c) k else None of
        Some x \<Rightarrow> Some x | None \<Rightarrow> k (p, a # xs, c))"
  by (simp add: rest_def)

lemma star_Cls_first:
  assumes "length s \<le> n" "list_all P u" "s = u @ v" "v = [] \<or> \<not> P (hd v)"
    and "k (last_char p u, v, c) = Some x"
  shows "star (m (Cls P)) n (p, s, c) k = Some x"
  using assms
proof (induction u arbitrary: n p s)
  case Nil
  then show ?case by (cases n; cases v) (auto simp: rest_def)
next
  case (Cons a u)
  then obtain n' where "n = Suc n'" by (cases n) auto
  with Cons show ?case by (auto simp: rest_def)
qed

lemma Star_Cls_first:
  "list_all P u \<Longrightarrow> v = [] \<or> \<not> P (hd v) \<Longrightarrow> k (last_char p u, v, c) = Some x \<Longrightarrow>
     m (Star (Cls P)) (p, u @ v, c) k = Some x"
  by (simp add: rest_def star_Cls_first)

lemma Plus_Cls_first:
  assumes "list_all P u" "u \<noteq> []" "v = [] \<or> \<not> P (hd v)" "k (last_char p u, v, c) = Some x"
  shows "m (Plus (Cls P)) (p, u @ v, c) k = Some x"
  using assms Star_Cls_first [of P "tl u" v k "Some (hd u)" c x] by (cases u) (auto simp: Plus_def simp del: m.simps(5))

lemma Star_Cls_none:
  assumes "\<And>u v. s = u @ v \<Longrightarrow> list_all P u \<Longrightarrow> k (last_char p u, v, c) = None"
  shows "m (Star (Cls P)) (p, s, c) k = None"
proof -
  have "star (m (Cls P)) n (p, s, c) k = None"
    if "\<And>u v. s = u @ v \<Longrightarrow> list_all P u \<Longrightarrow> k (last_char p u, v, c) = None" for n p s
    using that
  proof (induction n arbitrary: p s)
    case 0
    then show ?case using "0" [of "[]" s] by simp
  next
    case (Suc n)
    have here: "k (p, s, c) = None" using Suc.prems [of "[]" s] by simp
    show ?case
    proof (cases s)
      case (Cons a xs)
      have "star (m (Cls P)) n (Some a, xs, c) k = None" if "P a"
        using Suc.prems [of "a # _"] that Cons by (intro Suc.IH) auto
      then show ?thesis unfolding Cons star_Cls_Suc using Cons here by auto
    qed (use here in simp)
  qed
  then show ?thesis using assms by (simp add: rest_def)
qed

lemma Lit_match: "m (Lit u) (p, s, c) k = (if take (length u) s = u then k (last_char p u, drop (length u) s, c) else None)"
proof (induction u arbitrary: p s)
  case (Cons a u)
  then show ?case by (cases s) auto
qed simp

subsection \<open>What a match and its groups are\<close>

primrec lang :: "re \<Rightarrow> string set" where
  "lang Eps = {[]}"
| "lang (Cls P) = {[x] | x. P x}"
| "lang (Seq r1 r2) = {u @ v | u v. u \<in> lang r1 \<and> v \<in> lang r2}"
| "lang (Alt r1 r2) = lang r1 \<union> lang r2"
| "lang (Star r) = {concat us | us. set us \<subseteq> lang r}"
| "lang (Grp n r) = lang r"
| "lang Bol = {[]}"
| "lang BolM = {[]}"
| "lang Eol = {[]}"

primrec grps :: "re \<Rightarrow> (nat \<times> re) set" where
  "grps Eps = {}"
| "grps (Cls P) = {}"
| "grps (Seq r1 r2) = grps r1 \<union> grps r2"
| "grps (Alt r1 r2) = grps r1 \<union> grps r2"
| "grps (Star r) = grps r"
| "grps (Grp n r) = insert (n, r) (grps r)"
| "grps Bol = {}"
| "grps BolM = {}"
| "grps Eol = {}"

definition grew :: "(nat \<times> re) set \<Rightarrow> (nat \<Rightarrow> string) \<Rightarrow> (nat \<Rightarrow> string) \<Rightarrow> bool" where
  "grew G c c' \<longleftrightarrow> (\<forall>n. c' n = c n \<or> (\<exists>g. (n, g) \<in> G \<and> c' n \<in> lang g))"

lemma grew_refl [simp]: "grew G c c"
  by (simp add: grew_def)

lemma grew_trans: "grew G c c' \<Longrightarrow> grew H c' c'' \<Longrightarrow> grew (G \<union> H) c c''"
  unfolding grew_def by (metis UnCI)

lemma grew_mono: "grew G c c' \<Longrightarrow> G \<subseteq> H \<Longrightarrow> grew H c c'"
  unfolding grew_def by blast

lemma grew_set: "grew G c c' \<Longrightarrow> u \<in> lang r \<Longrightarrow> grew (insert (n, r) G) c (c'(n := u))"
  by (auto simp: grew_def)

definition sound :: "re \<Rightarrow> (mstate \<Rightarrow> (mstate \<Rightarrow> 'b option) \<Rightarrow> 'b option) \<Rightarrow> bool" where
  "sound r f \<longleftrightarrow> (\<forall>p s c k x. f (p, s, c) k = Some x \<longrightarrow>
     (\<exists>u s' p' c'. s = u @ s' \<and> u \<in> lang r \<and> grew (grps r) c c' \<and> k (p', s', c') = Some x))"

lemma soundD:
  assumes "sound r f" "f (p, s, c) k = Some x"
  obtains u s' p' c' where "s = u @ s'" "u \<in> lang r" "grew (grps r) c c'" "k (p', s', c') = Some x"
  using assms(1) [unfolded sound_def, rule_format, OF assms(2)] that by auto

lemma star_sound:
  assumes "sound r f" "star f n (p, s, c) k = Some x"
  shows "\<exists>us s' p' c'. s = concat us @ s' \<and> set us \<subseteq> lang r \<and> grew (grps r) c c' \<and> k (p', s', c') = Some x"
  using assms(2)
proof (induction n arbitrary: p s c)
  case 0
  then show ?case by (intro exI [of _ "[]"] exI [of _ s] exI [of _ p] exI [of _ c]) auto
next
  case (Suc n)
  let ?k = "\<lambda>st'. if length (rest st') < length (rest (p, s, c)) then star f n st' k else None"
  show ?case
  proof (cases "f (p, s, c) ?k")
    case None
    then show ?thesis
      using Suc.prems by (intro exI [of _ "[]"] exI [of _ s] exI [of _ p] exI [of _ c]) auto
  next
    case (Some y)
    then have "y = x" using Suc.prems by simp
    with Some have "f (p, s, c) ?k = Some x" by simp
    from soundD [OF assms(1) this] obtain u s' p' c' where
      u: "s = u @ s'" "u \<in> lang r" "grew (grps r) c c'" "?k (p', s', c') = Some x" .
    then have "star f n (p', s', c') k = Some x" by (simp split: if_splits)
    from Suc.IH [OF this] obtain us s'' p'' c'' where
      "s' = concat us @ s''" "set us \<subseteq> lang r" "grew (grps r) c' c''" "k (p'', s'', c'') = Some x" by blast
    then show ?thesis
      using u grew_trans [OF u(3), of "grps r" c''] by (intro exI [of _ "u # us"] exI [of _ s'']) auto
  qed
qed

lemma m_sound: "sound r (m r)"
proof (induction r)
  case (Cls P)
  show ?case
    unfolding sound_def
  proof (intro allI impI)
    fix p s c k and x :: 'a
    assume "m (Cls P) (p, s, c) k = Some x"
    then obtain a s' where "s = a # s'" "P a" "k (Some a, s', c) = Some x"
      by (auto split: list.splits if_splits)
    then show "\<exists>u s' p' c'. s = u @ s' \<and> u \<in> lang (Cls P) \<and> grew (grps (Cls P)) c c' \<and> k (p', s', c') = Some x"
      by (intro exI [of _ "[a]"] exI [of _ s'] exI [of _ "Some a"] exI [of _ c]) auto
  qed
next
  case (Seq r1 r2)
  show ?case
    unfolding sound_def
  proof (intro allI impI)
    fix p s c k and x :: 'a
    assume "m (Seq r1 r2) (p, s, c) k = Some x"
    then have "m r1 (p, s, c) (\<lambda>st'. m r2 st' k) = Some x" by simp
    from soundD [OF Seq.IH(1) this] obtain u s' p' c' where
      1: "s = u @ s'" "u \<in> lang r1" "grew (grps r1) c c'" "m r2 (p', s', c') k = Some x" .
    from soundD [OF Seq.IH(2) 1(4)] obtain v s'' p'' c'' where
      "s' = v @ s''" "v \<in> lang r2" "grew (grps r2) c' c''" "k (p'', s'', c'') = Some x" .
    then show "\<exists>u s' p' c'. s = u @ s' \<and> u \<in> lang (Seq r1 r2) \<and> grew (grps (Seq r1 r2)) c c' \<and> k (p', s', c') = Some x"
      using 1 grew_trans [OF 1(3)] by (intro exI [of _ "u @ v"] exI [of _ s''] exI [of _ p''] exI [of _ c'']) auto
  qed
next
  case (Alt r1 r2)
  show ?case
    unfolding sound_def
  proof (intro allI impI)
    fix p s c k and x :: 'a
    assume "m (Alt r1 r2) (p, s, c) k = Some x"
    then consider "m r1 (p, s, c) k = Some x" | "m r2 (p, s, c) k = Some x" by (auto split: option.splits)
    then obtain u s' p' c' where "s = u @ s'" "u \<in> lang r1 \<union> lang r2"
        "grew (grps r1) c c' \<or> grew (grps r2) c c'" "k (p', s', c') = Some x"
      by cases (use soundD [OF Alt.IH(1)] soundD [OF Alt.IH(2)] in \<open>metis UnCI\<close>)+
    then show "\<exists>u s' p' c'. s = u @ s' \<and> u \<in> lang (Alt r1 r2) \<and> grew (grps (Alt r1 r2)) c c' \<and> k (p', s', c') = Some x"
      by (metis grew_mono grps.simps(4) lang.simps(4) sup_ge1 sup_ge2)
  qed
next
  case (Star r)
  show ?case
    unfolding sound_def
  proof (intro allI impI)
    fix p s c k and x :: 'a
    assume "m (Star r) (p, s, c) k = Some x"
    then show "\<exists>u s' p' c'. s = u @ s' \<and> u \<in> lang (Star r) \<and> grew (grps (Star r)) c c' \<and> k (p', s', c') = Some x"
      using star_sound [OF Star.IH, of "length s" p s c k x] by (auto simp: rest_def)
  qed
next
  case (Grp n r)
  show ?case
    unfolding sound_def
  proof (intro allI impI)
    fix p s c k and x :: 'a
    assume "m (Grp n r) (p, s, c) k = Some x"
    then have "m r (p, s, c) (\<lambda>(p', s', c'). k (p', s', c'(n := take (length s - length s') s))) = Some x" by simp
    from soundD [OF Grp.IH this] obtain u s' p' c' where 1: "s = u @ s'" "u \<in> lang r" "grew (grps r) c c'"
        "(\<lambda>(p', s', c'). k (p', s', c'(n := take (length s - length s') s))) (p', s', c') = Some x" .
    then have "k (p', s', c'(n := u)) = Some x" by simp
    with 1(1-3) show "\<exists>u s' p' c'. s = u @ s' \<and> u \<in> lang (Grp n r) \<and> grew (grps (Grp n r)) c c' \<and> k (p', s', c') = Some x"
      using grew_set by fastforce
  qed
qed (auto simp: sound_def split: if_splits, (metis grew_refl)+)

lemma find_from_sound:
  assumes "find_from r p s = Some g"
  shows "g 0 \<in> lang r \<and> (\<forall>n. n \<noteq> 0 \<longrightarrow> g n = [] \<or> (\<exists>h. (n, h) \<in> grps r \<and> g n \<in> lang h))"
  using assms
proof (induction r p s rule: find_from.induct)
  case (1 r p s)
  show ?case
  proof (cases "match_here r p s")
    case None
    then show ?thesis using 1 by (auto simp: find_from.simps [of r p s] split: list.splits)
  next
    case (Some y)
    obtain p' s' c where y: "y = (p', s', c)" by (cases y)
    have "m r (p, s, \<lambda>_. []) Some = Some (p', s', c)" using Some y by (simp add: match_here_def)
    from soundD [OF m_sound this] obtain u where "s = u @ s'" "u \<in> lang r" "grew (grps r) (\<lambda>_. []) c"
      by auto
    moreover have "g = c(0 := take (length s - length s') s)"
      using 1(2) Some y by (simp add: find_from.simps [of r p s])
    ultimately show ?thesis by (auto simp: grew_def)
  qed
qed

end
