(* ===== verification/Ipset.thy ===== *)
theory Ipset
  imports Exec Regex NetIP
begin

text \<open>
  \<^verbatim>\<open>utils/ipset\<close>: the types of sets, sets and entries with their validation and printing
  (\<^verbatim>\<open>types.go\<close>, \<^verbatim>\<open>ipset.go\<close>), and the runner that executes the \<^verbatim>\<open>ipset\<close> command.
\<close>

subsection \<open>types.go\<close>

definition HashIP :: string where "HashIP = ''hash:ip''"
definition HashIPPort :: string where "HashIPPort = ''hash:ip,port''"
definition HashIPPortIP :: string where "HashIPPortIP = ''hash:ip,port,ip''"
definition HashIPPortNet :: string where "HashIPPortNet = ''hash:ip,port,net''"
definition BitmapPort :: string where "BitmapPort = ''bitmap:port''"
definition HashNet :: string where "HashNet = ''hash:net''"
definition HashNetPort :: string where "HashNetPort = ''hash:net,port''"
definition DefaultPortRange :: string where "DefaultPortRange = ''0-65535''"
definition ProtocolFamilyIPV4 :: string where "ProtocolFamilyIPV4 = ''inet''"
definition ProtocolFamilyIPV6 :: string where "ProtocolFamilyIPV6 = ''inet6''"
definition Protocol_tcp :: string where "Protocol_tcp = ''tcp''"
definition Protocol_udp :: string where "Protocol_udp = ''udp''"

definition ValidIPSetTypes :: "string list" where
  "ValidIPSetTypes = [HashIP, HashIPPort, HashIPPortIP, BitmapPort, HashIPPortNet, HashNet, HashNetPort]"

lemmas ipset_types [go_eval] = HashIP_def HashIPPort_def HashIPPortIP_def HashIPPortNet_def BitmapPort_def
  HashNet_def HashNetPort_def

subsection \<open>Sets\<close>

record IPSet =
  isName :: string
  isSetType :: string
  isHashFamily :: string
  isHashSize :: int
  isMaxElem :: int
  isPortRange :: string

fun validate_ports :: "string list \<Rightarrow> bool" where
  "validate_ports [] = True"
| "validate_ports (s # strs) =
     (case Atoi s of Inl err \<Rightarrow> False | Inr num \<Rightarrow> if num < 0 then False else validate_ports strs)"

definition validatePortRange :: "string \<Rightarrow> bool" where
  "validatePortRange portRange =
     (let strs = Split portRange (CHR ''-'') in if length strs \<noteq> 2 then False else validate_ports strs)"

definition validateIPSetType :: "string \<Rightarrow> bool" where
  "validateIPSetType t \<longleftrightarrow> t \<in> set ValidIPSetTypes"

definition validateHashFamily :: "string \<Rightarrow> bool" where
  "validateHashFamily family \<longleftrightarrow> family = ProtocolFamilyIPV4 \<or> family = ProtocolFamilyIPV6"

definition validateProtocol :: "string \<Rightarrow> bool" where
  "validateProtocol protocol \<longleftrightarrow> protocol = Protocol_tcp \<or> protocol = Protocol_udp"

definition IPSet_Validate :: "IPSet \<Rightarrow> bool" where
  "IPSet_Validate st =
     (let t = isSetType st in
      if (t = HashIPPort \<or> t = HashIPPortIP \<or> t = HashIPPortNet \<or> t = HashNet \<or> t = HashNetPort) \<and>
         \<not> validateHashFamily (isHashFamily st) then False
      else if \<not> validateIPSetType t then False
      else if t = BitmapPort \<and> \<not> validatePortRange (isPortRange st) then False
      else if isHashSize st \<le> 0 then False
      else if isMaxElem st \<le> 0 then False
      else True)"

subsection \<open>Entries\<close>

record Entry =
  eIP :: string
  ePort :: int
  eProtocol :: string
  eNet :: string
  eIP2 :: string
  eSetType :: string
  eOptions :: "string list"

text \<open>\<open>parsePortRange\<close>: the loop keeps the two results; the second number may swap them.\<close>

fun port_range_loop :: "nat \<Rightarrow> string list \<Rightarrow> int \<Rightarrow> int \<Rightarrow> gerror + int \<times> int" where
  "port_range_loop i [] beginPort endPort = Inr (beginPort, endPort)"
| "port_range_loop i (s # strs) beginPort endPort =
     (case Atoi s of
        Inl err \<Rightarrow> Inl err
      | Inr num \<Rightarrow>
          if num < 0 then Inl (''port number '' @ Itoa num @ '' should be >=0'')
          else if i = 0 then port_range_loop (Suc i) strs num endPort
          else if beginPort > num then port_range_loop (Suc i) strs num beginPort
          else port_range_loop (Suc i) strs beginPort num)"

definition parsePortRange :: "string \<Rightarrow> gerror + int \<times> int" where
  "parsePortRange portRange =
     (let portRange = (if portRange = [] then DefaultPortRange else portRange);
          strs = Split portRange (CHR ''-'')
      in if length strs \<noteq> 2 then Inl ''port range should be in the format of `a-b`''
         else port_range_loop 0 strs 0 0)"

definition default_protocol :: "Entry \<Rightarrow> Entry" where
  "default_protocol e = (if eProtocol e = [] then e\<lparr>eProtocol := Protocol_tcp\<rparr> else e)"

text \<open>\<open>Validate\<close> fills in the protocol of the entry it is called on, so it returns the entry too.\<close>

definition Entry_Validate :: "Entry \<Rightarrow> IPSet option \<Rightarrow> bool \<times> Entry" where
  "Entry_Validate e st =
     (if ePort e < 0 then (False, e)
      else if eSetType e = HashIP then (ParseIP (eIP e) \<noteq> [], e)
      else if eSetType e = HashIPPort then
        (let e = default_protocol e
         in if ParseIP (eIP e) = [] then (False, e) else (validateProtocol (eProtocol e), e))
      else if eSetType e = HashIPPortIP then
        (let e = default_protocol e
         in if ParseIP (eIP e) = [] then (False, e)
            else if \<not> validateProtocol (eProtocol e) then (False, e) else (ParseIP (eIP2 e) \<noteq> [], e))
      else if eSetType e = HashIPPortNet then
        (let e = default_protocol e
         in if ParseIP (eIP e) = [] then (False, e)
            else if \<not> validateProtocol (eProtocol e) then (False, e) else (ParseCIDR_ok (eNet e), e))
      else if eSetType e = BitmapPort then
        (case st of
           None \<Rightarrow> (False, e)
         | Some s \<Rightarrow>
             (case parsePortRange (isPortRange s) of
                Inl err \<Rightarrow> (False, e)
              | Inr (b, en) \<Rightarrow> (\<not> (ePort e < b \<or> ePort e > en), e)))
      else if eSetType e = HashNet then (ParseCIDR_ok (eNet e), e)
      else if eSetType e = HashNetPort then
        (let e = default_protocol e
         in if \<not> validateProtocol (eProtocol e) then (False, e) else (ParseCIDR_ok (eNet e), e))
      else (True, e))"

definition Entry_String :: "Entry \<Rightarrow> string" where
  "Entry_String e =
     (if eSetType e = HashIP then eIP e
      else if eSetType e = HashIPPort then eIP e @ '','' @ eProtocol e @ '':'' @ Itoa (ePort e)
      else if eSetType e = HashIPPortIP then
        eIP e @ '','' @ eProtocol e @ '':'' @ Itoa (ePort e) @ '','' @ eIP2 e
      else if eSetType e = HashIPPortNet then
        eIP e @ '','' @ eProtocol e @ '':'' @ Itoa (ePort e) @ '','' @ eNet e
      else if eSetType e = HashNet then eNet e
      else if eSetType e = HashNetPort then eNet e @ '','' @ eProtocol e @ '':'' @ Itoa (ePort e)
      else if eSetType e = BitmapPort then Itoa (ePort e)
      else [])"

subsection \<open>The runner\<close>

text \<open>The operations of \<open>Interface\<close>; each takes and returns the state of the machine.\<close>

record 'w ipset_Interface =
  FlushSet :: "string \<Rightarrow> 'w \<Rightarrow> gerror option \<times> 'w"
  DestroySet :: "string \<Rightarrow> 'w \<Rightarrow> gerror option \<times> 'w"
  DestroyAllSets :: "'w \<Rightarrow> gerror option \<times> 'w"
  CreateSet :: "IPSet \<Rightarrow> bool \<Rightarrow> 'w \<Rightarrow> (gerror option \<times> IPSet) \<times> 'w"
  AddEntry :: "string \<Rightarrow> IPSet \<Rightarrow> bool \<Rightarrow> 'w \<Rightarrow> gerror option \<times> 'w"
  DelEntry :: "string \<Rightarrow> string \<Rightarrow> 'w \<Rightarrow> gerror option \<times> 'w"
  TestEntry :: "string \<Rightarrow> string \<Rightarrow> 'w \<Rightarrow> (gerror + bool) \<times> 'w"
  ListEntries :: "string \<Rightarrow> 'w \<Rightarrow> (gerror + string list) \<times> 'w"
  ListSets :: "'w \<Rightarrow> (gerror + string list) \<times> 'w"
  ipset_GetVersion :: "'w \<Rightarrow> (gerror + string) \<times> 'w"
  AddEntryWithOptions :: "Entry \<Rightarrow> IPSet \<Rightarrow> bool \<Rightarrow> 'w \<Rightarrow> gerror option \<times> 'w"
  DelEntryWithOptions :: "string \<Rightarrow> string \<Rightarrow> string list \<Rightarrow> 'w \<Rightarrow> gerror option \<times> 'w"
  SaveAllSets :: "'w \<Rightarrow> (gerror + string) \<times> 'w"

definition IPSetCmd :: string where "IPSetCmd = ''ipset''"

definition ipset_run :: "'w Exec \<Rightarrow> string list \<Rightarrow> 'w \<Rightarrow> (string \<times> exec_err option) \<times> 'w" where
  "ipset_run ex args w = CombinedOutput ex IPSetCmd args [] w"

text \<open>A command of which only the error matters, which \<open>wrap\<close> turns into a message.\<close>

definition ipset_do :: "'w Exec \<Rightarrow> string list \<Rightarrow> (exec_err \<Rightarrow> string \<Rightarrow> gerror) \<Rightarrow> 'w \<Rightarrow> gerror option \<times> 'w" where
  "ipset_do ex args wrap w =
     (case ipset_run ex args w of ((out, err), w') \<Rightarrow> (map_option (\<lambda>e. wrap e out) err, w'))"

definition set_defaults :: "IPSet \<Rightarrow> IPSet" where
  "set_defaults st =
     (let st = (if isHashSize st = 0 then st\<lparr>isHashSize := 1024\<rparr> else st);
          st = (if isMaxElem st = 0 then st\<lparr>isMaxElem := 65536\<rparr> else st);
          st = (if isHashFamily st = [] then st\<lparr>isHashFamily := ProtocolFamilyIPV4\<rparr> else st);
          st = (if isSetType st = [] then st\<lparr>isSetType := HashIPPort\<rparr> else st)
      in if isPortRange st = [] then st\<lparr>isPortRange := DefaultPortRange\<rparr> else st)"

definition createSet_args :: "IPSet \<Rightarrow> bool \<Rightarrow> string list" where
  "createSet_args st ignoreExistErr =
     [''create'', isName st, isSetType st] @
     (if isSetType st = HashIPPortIP \<or> isSetType st = HashIPPort
      then [''family'', isHashFamily st, ''hashsize'', Itoa (isHashSize st), ''maxelem'', Itoa (isMaxElem st)]
      else []) @
     (if isSetType st = BitmapPort then [''range'', isPortRange st] else []) @
     (if ignoreExistErr then [''-exist''] else [])"

definition createSet :: "'w Exec \<Rightarrow> IPSet \<Rightarrow> bool \<Rightarrow> 'w \<Rightarrow> gerror option \<times> 'w" where
  "createSet ex st ignoreExistErr w =
     ipset_do ex (createSet_args st ignoreExistErr)
       (\<lambda>e _. ''error creating ipset '' @ isName st @ '', error: '' @ err_text e) w"

text \<open>\<open>CreateSet\<close> writes the defaults into the caller's set, which is part of the result.\<close>

definition runner_CreateSet :: "'w Exec \<Rightarrow> IPSet \<Rightarrow> bool \<Rightarrow> 'w \<Rightarrow> (gerror option \<times> IPSet) \<times> 'w" where
  "runner_CreateSet ex st ignoreExistErr w =
     (let st = set_defaults st
      in if \<not> IPSet_Validate st then ((Some ''error creating ipset since it's invalid'', st), w)
         else case createSet ex st ignoreExistErr w of (err, w') \<Rightarrow> ((err, st), w'))"

definition runner_AddEntry :: "'w Exec \<Rightarrow> string \<Rightarrow> IPSet \<Rightarrow> bool \<Rightarrow> 'w \<Rightarrow> gerror option \<times> 'w" where
  "runner_AddEntry ex entry st ignoreExistErr w =
     ipset_do ex ([''add'', isName st, entry] @ (if ignoreExistErr then [''-exist''] else []))
       (\<lambda>e _. ''error adding entry '' @ entry @ '', error: '' @ err_text e) w"

definition runner_AddEntryWithOptions :: "'w Exec \<Rightarrow> Entry \<Rightarrow> IPSet \<Rightarrow> bool \<Rightarrow> 'w \<Rightarrow> gerror option \<times> 'w" where
  "runner_AddEntryWithOptions ex entry st ignoreExistErr w =
     ipset_do ex ([''add''] @ (if ignoreExistErr then [''-exist''] else []) @ [isName st, Entry_String entry] @ eOptions entry)
       (\<lambda>e _. ''error adding entry '' @ Entry_String entry @ '', error: '' @ err_text e) w"

definition runner_DelEntry :: "'w Exec \<Rightarrow> string \<Rightarrow> string \<Rightarrow> 'w \<Rightarrow> gerror option \<times> 'w" where
  "runner_DelEntry ex entry st w =
     ipset_do ex [''del'', st, entry]
       (\<lambda>e _. ''error deleting entry '' @ entry @ '': from set: '' @ st @ '', error: '' @ err_text e) w"

definition runner_DelEntryWithOptions :: "'w Exec \<Rightarrow> string \<Rightarrow> string \<Rightarrow> string list \<Rightarrow> 'w \<Rightarrow> gerror option \<times> 'w" where
  "runner_DelEntryWithOptions ex st entry options w =
     ipset_do ex [''del'', st, entry]
       (\<lambda>e _. ''error deleting entry '' @ entry @ '': from set: '' @ st @ '', error: '' @ err_text e) w"

definition runner_TestEntry :: "'w Exec \<Rightarrow> string \<Rightarrow> string \<Rightarrow> 'w \<Rightarrow> (gerror + bool) \<times> 'w" where
  "runner_TestEntry ex entry st w =
     (case ipset_run ex [''test'', st, entry] w of
        ((out, None), w') \<Rightarrow> (Inr (\<not> MatchString (Lit ''NOT'') out), w')
      | ((out, Some err), w') \<Rightarrow>
          (Inl (''error testing entry '' @ entry @ '': '' @ err_text err @ '' ('' @ out @ '')''), w'))"

definition runner_FlushSet :: "'w Exec \<Rightarrow> string \<Rightarrow> 'w \<Rightarrow> gerror option \<times> 'w" where
  "runner_FlushSet ex st w =
     ipset_do ex [''flush'', st] (\<lambda>e _. ''error flushing set: '' @ st @ '', error: '' @ err_text e) w"

definition runner_DestroySet :: "'w Exec \<Rightarrow> string \<Rightarrow> 'w \<Rightarrow> gerror option \<times> 'w" where
  "runner_DestroySet ex st w =
     ipset_do ex [''destroy'', st]
       (\<lambda>e out. ''error destroying set '' @ st @ '', error: '' @ err_text e @ ''('' @ out @ '')'') w"

definition runner_DestroyAllSets :: "'w Exec \<Rightarrow> 'w \<Rightarrow> gerror option \<times> 'w" where
  "runner_DestroyAllSets ex w =
     ipset_do ex [''destroy''] (\<lambda>e _. ''error destroying all sets, error: '' @ err_text e) w"

definition runner_ListSets :: "'w Exec \<Rightarrow> 'w \<Rightarrow> (gerror + string list) \<times> 'w" where
  "runner_ListSets ex w =
     (case ipset_run ex [''list'', ''-n''] w of
        ((out, Some err), w') \<Rightarrow> (Inl (''error listing all sets, error: '' @ err_text err), w')
      | ((out, None), w') \<Rightarrow> (Inr (Split out nl), w'))"

definition EntryMemberPattern :: re where
  "EntryMemberPattern = Seq BolM (Seq (Star (Grp 1 (Seq (Star dot) (Lit [nl])))) (Lit (''Members:'' @ [nl])))"

definition list_members :: "string \<Rightarrow> string list" where
  "list_members out =
     filter (\<lambda>s. 0 < length s) (Split (ReplaceAllString EntryMemberPattern out (\<lambda>_. [])) nl)"

definition runner_ListEntries :: "'w Exec \<Rightarrow> string \<Rightarrow> 'w \<Rightarrow> (gerror + string list) \<times> 'w" where
  "runner_ListEntries ex st w =
     (if length st = 0 then (Inl ''set name can't be nil'', w)
      else case ipset_run ex [''list'', st] w of
             ((out, Some err), w') \<Rightarrow> (Inl (''error listing set: '' @ st @ '', error: '' @ err_text err), w')
           | ((out, None), w') \<Rightarrow> (Inr (list_members out), w'))"

definition VersionPattern :: re where
  "VersionPattern = Seq (Lit ''v'') (Seq (Plus digit) (Seq (Lit ''.'') (Plus digit)))"

definition getIPSetVersionString :: "'w Exec \<Rightarrow> 'w \<Rightarrow> (gerror + string) \<times> 'w" where
  "getIPSetVersionString ex w =
     (case ipset_run ex [''--version''] w of
        ((bytes, Some err), w') \<Rightarrow> (Inl (err_text err), w')
      | ((bytes, None), w') \<Rightarrow>
          (case FindStringSubmatch VersionPattern bytes of
             None \<Rightarrow> (Inl (''no ipset version found in string: '' @ bytes), w')
           | Some mt \<Rightarrow> (Inr (mt 0), w')))"

definition runner_SaveAllSets :: "'w Exec \<Rightarrow> 'w \<Rightarrow> (gerror + string) \<times> 'w" where
  "runner_SaveAllSets ex w =
     (case ipset_run ex [''list''] w of
        ((out, Some err), w') \<Rightarrow> (Inl (''error saving all sets, error: '' @ err_text err), w')
      | ((out, None), w') \<Rightarrow> (Inr out, w'))"

definition ipset_New :: "'w Exec \<Rightarrow> 'w ipset_Interface" where
  "ipset_New ex =
     \<lparr>FlushSet = runner_FlushSet ex, DestroySet = runner_DestroySet ex, DestroyAllSets = runner_DestroyAllSets ex,
      CreateSet = runner_CreateSet ex, AddEntry = runner_AddEntry ex, DelEntry = runner_DelEntry ex,
      TestEntry = runner_TestEntry ex, ListEntries = runner_ListEntries ex, ListSets = runner_ListSets ex,
      ipset_GetVersion = getIPSetVersionString ex, AddEntryWithOptions = runner_AddEntryWithOptions ex,
      DelEntryWithOptions = runner_DelEntryWithOptions ex, SaveAllSets = runner_SaveAllSets ex\<rparr>"

definition ipset_IsNotFoundError :: "gerror \<Rightarrow> bool" where
  "ipset_IsNotFoundError es \<longleftrightarrow> Contains es ''does not exist'' \<or> Contains es ''element is missing''"

end
