(* ===== verification/Version.thy ===== *)
theory Version
  imports Regex
begin

text \<open>
  \<^verbatim>\<open>utils/version/version.go\<close>: parsing, printing and comparing version numbers.
\<close>

record Version =
  components :: "nat list"
  semver :: bool
  preRelease :: string
  buildMetadata :: string

datatype version_error =
    CouldNotParse string
  | IllegalVersion string
  | ZeroPrefixed string string
  | NonNumeric string string gerror
  | BadExtra string string

fun version_error_text :: "version_error \<Rightarrow> gerror" where
  "version_error_text (CouldNotParse str) = ''could not parse '' @ Quote str @ '' as version''"
| "version_error_text (IllegalVersion str) = ''illegal version string '' @ Quote str"
| "version_error_text (ZeroPrefixed cpt str) = ''illegal zero-prefixed version component '' @ Quote cpt @ '' in '' @ Quote str"
| "version_error_text (NonNumeric cpt str err) =
     ''illegal non-numeric version component '' @ Quote cpt @ '' in '' @ Quote str @ '': '' @ err"
| "version_error_text (BadExtra extra str) =
     ''could not parse pre-release/metadata ('' @ extra @ '') in version '' @ Quote str"

definition re_space :: "char \<Rightarrow> bool" where
  "re_space c \<longleftrightarrow> c \<in> {tab, nl, CHR 0x0C, CHR 0x0D, CHR '' ''}"

definition dot_digits :: re where
  "dot_digits = Seq (Lit ''.'') (Plus digit)"

definition versionMatchRE :: re where
  "versionMatchRE =
     Seq Bol (Seq (Star (Cls re_space)) (Seq (Opt (Lit ''v''))
       (Seq (Grp 1 (Seq (Plus digit) (Star dot_digits))) (Seq (Star (Grp 2 (Star dot))) Eol))))"

definition ident_char :: "char \<Rightarrow> bool" where
  "ident_char c \<longleftrightarrow> is_digit c \<or> CHR ''A'' \<le> c \<and> c \<le> CHR ''Z'' \<or> CHR ''a'' \<le> c \<and> c \<le> CHR ''z'' \<or> c = CHR ''-''"

definition dotted :: "(char \<Rightarrow> bool) \<Rightarrow> re" where
  "dotted P = Seq (Plus (Cls P)) (Star (Seq (Lit ''.'') (Plus (Cls P))))"

definition extraMatchRE :: re where
  "extraMatchRE =
     Seq Bol (Seq (Opt (Seq (Lit ''-'') (Grp 1 (dotted ident_char))))
       (Seq (Opt (Seq (Lit ''+'') (Grp 2 (dotted ident_char)))) (Seq (Star (Cls re_space)) Eol)))"

definition zero_prefixed :: "string \<Rightarrow> bool" where
  "zero_prefixed w \<longleftrightarrow> HasPrefix w ''0'' \<and> w \<noteq> ''0''"

fun parse_components :: "string \<Rightarrow> bool \<Rightarrow> nat \<Rightarrow> string list \<Rightarrow> version_error + nat list" where
  "parse_components str sv i [] = Inr []"
| "parse_components str sv i (w # comps) =
     (if (i = 0 \<or> sv) \<and> zero_prefixed w then Inl (ZeroPrefixed w str)
      else case ParseUint w of
             Inl err \<Rightarrow> Inl (NonNumeric w str err)
           | Inr num \<Rightarrow>
               (case parse_components str sv (Suc i) comps of
                  Inl e \<Rightarrow> Inl e | Inr ns \<Rightarrow> Inr (num # ns)))"

fun check_preRelease :: "string \<Rightarrow> string list \<Rightarrow> version_error option" where
  "check_preRelease str [] = None"
| "check_preRelease str (w # comps) =
     (case ParseUint w of
        Inr _ \<Rightarrow> if zero_prefixed w then Some (ZeroPrefixed w str) else check_preRelease str comps
      | Inl _ \<Rightarrow> check_preRelease str comps)"

definition parse :: "string \<Rightarrow> bool \<Rightarrow> version_error + Version" where
  "parse str sv =
     (case FindStringSubmatch versionMatchRE str of
        None \<Rightarrow> Inl (CouldNotParse str)
      | Some parts \<Rightarrow>
          (let numbers = parts 1; extra = parts 2; comps = Split numbers (CHR ''.'')
           in if (sv \<and> length comps \<noteq> 3) \<or> (\<not> sv \<and> length comps < 2) then Inl (IllegalVersion str)
              else case parse_components str sv 0 comps of
                     Inl e \<Rightarrow> Inl e
                   | Inr ns \<Rightarrow>
                       (let v = \<lparr>components = ns, semver = sv, preRelease = [], buildMetadata = []\<rparr>
                        in if sv \<and> extra \<noteq> []
                           then case FindStringSubmatch extraMatchRE extra of
                                  None \<Rightarrow> Inl (BadExtra extra str)
                                | Some ex \<Rightarrow>
                                    (case check_preRelease str (Split (ex 1) (CHR ''.'')) of
                                       Some e \<Rightarrow> Inl e
                                     | None \<Rightarrow> Inr (v\<lparr>preRelease := ex 1, buildMetadata := ex 2\<rparr>))
                           else Inr v)))"

definition ParseGeneric :: "string \<Rightarrow> version_error + Version" where
  "ParseGeneric str = parse str False"

definition MustParseGeneric :: "string \<Rightarrow> Version gocall" where
  "MustParseGeneric str = (case ParseGeneric str of Inl _ \<Rightarrow> Panics | Inr v \<Rightarrow> Returns v)"

definition ParseSemantic :: "string \<Rightarrow> version_error + Version" where
  "ParseSemantic str = parse str True"

definition MustParseSemantic :: "string \<Rightarrow> Version gocall" where
  "MustParseSemantic str = (case ParseSemantic str of Inl _ \<Rightarrow> Panics | Inr v \<Rightarrow> Returns v)"

text \<open>\<open>v.components[0]\<close> and \<open>v.components[1]\<close> panic on a version that has fewer components.\<close>

definition component_at :: "Version \<Rightarrow> nat \<Rightarrow> nat gocall" where
  "component_at v i = (if i < length (components v) then Returns (components v ! i) else Panics)"

definition Major :: "Version \<Rightarrow> nat gocall" where "Major v = component_at v 0"
definition Minor :: "Version \<Rightarrow> nat gocall" where "Minor v = component_at v 1"
definition Patch :: "Version \<Rightarrow> nat gocall" where
  "Patch v = (if length (components v) < 3 then Returns 0 else component_at v 2)"

definition BuildMetadata :: "Version \<Rightarrow> string" where "BuildMetadata v = buildMetadata v"
definition PreRelease :: "Version \<Rightarrow> string" where "PreRelease v = preRelease v"
definition Components :: "Version \<Rightarrow> nat list" where "Components v = components v"

definition Version_String :: "Version \<Rightarrow> string" where
  "Version_String v =
     Join (map show_nat (components v)) ''.'' @
     (if preRelease v \<noteq> [] then ''-'' @ preRelease v else []) @
     (if buildMetadata v \<noteq> [] then ''+'' @ buildMetadata v else [])"

subsection \<open>Comparison\<close>

fun onlyZeros :: "nat list \<Rightarrow> bool" where
  "onlyZeros [] = True"
| "onlyZeros (num # array) = (if num \<noteq> 0 then False else onlyZeros array)"

fun cmp_components :: "nat list \<Rightarrow> nat list \<Rightarrow> int option" where
  "cmp_components (v # vs) (w # ws) =
     (if w < v then Some 1 else if w > v then Some (- 1) else cmp_components vs ws)"
| "cmp_components _ _ = None"

fun cmp_preRelease :: "string list \<Rightarrow> string list \<Rightarrow> int option" where
  "cmp_preRelease (v # vs) (w # ws) =
     (case (ParseUint v, ParseUint w) of
        (Inr vNum, Inr oNum) \<Rightarrow>
          if oNum < vNum then Some 1 else if oNum > vNum then Some (- 1) else cmp_preRelease vs ws
      | _ \<Rightarrow> if w < v then Some 1 else if w > v then Some (- 1) else cmp_preRelease vs ws)"
| "cmp_preRelease _ _ = None"

definition compareInternal :: "Version \<Rightarrow> Version \<Rightarrow> int" where
  "compareInternal v ov =
     (let vLen = length (components v); oLen = length (components ov) in
      case cmp_components (components v) (components ov) of
        Some r \<Rightarrow> r
      | None \<Rightarrow>
          if oLen < vLen \<and> \<not> onlyZeros (drop oLen (components v)) then 1
          else if oLen > vLen \<and> \<not> onlyZeros (drop vLen (components ov)) then - 1
          else if \<not> semver v \<or> \<not> semver ov then 0
          else if preRelease v = [] \<and> preRelease ov \<noteq> [] then 1
          else if preRelease v \<noteq> [] \<and> preRelease ov = [] then - 1
          else if preRelease v = preRelease ov then 0
          else let vPR = Split (preRelease v) (CHR ''.''); oPR = Split (preRelease ov) (CHR ''.'') in
            case cmp_preRelease vPR oPR of
              Some r \<Rightarrow> r
            | None \<Rightarrow> if length oPR < length vPR then 1 else if length oPR > length vPR then - 1 else 0)"

definition AtLeast :: "Version \<Rightarrow> Version \<Rightarrow> bool" where
  "AtLeast v mn = (compareInternal v mn \<noteq> - 1)"

definition LessThan :: "Version \<Rightarrow> Version \<Rightarrow> bool" where
  "LessThan v ov = (compareInternal v ov = - 1)"

definition Compare :: "Version \<Rightarrow> string \<Rightarrow> version_error + int" where
  "Compare v ov = (case parse ov (semver v) of Inl e \<Rightarrow> Inl e | Inr w \<Rightarrow> Inr (compareInternal v w))"

subsection \<open>The order\<close>

text \<open>Components without trailing zeros, the form in which \<open>1.4\<close> and \<open>1.4.0\<close> are the same.\<close>

definition strip :: "nat list \<Rightarrow> nat list" where
  "strip ns = rev (dropWhile (\<lambda>n. n = 0) (rev ns))"

lemma onlyZeros_strip: "onlyZeros ns \<longleftrightarrow> strip ns = []"
  by (induction ns) (auto simp: strip_def dropWhile_append)

lemma strip_Cons: "strip (n # ns) = (if n = 0 \<and> strip ns = [] then [] else n # strip ns)"
  by (auto simp: strip_def dropWhile_append)

lemma cmp_components_anti: "cmp_components vs ws = map_option uminus (cmp_components ws vs)"
  by (induction vs ws rule: cmp_components.induct) (auto split: list.splits)

lemma cmp_preRelease_anti: "cmp_preRelease vs ws = map_option uminus (cmp_preRelease ws vs)"
  by (induction vs ws rule: cmp_preRelease.induct) (auto split: sum.splits)

text \<open>The numeric part of the comparison is the lexicographic order of the stripped components.\<close>

definition cmp_numeric :: "nat list \<Rightarrow> nat list \<Rightarrow> int" where
  "cmp_numeric vs ws = (if strip vs < strip ws then - 1 else if strip ws < strip vs then 1 else 0)"

definition num_result :: "nat list \<Rightarrow> nat list \<Rightarrow> int" where
  "num_result vs ws =
     (case cmp_components vs ws of
        Some r \<Rightarrow> r
      | None \<Rightarrow> if length ws < length vs \<and> \<not> onlyZeros (drop (length ws) vs) then 1
              else if length ws > length vs \<and> \<not> onlyZeros (drop (length vs) ws) then - 1 else 0)"

lemma strip_Nil [simp]: "strip [] = []"
  by (simp add: strip_def)

lemma cmp_numeric_Cons:
  "cmp_numeric (v # vs) (w # ws) = (if w < v then 1 else if w > v then - 1 else cmp_numeric vs ws)"
  by (cases "strip vs"; cases "strip ws") (auto simp: cmp_numeric_def strip_Cons)

lemma num_result_spec: "num_result vs ws = cmp_numeric vs ws"
proof (induction vs ws rule: cmp_components.induct [case_names both left right])
  case (both v vs w ws)
  have "num_result (v # vs) (w # ws) = (if w < v then 1 else if w > v then - 1 else num_result vs ws)"
    by (auto simp: num_result_def)
  then show ?case using both by (simp add: cmp_numeric_Cons)
next
  case (left ws)
  then show ?case by (cases "strip ws") (auto simp: num_result_def cmp_numeric_def onlyZeros_strip)
next
  case (right vs)
  then show ?case by (cases "strip vs") (auto simp: num_result_def cmp_numeric_def onlyZeros_strip)
qed

text \<open>
  For versions that are not both semantic the comparison is the lexicographic order of the
  numeric components with missing components read as zero; so \<open>AtLeast\<close> is reflexive,
  transitive and total there, and \<open>1.4\<close> equals \<open>1.4.0\<close>.
\<close>

theorem compare_generic:
  assumes "\<not> semver v \<or> \<not> semver w"
  shows "compareInternal v w =
    (if strip (components v) < strip (components w) then - 1
     else if strip (components w) < strip (components v) then 1 else 0)"
proof -
  have "compareInternal v w = num_result (components v) (components w)"
    using assms by (auto simp: compareInternal_def num_result_def Let_def)
  then show ?thesis by (simp add: num_result_spec cmp_numeric_def)
qed

theorem compare_generic_witness:
  "compareInternal \<lparr>components = [1, 4], semver = False, preRelease = [], buildMetadata = []\<rparr>
     \<lparr>components = [1, 4, 0], semver = True, preRelease = ''rc'', buildMetadata = []\<rparr> = 0"
  using compare_generic [of "\<lparr>components = [1, 4], semver = False, preRelease = [], buildMetadata = []\<rparr>"
      "\<lparr>components = [1, 4, 0], semver = True, preRelease = ''rc'', buildMetadata = []\<rparr>"]
  by (simp add: strip_def)

text \<open>
  The comparison is antisymmetric: swapping the two versions negates the result, so
  \<open>LessThan\<close> and \<open>AtLeast\<close> never contradict each other.
\<close>

theorem compare_antisym: "compareInternal v w = - compareInternal w v"
  using cmp_components_anti [of "components v" "components w"]
    cmp_preRelease_anti [of "Split (preRelease v) (CHR ''.'')" "Split (preRelease w) (CHR ''.'')"]
  by (auto simp: compareInternal_def Let_def split: option.splits)

text \<open>Two versions that differ in their pre-release only, which is one field in the first.\<close>

definition semantic :: "nat list \<Rightarrow> string \<Rightarrow> Version" where
  "semantic ns s = \<lparr>components = ns, semver = True, preRelease = s, buildMetadata = []\<rparr>"

lemma cmp_components_same [simp]: "cmp_components ns ns = None"
  by (induction ns) auto

lemma show_nat_length_mono: "a \<le> b \<Longrightarrow> length (show_nat a) \<le> length (show_nat b)"
proof (induction b arbitrary: a rule: show_nat.induct)
  case (1 b)
  show ?case
  proof (cases "b < 10")
    case False
    show ?thesis
    proof (cases "a < 10")
      case True
      then show ?thesis using False by (simp add: show_nat.simps [of a] show_nat.simps [of b])
    next
      case False
      have "a div 10 \<le> b div 10" using 1(2) by (rule div_le_mono)
      from 1(1) [OF \<open>\<not> b < 10\<close> this] show ?thesis
        using False \<open>\<not> b < 10\<close> by (simp add: show_nat.simps [of a] show_nat.simps [of b])
    qed
  qed (use 1 in \<open>simp add: show_nat.simps [of a] show_nat.simps [of b]\<close>)
qed

lemma show_nat_no_dot: "CHR ''.'' \<notin> set (show_nat n)"
  using show_nat_digits [of n] by (auto simp: list_all_iff is_digit_def)

lemma show_nat_one_field: "Split (show_nat n) (CHR ''.'') = [show_nat n]"
  by (rule Split_single [OF show_nat_no_dot])

lemma LessThan_semantic:
  assumes "s \<noteq> []" "t \<noteq> []" "s \<noteq> t"
  shows "LessThan (semantic ns s) (semantic ns t) \<longleftrightarrow>
    (case cmp_preRelease (Split s (CHR ''.'')) (Split t (CHR ''.'')) of
       Some r \<Rightarrow> r = - 1 | None \<Rightarrow> length (Split s (CHR ''.'')) < length (Split t (CHR ''.'')))"
  using assms by (auto simp: LessThan_def compareInternal_def semantic_def Let_def split: option.split)

text \<open>A number of a pre-release, its text followed by a letter, and a number whose text comes later.\<close>

lemma suffixed:
  assumes "b < 2 ^ 64"
  shows "Split (show_nat b @ ''a'') (CHR ''.'') = [show_nat b @ ''a'']" "\<nexists>n. ParseUint (show_nat b @ ''a'') = Inr n"
    "show_nat b < show_nat b @ ''a''"
proof -
  show "Split (show_nat b @ ''a'') (CHR ''.'') = [show_nat b @ ''a'']"
    using show_nat_no_dot [of b] by (intro Split_single) simp
  have "takeWhile is_digit (show_nat b @ ''a'') = show_nat b"
    using show_nat_digits [of b] by (simp add: list_all_iff is_digit_def)
  then show "\<nexists>n. ParseUint (show_nat b @ ''a'') = Inr n" by (simp add: ParseUint_def Let_def)
  show "show_nat b < show_nat b @ ''a''" unfolding list_less_def by (rule lexord_append_rightI) simp
qed

lemma suffixed_below:
  assumes "a < b" "show_nat b < show_nat a"
  shows "show_nat b @ t < show_nat a"
proof -
  have "length (show_nat a) \<le> length (show_nat b)" using assms(1) by (intro show_nat_length_mono) simp
  from lexord_sufI [OF assms(2) [unfolded list_less_def] this, of t "[]"] show ?thesis by (simp add: list_less_def)
qed

text \<open>
  C37. The comparison of semantic versions is not an order: two numeric pre-release fields are
  compared as numbers, but a numeric and an alphanumeric one as strings. Exactly: when \<open>a\<close> is a
  smaller number than \<open>b\<close>, there is a pre-release above \<open>b\<close> and below \<open>a\<close>, so a cycle, if and only if the
  text of \<open>b\<close> comes before that of \<open>a\<close>.
\<close>

theorem LessThan_cycle:
  assumes "a < b" "b < 2 ^ 64"
  shows "LessThan (semantic ns (show_nat a)) (semantic ns (show_nat b)) \<and>
    ((\<exists>s. LessThan (semantic ns (show_nat b)) (semantic ns s) \<and> LessThan (semantic ns s) (semantic ns (show_nat a))) \<longleftrightarrow>
     show_nat b < show_nat a)"
proof (intro conjI iffI)
  note pa = ParseUint_show_nat [of a] and pb = ParseUint_show_nat [OF assms(2)]
  note one = show_nat_one_field
  have ab: "show_nat a \<noteq> show_nat b" using pa pb assms by auto
  then show "LessThan (semantic ns (show_nat a)) (semantic ns (show_nat b))"
    using assms pa pb by (simp add: LessThan_semantic one)
  show "\<exists>s. LessThan (semantic ns (show_nat b)) (semantic ns s) \<and> LessThan (semantic ns s) (semantic ns (show_nat a))"
    if "show_nat b < show_nat a"
  proof (intro exI conjI)
    let ?s = "show_nat b @ ''a''"
    note s = suffixed [OF assms(2)] suffixed_below [OF assms(1) that, of "''a''"]
    obtain err where e: "ParseUint ?s = Inl err" using s(2) by (cases "ParseUint ?s") auto
    show "LessThan (semantic ns (show_nat b)) (semantic ns ?s)"
      using s pb e by (simp add: LessThan_semantic one)
    show "LessThan (semantic ns ?s) (semantic ns (show_nat a))"
      using s e less_imp_neq [OF s(4)] by (simp add: LessThan_semantic one split: sum.split)
  qed
next
  note pa = ParseUint_show_nat [of a] and pb = ParseUint_show_nat [OF assms(2)]
  note one = show_nat_one_field
  assume "\<exists>s. LessThan (semantic ns (show_nat b)) (semantic ns s) \<and> LessThan (semantic ns s) (semantic ns (show_nat a))"
  then obtain s where s: "LessThan (semantic ns (show_nat b)) (semantic ns s)" "LessThan (semantic ns s) (semantic ns (show_nat a))"
    by blast
  have ne: "s \<noteq> []" using s(2) by (auto simp: LessThan_def compareInternal_def semantic_def Let_def)
  have ne_a: "show_nat a \<noteq> []" and ne_b: "show_nat b \<noteq> []" by simp_all
  have irr: "\<not> LessThan v v" for v by (auto simp: LessThan_def compareInternal_def Let_def split: option.splits)
  have neq: "show_nat b \<noteq> s" "s \<noteq> show_nat a" using s irr by auto
  obtain f fs where sp: "Split s (CHR ''.'') = f # fs" by (cases "Split s (CHR ''.'')") auto
  from s(1) s(2) show "show_nat b < show_nat a"
    using assms pa pb neq ne unfolding LessThan_semantic [OF ne_b ne neq(1)] LessThan_semantic [OF ne ne_a neq(2)] one sp
    by (auto split: sum.splits option.splits if_splits)
qed

theorem LessThan_cycle_witness:
  "LessThan (semantic [1, 0, 0] ''2'') (semantic [1, 0, 0] ''10'') \<and>
   (\<exists>s. LessThan (semantic [1, 0, 0] ''10'') (semantic [1, 0, 0] s) \<and> LessThan (semantic [1, 0, 0] s) (semantic [1, 0, 0] ''2''))"
proof -
  have t: "show_nat 2 = ''2''" "show_nat 10 = ''10''" by (simp_all add: go_eval)
  have "''10'' < ''2''" by simp
  with LessThan_cycle [of 2 10 "[1, 0, 0]", unfolded t] show ?thesis by simp
qed

subsection \<open>Printing and parsing\<close>

lemma star_dotted_first:
  assumes "length s \<le> n" "s = concat (map (\<lambda>w. CHR ''.'' # w) ws) @ v"
    and "\<forall>w \<in> set ws. w \<noteq> [] \<and> list_all P w" "v = [] \<or> hd v \<noteq> CHR ''.'' \<and> \<not> P (hd v)" "\<not> P (CHR ''.'')"
    and "k (last_char p (concat (map (\<lambda>w. CHR ''.'' # w) ws)), v, c) = Some x"
  shows "star (m (Seq (Lit ''.'') (Plus (Cls P)))) n (p, s, c) k = Some x"
  using assms(1-3,6)
proof (induction ws arbitrary: n s p)
  case Nil
  then show ?case using assms(4) by (cases n; cases v) auto
next
  case (Cons w ws)
  let ?u = "concat (map (\<lambda>w. CHR ''.'' # w) ws)"
  obtain n' where n: "n = Suc n'" using Cons.prems by (cases n) auto
  have hd: "?u @ v = [] \<or> \<not> P (hd (?u @ v))" using assms(4,5) by (cases ws) auto
  let ?q = "last_char (Some (CHR ''.'')) w"
  have rec: "star (m (Seq (Lit ''.'') (Plus (Cls P)))) n' (?q, ?u @ v, c) k = Some x"
    using Cons.prems n by (intro Cons.IH) (auto simp: last_char_append)
  let ?K = "\<lambda>st'. if length (rest st') < length (rest (p, s, c))
      then star (m (Seq (Lit ''.'') (Plus (Cls P)))) n' st' k else None"
  have "m (Plus (Cls P)) (Some (CHR ''.''), w @ ?u @ v, c) ?K = Some x"
    using Cons.prems(2,3) hd rec by (intro Plus_Cls_first) (auto simp: rest_def)
  then have "m (Seq (Lit ''.'') (Plus (Cls P))) (p, s, c) ?K = Some x"
    using Cons.prems(2) by simp
  then show ?case unfolding n by (rule star_step)
qed

lemma dotted_first:
  assumes "ws \<noteq> []" "\<forall>w \<in> set ws. w \<noteq> [] \<and> list_all P w"
    and "v = [] \<or> hd v \<noteq> CHR ''.'' \<and> \<not> P (hd v)" "\<not> P (CHR ''.'')"
    and "k (last_char p (Join ws ''.''), v, c) = Some x"
  shows "m (dotted P) (p, Join ws ''.'' @ v, c) k = Some x"
proof -
  obtain w us where ws: "ws = w # us" using assms(1) by (cases ws) auto
  let ?u = "concat (map (\<lambda>w. CHR ''.'' # w) us)"
  have join: "Join ws ''.'' = w @ ?u"
    unfolding ws by (induction us arbitrary: w) auto
  have hd: "?u @ v = [] \<or> \<not> P (hd (?u @ v))" using assms(3,4) by (cases us) auto
  have "m (Star (Seq (Lit ''.'') (Plus (Cls P)))) (last_char p w, ?u @ v, c) k = Some x"
    unfolding m.simps(5)
    by (rule star_dotted_first) (use assms ws join in \<open>auto simp: rest_def last_char_append\<close>)
  then have "m (Plus (Cls P)) (p, w @ ?u @ v, c) (\<lambda>st'. m (Star (Seq (Lit ''.'') (Plus (Cls P)))) st' k) = Some x"
    using assms(2) ws hd by (intro Plus_Cls_first) auto
  then show ?thesis
    unfolding join dotted_def by simp
qed

lemma star_rest_line:
  assumes "nl \<notin> set e" "k (last_char p e, [], if e = [] then c else c(2 := e)) = Some x"
  shows "m (Star (Grp 2 (Star dot))) (p, e, c) k = Some x"
proof (cases "e = []")
  case True
  then show ?thesis using assms(2) by (simp add: rest_def)
next
  case False
  then obtain n where n: "length e = Suc n" by (cases e) auto
  let ?f = "m (Grp 2 (Star dot))"
  have stop: "star ?f i (last_char p e, [], c(2 := e)) k = Some x" for i
    using assms(2) False by (cases i) (auto simp: rest_def dot_def)
  let ?K = "\<lambda>st'. if length (rest st') < length (rest (p, e, c)) then star ?f n st' k else None"
  have "m (Star (Cls (\<lambda>c. c \<noteq> nl))) (p, e @ [], c) (\<lambda>(p', s', c'). ?K (p', s', c'(2 := take (length e - length s') e))) = Some x"
    using assms(1) stop False by (intro Star_Cls_first) (auto simp: rest_def list_all_iff)
  then have "?f (p, e, c) ?K = Some x" by (simp add: dot_def)
  then show ?thesis using n by (simp add: rest_def)
qed

lemma Join_hd: "ws \<noteq> [] \<Longrightarrow> hd ws \<noteq> [] \<Longrightarrow> Join ws sep \<noteq> [] \<and> hd (Join ws sep) = hd (hd ws)"
  by (cases "(ws, sep)" rule: Join.cases) auto

lemma versionMatch_numbers:
  assumes "ws \<noteq> []" "\<forall>w \<in> set ws. w \<noteq> [] \<and> list_all is_digit w"
    and "e = [] \<or> hd e \<noteq> CHR ''.'' \<and> \<not> is_digit (hd e)" "nl \<notin> set e"
  shows "\<exists>g. FindStringSubmatch versionMatchRE (Join ws ''.'' @ e) = Some g \<and> g 1 = Join ws ''.'' \<and> g 2 = e"
proof -
  let ?j = "Join ws ''.''"
  define c where "c = (\<lambda>_. [] :: string)(Suc 0 := ?j)"
  define c' where "c' = (if e = [] then c else c(2 := e))"
  obtain a j where j: "?j = a # j" "is_digit a"
    using Join_hd [of ws "''.''"] assms(1,2) by (cases ws; cases "?j") (auto simp: list_all_iff)
  have a: "\<not> re_space a" "a \<noteq> CHR ''v''" using j(2) by (auto simp: re_space_def is_digit_iff)
  define q where "q = last_char None ?j"
  have "m (Seq (Star (Grp 2 (Star dot))) Eol) (q, e, c) Some = Some (last_char q e, [], c')"
    using star_rest_line [OF assms(4), of "\<lambda>st. m Eol st Some" q c] by (simp add: c'_def)
  then have "m (dotted is_digit) (None, ?j @ e, \<lambda>_. [])
      (\<lambda>(p', s', c'). m (Seq (Star (Grp 2 (Star dot))) Eol) (p', s', c'(1 := take (length (?j @ e) - length s') (?j @ e))) Some) =
      Some (last_char q e, [], c')"
    using assms(1-3) by (intro dotted_first) (auto simp: q_def c_def)
  then have "m (Seq (Grp 1 (Seq (Plus digit) (Star dot_digits))) (Seq (Star (Grp 2 (Star dot))) Eol))
      (None, ?j @ e, \<lambda>_. []) Some = Some (last_char q e, [], c')"
    by (simp add: dotted_def digit_def dot_digits_def)
  then have "m (Seq (Opt (Lit ''v'')) (Seq (Grp 1 (Seq (Plus digit) (Star dot_digits))) (Seq (Star (Grp 2 (Star dot))) Eol)))
      (None, ?j @ e, \<lambda>_. []) Some = Some (last_char q e, [], c')"
    using a(2) by (simp add: Opt_def j(1))
  then have "m (Star (Cls re_space)) (None, [] @ ?j @ e, \<lambda>_. []) (\<lambda>st. m (Seq (Opt (Lit ''v''))
      (Seq (Grp 1 (Seq (Plus digit) (Star dot_digits))) (Seq (Star (Grp 2 (Star dot))) Eol))) st Some) =
      Some (last_char q e, [], c')"
    using a(1) j(1) by (intro Star_Cls_first) auto
  then have "match_here versionMatchRE None (?j @ e) = Some (last_char q e, [], c')"
    by (simp add: match_here_def versionMatchRE_def)
  then show ?thesis
    by (simp add: FindStringSubmatch_def find_from.simps [of versionMatchRE] c'_def c_def)
qed

definition dotted_ok :: "string \<Rightarrow> bool" where
  "dotted_ok s \<longleftrightarrow> s = [] \<or> (\<forall>w \<in> set (Split s (CHR ''.'')). w \<noteq> [] \<and> list_all ident_char w)"

definition no_zero_prefixed :: "string list \<Rightarrow> bool" where
  "no_zero_prefixed ws \<longleftrightarrow> (\<forall>w \<in> set ws. zero_prefixed w \<longrightarrow> (\<forall>n. ParseUint w \<noteq> Inr n))"

definition version_ok :: "Version \<Rightarrow> bool" where
  "version_ok v \<longleftrightarrow> (\<forall>n \<in> set (components v). n < 2 ^ 64) \<and>
     (if semver v then length (components v) = 3
      else 2 \<le> length (components v) \<and> preRelease v = [] \<and> buildMetadata v = []) \<and>
     dotted_ok (preRelease v) \<and> no_zero_prefixed (Split (preRelease v) (CHR ''.'')) \<and> dotted_ok (buildMetadata v)"

lemma check_preRelease_None: "check_preRelease str ws = None \<longleftrightarrow> no_zero_prefixed ws"
  by (induction ws) (auto simp: no_zero_prefixed_def split: sum.splits)

lemma ident_char_sep [simp]: "\<not> ident_char (CHR ''.'')" "\<not> ident_char (CHR ''+'')" "\<not> ident_char nl"
  "\<not> re_space (CHR ''+'')" "\<not> re_space (CHR ''-'')"
  by (simp_all add: ident_char_def is_digit_iff re_space_def less_eq_char_def)

lemma opt_group_first:
  assumes "dotted_ok s" "t = [] \<or> hd t \<noteq> a \<and> hd t \<noteq> CHR ''.'' \<and> \<not> ident_char (hd t)"
    and "k (last_char p (if s = [] then [] else a # s), t, if s = [] then c else c(n := s)) = Some x"
  shows "m (Opt (Seq (Lit [a]) (Grp n (dotted ident_char)))) (p, (if s = [] then [] else a # s) @ t, c) k = Some x"
proof (cases "s = []")
  case True
  then show ?thesis using assms(2,3) by (cases t) (auto simp: Opt_def)
next
  case False
  let ?ws = "Split s (CHR ''.'')"
  have "m (dotted ident_char) (Some a, Join ?ws ''.'' @ t, c)
      (\<lambda>(p', s', c'). k (p', s', c'(n := take (length (s @ t) - length s') (s @ t)))) = Some x"
    using assms False by (intro dotted_first) (auto simp: dotted_ok_def Join_Split)
  then show ?thesis
    using False by (simp add: Opt_def Join_Split)
qed

lemma extraMatch_parts:
  assumes "dotted_ok s" "dotted_ok b"
  shows "\<exists>g. FindStringSubmatch extraMatchRE
      ((if s = [] then [] else CHR ''-'' # s) @ (if b = [] then [] else CHR ''+'' # b)) = Some g \<and> g 1 = s \<and> g 2 = b"
proof -
  let ?u = "if s = [] then [] else CHR ''-'' # s" and ?w = "if b = [] then [] else CHR ''+'' # b"
  define c1 where "c1 = (if s = [] then (\<lambda>_. []) else (\<lambda>_. [])(1 :: nat := s))"
  define c2 where "c2 = (if b = [] then c1 else c1(2 := b))"
  let ?q = "last_char (last_char None ?u) ?w"
  have "m (Opt (Seq (Lit ''+'') (Grp 2 (dotted ident_char)))) (last_char None ?u, ?w @ [], c1)
      (\<lambda>st. m (Seq (Star (Cls re_space)) Eol) st Some) = Some (?q, [], c2)"
    using assms(2) by (intro opt_group_first) (auto simp: c2_def rest_def)
  then have "m (Opt (Seq (Lit ''-'') (Grp 1 (dotted ident_char)))) (None, ?u @ ?w, \<lambda>_. [])
      (\<lambda>st. m (Seq (Opt (Seq (Lit ''+'') (Grp 2 (dotted ident_char)))) (Seq (Star (Cls re_space)) Eol)) st Some) =
      Some (?q, [], c2)"
    using assms(1) by (intro opt_group_first) (auto simp: c1_def)
  then have "match_here extraMatchRE None (?u @ ?w) = Some (?q, [], c2)"
    unfolding match_here_def extraMatchRE_def m.simps(3) by simp
  then show ?thesis
    by (simp add: FindStringSubmatch_def find_from.simps [of extraMatchRE] c2_def c1_def)
qed

lemma show_nat_zero: "zero_prefixed (show_nat n) = False"
  using hd_show_nat_zero [of n]
  by (cases "show_nat n") (auto simp: zero_prefixed_def HasPrefix_def show_nat.simps [of 0] digit_char_def)

lemma parse_components_show:
  "\<forall>n \<in> set ns. n < 2 ^ 64 \<Longrightarrow> parse_components str sv i (map show_nat ns) = Inr ns"
  by (induction ns arbitrary: i) (simp_all add: show_nat_zero ParseUint_show_nat)

lemma set_Split: "x \<in> set s \<Longrightarrow> x = c \<or> (\<exists>w \<in> set (Split s c). x \<in> set w)"
  by (induction s) (auto split: list.splits)

lemma dotted_ok_no_nl: "dotted_ok s \<Longrightarrow> nl \<notin> set s"
  using set_Split [of nl s "CHR ''.''"] ident_char_sep(3)
  by (auto simp: dotted_ok_def list_all_iff simp del: ident_char_sep)

lemma parse_String:
  assumes "version_ok v"
  shows "parse (Version_String v) (semver v) = Inr v"
proof -
  let ?pr = "preRelease v" and ?b = "buildMetadata v"
  let ?e = "(if ?pr = [] then [] else CHR ''-'' # ?pr) @ (if ?b = [] then [] else CHR ''+'' # ?b)"
  let ?ws = "map show_nat (components v)"
  have v: "\<forall>n \<in> set (components v). n < 2 ^ 64" "dotted_ok ?pr" "dotted_ok ?b" "components v \<noteq> []"
    using assms by (auto simp: version_ok_def split: if_splits)
  have str: "Version_String v = Join ?ws ''.'' @ ?e" by (simp add: Version_String_def)
  have "nl \<notin> set ?e" using v(2,3) by (auto simp: dotted_ok_no_nl)
  with v(4) obtain g where g: "FindStringSubmatch versionMatchRE (Version_String v) = Some g"
      "g 1 = Join ?ws ''.''" "g 2 = ?e"
    using versionMatch_numbers [of ?ws ?e] unfolding str by (auto split: if_splits)
  have "CHR ''.'' \<notin> set (show_nat n)" for n
    using show_nat_digits [of n] not_digit_sign(4) by (metis list_all_iff)
  then have nodot: "\<forall>w \<in> set ?ws. CHR ''.'' \<notin> set w" by auto
  have split: "Split (Join ?ws ''.'') (CHR ''.'') = ?ws"
    using v(4) by (intro Split_Join) (use nodot in auto)
  have comps: "parse_components str sv 0 ?ws = Inr (components v)" for str sv
    using v(1) by (rule parse_components_show)
  show ?thesis
  proof (cases "semver v \<and> ?e \<noteq> []")
    case True
    obtain h where h: "FindStringSubmatch extraMatchRE ?e = Some h" "h 1 = ?pr" "h 2 = ?b"
      using extraMatch_parts [OF v(2,3)] by auto
    have "check_preRelease (Version_String v) (Split ?pr (CHR ''.'')) = None"
      using assms by (simp add: check_preRelease_None version_ok_def)
    then show ?thesis
      using assms True g h split comps by (simp add: parse_def version_ok_def Let_def)
  next
    case False
    then have "?pr = [] \<and> ?b = []" using assms by (auto simp: version_ok_def split: if_splits)
    then show ?thesis
      using assms False g split comps by (auto simp: parse_def version_ok_def Let_def split: if_splits)
  qed
qed

lemma parse_components_bound:
  "parse_components str sv i ws = Inr ns \<Longrightarrow> length ns = length ws \<and> (\<forall>n \<in> set ns. n < 2 ^ 64)"
proof (induction ws arbitrary: i ns)
  case (Cons w ws)
  then show ?case by (auto simp: ParseUint_Inr split: if_splits sum.splits)
qed simp

lemma lang_Plus_Cls: "u \<in> lang (Plus (Cls P)) \<Longrightarrow> u \<noteq> [] \<and> list_all P u"
proof -
  have "list_all P (concat us)" if "set us \<subseteq> {[x] | x. P x}" for us
    using that by (induction us) auto
  then show "u \<in> lang (Plus (Cls P)) \<Longrightarrow> u \<noteq> [] \<and> list_all P u"
    by (auto simp: Plus_def)
qed

lemma lang_dotted:
  assumes "u \<in> lang (dotted ident_char)"
  shows "dotted_ok u"
proof -
  obtain w us where u: "u = w @ concat us" "w \<in> lang (Plus (Cls ident_char))"
      "set us \<subseteq> lang (Seq (Lit ''.'') (Plus (Cls ident_char)))"
    using assms unfolding dotted_def by auto
  have good: "v \<noteq> [] \<and> list_all ident_char v \<Longrightarrow> CHR ''.'' \<notin> set v" for v
    using ident_char_sep(1) by (metis list_all_iff)
  have "\<forall>v \<in> set (Split (w @ concat us) (CHR ''.'')). v \<noteq> [] \<and> list_all ident_char v"
    using u(2,3)
  proof (induction us arbitrary: w)
    case Nil
    then have "w \<noteq> [] \<and> list_all ident_char w" using lang_Plus_Cls by blast
    then show ?case using good by (simp add: Split_single)
  next
    case (Cons x us)
    then obtain y where y: "x = CHR ''.'' # y" "y \<in> lang (Plus (Cls ident_char))" by auto
    have w: "w \<noteq> [] \<and> list_all ident_char w" using Cons.prems(1) lang_Plus_Cls by blast
    have "\<forall>v \<in> set (Split (y @ concat us) (CHR ''.'')). v \<noteq> [] \<and> list_all ident_char v"
      using Cons.prems(2) y(2) by (intro Cons.IH) auto
    then show ?case using w good [OF w] y(1) by (simp add: Split_append_sep)
  qed
  then show ?thesis by (simp add: dotted_ok_def u(1))
qed

lemma dotted_ok_Nil [simp]: "dotted_ok []"
  by (simp add: dotted_ok_def)

lemma extra_groups:
  assumes "FindStringSubmatch extraMatchRE s = Some g"
  shows "dotted_ok (g 1)" "dotted_ok (g 2)"
proof -
  have gr: "grps extraMatchRE = {(1, dotted ident_char), (2, dotted ident_char)}"
    by (auto simp: extraMatchRE_def Opt_def dotted_def Plus_def)
  have h: "h = dotted ident_char" if "(n, h) \<in> grps extraMatchRE" for n h
    using that unfolding gr by blast
  have "dotted_ok (g n)" if "n \<noteq> 0" for n
    using find_from_sound [of extraMatchRE None s g] assms that h lang_dotted dotted_ok_Nil
    unfolding FindStringSubmatch_def by metis
  then show "dotted_ok (g 1)" "dotted_ok (g 2)" by simp_all
qed

lemma no_zero_Nil [simp]: "no_zero_prefixed [[]]"
  by (simp add: no_zero_prefixed_def zero_prefixed_def HasPrefix_def)

lemma parse_ok:
  assumes "parse str sv = Inr v"
  shows "version_ok v \<and> semver v = sv"
proof -
  obtain g where g: "FindStringSubmatch versionMatchRE str = Some g"
    using assms by (auto simp: parse_def split: option.splits)
  let ?ws = "Split (g 1) (CHR ''.'')"
  obtain ns where ns: "parse_components str sv 0 ?ws = Inr ns"
    and len: "if sv then length ?ws = 3 else 2 \<le> length ?ws"
    using assms g by (auto simp: parse_def Let_def split: if_splits sum.splits)
  note b = parse_components_bound [OF ns]
  show ?thesis
  proof (cases "sv \<and> g 2 \<noteq> []")
    case False
    then have "v = \<lparr>components = ns, semver = sv, preRelease = [], buildMetadata = []\<rparr>"
      using assms g ns len by (auto simp: parse_def Let_def split: if_splits)
    then show ?thesis using b len by (auto simp: version_ok_def)
  next
    case True
    then obtain h where h: "FindStringSubmatch extraMatchRE (g 2) = Some h"
      using assms g ns len by (auto simp: parse_def Let_def split: option.splits)
    have "check_preRelease str (Split (h 1) (CHR ''.'')) = None"
      and "v = \<lparr>components = ns, semver = sv, preRelease = h 1, buildMetadata = h 2\<rparr>"
      using assms g ns len h True by (auto simp: parse_def Let_def split: option.splits)
    then show ?thesis
      using b len True extra_groups [OF h] by (auto simp: version_ok_def check_preRelease_None)
  qed
qed

text \<open>
  C29. Every version the parser accepts is well-formed (three components for a semantic version,
  at least two otherwise, each below \<open>2 ^ 64\<close>, identifiers of the right characters and without
  leading zeros), and printing it and parsing the text again gives the same version.
\<close>

theorem parse_print_parse:
  assumes "parse str sv = Inr v"
  shows "version_ok v \<and> semver v = sv \<and> parse (Version_String v) sv = Inr v"
  using parse_ok [OF assms] parse_String [of v] by auto

definition demo_version :: Version where
  "demo_version = \<lparr>components = [1, 20, 3], semver = True, preRelease = ''rc.1'', buildMetadata = ''x86''\<rparr>"

lemma demo_version_text: "Version_String demo_version = ''1.20.3-rc.1+x86''"
  by (simp add: Version_String_def demo_version_def go_eval)

lemma demo_version_ok: "version_ok demo_version"
  by (simp add: version_ok_def demo_version_def dotted_ok_def ident_char_def no_zero_prefixed_def zero_prefixed_def
      less_eq_char_def go_eval)

lemma demo_parse: "parse ''1.20.3-rc.1+x86'' True = Inr demo_version"
  using parse_String [OF demo_version_ok] unfolding demo_version_text by (simp add: demo_version_def)

theorem parse_print_parse_witness:
  "parse ''1.20.3-rc.1+x86'' True = Inr demo_version \<and>
   parse (Version_String demo_version) True = Inr demo_version \<and> version_ok demo_version"
  using parse_print_parse [OF demo_parse] demo_parse by simp

text \<open>
  White space behind the version is not always ignored, as the comment on \<open>ParseGeneric\<close>
  says: a trailing newline makes the parser reject the text, while a trailing blank does not.
\<close>

theorem trailing_newline_rejected:
  "ParseGeneric (''1.4'' @ [nl]) = Inl (CouldNotParse (''1.4'' @ [nl])) \<and>
   ParseGeneric ''1.4 '' = Inr \<lparr>components = [1, 4], semver = False, preRelease = [], buildMetadata = []\<rparr>"
  by (simp add: ParseGeneric_def parse_def FindStringSubmatch_def find_from.simps match_here_def versionMatchRE_def
      Opt_def Plus_def digit_def dot_def dot_digits_def re_space_def rest_def zero_prefixed_def Let_def go_eval)

end
