(* ===== verification/IptablesSave.thy ===== *)
theory IptablesSave
  imports Prelude
begin

text \<open>
  \<^verbatim>\<open>utils/iptables/save_restore.go\<close>: reading the output of \<^verbatim>\<open>iptables-save\<close>. Indices are the
  code's; a slice expression that Go would refuse is a panic.
\<close>

definition MakeChainLine :: "string \<Rightarrow> string" where
  "MakeChainLine chain = '':'' @ chain @ '' - [0:0]''"

subsection \<open>One line\<close>

function skip_spaces :: "nat \<Rightarrow> string \<Rightarrow> nat" where
  "skip_spaces i b = (if i < length b then if b ! i = CHR '' '' then skip_spaces (Suc i) b else i else i)"
  by pat_completeness auto
termination by (relation "measure (\<lambda>(i, b). length b - i)") auto

text \<open>The second loop of \<open>ReadLine\<close>; \<open>None\<close> is \<open>rightTrimIndex == -1\<close>.\<close>

function read_loop :: "nat \<Rightarrow> string \<Rightarrow> nat \<Rightarrow> nat option \<Rightarrow> string \<times> nat" where
  "read_loop i b left right =
     (if i < length b
      then if b ! i = CHR '' '' then read_loop (Suc i) b left (if right = None then Some i else right)
           else if b ! i = nl \<or> i = length b - 1
           then if i \<le> left then ([], i + 1)
                else let r = (case right of
                                Some r \<Rightarrow> r
                              | None \<Rightarrow> if i = length b - 1 \<and> b ! i \<noteq> nl then i + 1 else i)
                     in (take (r - left) (drop left b), i + 1)
           else read_loop (Suc i) b left None
      else ([], i))"
  by pat_completeness auto
termination by (relation "measure (\<lambda>(i, b, left, right). length b - i)") auto

declare skip_spaces.simps [simp del] read_loop.simps [simp del]

definition ReadLine :: "nat \<Rightarrow> string \<Rightarrow> string \<times> nat" where
  "ReadLine readIndex byteArray =
     (let left = skip_spaces readIndex byteArray in read_loop left byteArray left None)"

lemma skip_spaces_ge: "i \<le> skip_spaces i b"
proof (induction i b rule: skip_spaces.induct)
  case (1 i b)
  then show ?case by (subst skip_spaces.simps) auto
qed

lemma skip_spaces_le: "i \<le> length b \<Longrightarrow> skip_spaces i b \<le> length b"
proof (induction i b rule: skip_spaces.induct)
  case (1 i b)
  then show ?case by (subst skip_spaces.simps) auto
qed

lemma read_loop_cont:
  "i < length b \<Longrightarrow> b ! i = CHR '' '' \<Longrightarrow>
     read_loop i b left right = read_loop (Suc i) b left (if right = None then Some i else right)"
  "i < length b \<Longrightarrow> b ! i \<noteq> CHR '' '' \<Longrightarrow> b ! i \<noteq> nl \<Longrightarrow> i \<noteq> length b - 1 \<Longrightarrow>
     read_loop i b left right = read_loop (Suc i) b left None"
  by (subst read_loop.simps, simp)+

lemma read_loop_end:
  "i < length b \<Longrightarrow> b ! i \<noteq> CHR '' '' \<Longrightarrow> b ! i = nl \<or> i = length b - 1 \<Longrightarrow>
     snd (read_loop i b left right) = Suc i"
  "\<not> i < length b \<Longrightarrow> read_loop i b left right = ([], i)"
  by (subst read_loop.simps, simp add: Let_def)+

lemma read_loop_next:
  "i \<le> length b \<Longrightarrow> i \<le> snd (read_loop i b left right) \<and> (i < length b \<longrightarrow> i < snd (read_loop i b left right)) \<and>
     snd (read_loop i b left right) \<le> length b"
proof (induction "length b - i" arbitrary: i right)
  case 0
  then show ?case by (simp add: read_loop_end(2))
next
  case (Suc n)
  then have i: "i < length b" by simp
  have IH: "Suc i \<le> snd (read_loop (Suc i) b left r) \<and> snd (read_loop (Suc i) b left r) \<le> length b" for r
    using Suc.hyps(1) [of "Suc i" r] Suc.hyps(2) i by simp
  consider "b ! i = CHR '' ''" | "b ! i \<noteq> CHR '' ''" "b ! i = nl \<or> i = length b - 1"
    | "b ! i \<noteq> CHR '' ''" "b ! i \<noteq> nl" "i \<noteq> length b - 1" by blast
  then show ?case
  proof cases
    case 1
    then show ?thesis
      using IH [of "if right = None then Some i else right"] i by (simp add: read_loop_cont(1))
  next
    case 2
    then show ?thesis using i read_loop_end(1) [OF i 2] by simp
  next
    case 3
    then show ?thesis using IH [of None] i by (simp add: read_loop_cont(2))
  qed
qed

lemma ReadLine_next:
  assumes "i < length b"
  shows "i < snd (ReadLine i b)" "snd (ReadLine i b) \<le> length b"
proof -
  let ?l = "skip_spaces i b"
  have l: "i \<le> ?l" "?l \<le> length b" using assms skip_spaces_ge skip_spaces_le by (auto simp: less_imp_le)
  note n = read_loop_next [OF l(2), of ?l None]
  have R: "ReadLine i b = read_loop ?l b ?l None" by (simp add: ReadLine_def Let_def)
  show "snd (ReadLine i b) \<le> length b" using n R by simp
  show "i < snd (ReadLine i b)"
    using n l assms R by (cases "?l < length b") auto
qed

lemma ReadLine_less: "i < length b \<Longrightarrow> (x, y) = ReadLine i b \<Longrightarrow> length b - y < length b - i"
  using ReadLine_next [of i b] by (metis diff_less_mono2 snd_conv)

subsection \<open>Chains of a table\<close>

function find_table :: "string \<Rightarrow> string \<Rightarrow> nat \<Rightarrow> nat" where
  "find_table tablePrefix save readIndex =
     (if readIndex < length save
      then case ReadLine readIndex save of
             (line, n) \<Rightarrow> if HasPrefix line tablePrefix then n else find_table tablePrefix save n
      else readIndex)"
  by pat_completeness auto
termination
  by (relation "measure (\<lambda>(p, s, i). length s - i)", simp)
    (simp only: in_measure case_prod_conv, rule ReadLine_less, assumption+)

function parse_chains :: "string \<Rightarrow> nat \<Rightarrow> (string, string) gomap \<Rightarrow> (string, string) gomap gocall" where
  "parse_chains save readIndex chainsMap =
     (if readIndex < length save
      then case ReadLine readIndex save of
             (line, n) \<Rightarrow>
               if length line = 0 then parse_chains save n chainsMap
               else if HasPrefix line ''COMMIT'' \<or> HasPrefix line ''*'' then Returns chainsMap
               else if HasPrefix line ''#'' then parse_chains save n chainsMap
               else if HasPrefix line '':'' \<and> length line > 1
               then case IndexOf line '' '' of
                      None \<Rightarrow> Panics
                    | Some j \<Rightarrow> parse_chains save n (AList.update (take (j - 1) (drop 1 line)) line chainsMap)
               else parse_chains save n chainsMap
      else Returns chainsMap)"
  by pat_completeness auto
termination
  by (relation "measure (\<lambda>(s, i, c). length s - i)", simp)
    (simp only: in_measure case_prod_conv, rule ReadLine_less, assumption+)+

declare find_table.simps [simp del] parse_chains.simps [simp del]

definition GetChainLines :: "string \<Rightarrow> string \<Rightarrow> (string, string) gomap gocall" where
  "GetChainLines table save = parse_chains save (find_table (''*'' @ table) save 0) []"

subsection \<open>Lines that end with a newline\<close>

abbreviation sp :: "char \<Rightarrow> bool" where "sp c \<equiv> c = CHR '' ''"

definition rtrim :: "string \<Rightarrow> string" where
  "rtrim r = rev (dropWhile sp (rev r))"

lemma rtrim_Nil [simp]: "rtrim [] = []"
  by (simp add: rtrim_def)

lemma rtrim_Cons: "rtrim (c # r) = (if list_all sp (c # r) then [] else c # rtrim r)"
  by (auto simp: rtrim_def dropWhile_append list_all_iff)

lemma rtrim_spaces: "list_all sp r \<Longrightarrow> rtrim r = []"
  by (induction r) (auto simp: rtrim_Cons)

lemma rtrim_prefix: "\<exists>t. r = rtrim r @ t"
proof (induction r)
  case (Cons c r)
  then show ?case by (auto simp: rtrim_Cons)
qed simp

lemma drop_Cons_nth:
  assumes "drop i b = x # t"
  shows "i < length b" "b ! i = x" "drop (Suc i) b = t"
proof -
  show i: "i < length b" using assms by (cases "i < length b") auto
  then show "b ! i = x" "drop (Suc i) b = t" using assms Cons_nth_drop_Suc [OF i] by auto
qed

lemma read_loop_line:
  assumes "drop i b = r @ nl # post" "nl \<notin> set r"
  shows "read_loop i b left right =
    (if i + length r \<le> left then ([], i + length r + 1)
     else (take ((if list_all sp r then (case right of Some k \<Rightarrow> k | None \<Rightarrow> i) else i + length (rtrim r)) - left) (drop left b),
           i + length r + 1))"
  using assms
proof (induction r arbitrary: i right)
  case Nil
  then have "i < length b" "b ! i = nl" using drop_Cons_nth [of i b nl post] by auto
  then show ?case by (subst read_loop.simps) (auto simp: Let_def split: option.splits)
next
  case (Cons c r)
  have i: "i < length b" and c: "b ! i = c" and rest: "drop (Suc i) b = r @ nl # post"
    using drop_Cons_nth [of i b c "r @ nl # post"] Cons.prems(1) by auto
  have "Suc i < length b" using rest by (cases "Suc i < length b") auto
  then have last: "i \<noteq> length b - 1" by simp
  note IH = Cons.IH [OF rest]
  show ?case
  proof (cases "sp c")
    case True
    then show ?thesis
      using IH Cons.prems(2) i c by (auto simp: read_loop_cont(1) rtrim_Cons)
  next
    case False
    then show ?thesis
      using IH Cons.prems(2) i c last by (auto simp: read_loop_cont(2) rtrim_Cons rtrim_spaces)
  qed
qed

lemma skip_spaces_line:
  "drop i b = l @ nl # post \<Longrightarrow> skip_spaces i b = i + length (takeWhile sp l)"
proof (induction l arbitrary: i)
  case Nil
  then show ?case using drop_Cons_nth [of i b nl post] by (subst skip_spaces.simps) auto
next
  case (Cons c l)
  then show ?case
    using drop_Cons_nth [of i b c "l @ nl # post"] by (subst skip_spaces.simps) auto
qed

definition trim :: "string \<Rightarrow> string" where
  "trim l = rtrim (dropWhile sp l)"

lemma ReadLine_drop:
  assumes "drop i b = l @ nl # post" "nl \<notin> set l"
  shows "ReadLine i b = (trim l, i + length l + 1)"
proof -
  let ?u = "takeWhile sp l" and ?r = "dropWhile sp l"
  have l: "length l = length ?u + length ?r" by (metis length_append takeWhile_dropWhile_id)
  have "drop (length ?u) (l @ nl # post) = ?r @ nl # post"
    by (metis append.assoc append_eq_conv_conj takeWhile_dropWhile_id)
  then have rest: "drop (i + length ?u) b = ?r @ nl # post"
    using assms(1) by (metis add.commute drop_drop)
  have nl: "nl \<notin> set ?r" using assms(2) set_dropWhileD by fastforce
  obtain t where t: "?r = rtrim ?r @ t" using rtrim_prefix by blast
  have "?r = [] \<or> \<not> list_all sp ?r"
    by (cases ?r) (use hd_dropWhile [of sp l] in auto)
  moreover have "take (length (rtrim ?r)) (?r @ nl # post) = rtrim ?r"
    by (subst t) simp
  moreover define r where "r = ?r"
  ultimately have "read_loop (i + length ?u) b (i + length ?u) None = (rtrim ?r, i + length ?u + length ?r + 1)"
    unfolding read_loop_line [OF rest nl] rest r_def [symmetric] by (cases "r = []") simp_all
  then show ?thesis
    using l by (simp add: ReadLine_def skip_spaces_line [OF assms(1)] trim_def)
qed

definition text_lines :: "string list \<Rightarrow> string" where
  "text_lines ls = concat (map (\<lambda>l. l @ [nl]) ls)"

text \<open>
  On text whose lines all end with a newline \<open>ReadLine\<close> returns, from the start of a line,
  the line without the blanks around it and the index of the next line.
\<close>

theorem ReadLine_line:
  assumes "nl \<notin> set l"
  shows "ReadLine (length (text_lines before)) (text_lines (before @ l # after)) =
    (TrimBy (\<lambda>c. c = CHR '' '') l, length (text_lines (before @ [l])))"
proof -
  have "drop (length (text_lines before)) (text_lines (before @ l # after)) = l @ nl # text_lines after"
    by (simp add: text_lines_def)
  from ReadLine_drop [OF this assms] show ?thesis
    by (simp add: text_lines_def trim_def rtrim_def TrimBy_def)
qed

theorem ReadLine_line_witness:
  "ReadLine 5 (text_lines [''*nat'', '' :INPUT - [0:0] '', ''COMMIT'']) = ('':INPUT - [0:0]'', 22)"
  using ReadLine_line [of "'' :INPUT - [0:0] ''" "[''*nat'']" "[''COMMIT'']"]
  by (simp add: text_lines_def TrimBy_def eval_nat_numeral)

text \<open>
  A last line without a newline is not read back in full: its last word is lost when it is a
  single character, and the whole line when it ends with a blank.
\<close>

theorem ReadLine_last_line_lost:
  "ReadLine 0 ''a b'' = (''a'', 3) \<and> ReadLine 0 ''ab '' = ([], 3) \<and> ReadLine 0 ''x'' = ([], 1)"
  by (simp add: ReadLine_def skip_spaces.simps read_loop.simps)

subsection \<open>The cm of a saved table\<close>

fun after_table :: "string \<Rightarrow> string list \<Rightarrow> string list" where
  "after_table p [] = []"
| "after_table p (l # ls) = (if HasPrefix (trim l) p then ls else after_table p ls)"

fun chain_spec :: "string list \<Rightarrow> (string, string) gomap \<Rightarrow> (string, string) gomap gocall" where
  "chain_spec [] cm = Returns cm"
| "chain_spec (l # ls) cm =
     (let line = trim l
      in if line = [] then chain_spec ls cm
         else if HasPrefix line ''COMMIT'' \<or> HasPrefix line ''*'' then Returns cm
         else if HasPrefix line ''#'' then chain_spec ls cm
         else if HasPrefix line '':'' \<and> length line > 1
         then case IndexOf line '' '' of
                None \<Rightarrow> Panics
              | Some j \<Rightarrow> chain_spec ls (AList.update (take (j - 1) (drop 1 line)) line cm)
         else chain_spec ls cm)"

lemma text_lines_Cons: "text_lines (l # ls) = l @ nl # text_lines ls"
  by (simp add: text_lines_def)

lemma next_line:
  assumes "drop i save = text_lines (l # ls)" "nl \<notin> set l" "i \<le> length save"
  shows "i < length save" "ReadLine i save = (trim l, i + length l + 1)"
    "drop (i + length l + 1) save = text_lines ls" "i + length l + 1 \<le> length save"
proof -
  note d = assms(1) [unfolded text_lines_Cons]
  have len: "length (drop i save) = length l + 1 + length (text_lines ls)" unfolding d by simp
  then show "i < length save" "i + length l + 1 \<le> length save" by auto
  show "ReadLine i save = (trim l, i + length l + 1)" using ReadLine_drop [OF d assms(2)] .
  have "drop (i + length l + 1) save = drop (length l + 1) (drop i save)" by (simp add: add.commute)
  then show "drop (i + length l + 1) save = text_lines ls" unfolding d by simp
qed

lemma find_table_lines:
  assumes "drop i save = text_lines ls" "\<forall>l \<in> set ls. nl \<notin> set l" "i \<le> length save"
  shows "drop (find_table p save i) save = text_lines (after_table p ls) \<and> find_table p save i \<le> length save"
  using assms
proof (induction ls arbitrary: i)
  case Nil
  then have "\<not> i < length save" by (simp add: text_lines_def)
  then have "find_table p save i = i" by (subst find_table.simps) simp
  then show ?case using Nil by simp
next
  case (Cons l ls)
  note n = next_line [OF Cons.prems(1) _ Cons.prems(3)]
  show ?case
    using n Cons.prems(2) Cons.IH [OF n(3)] by (simp add: find_table.simps [of p save i])
qed

lemma parse_chains_lines:
  assumes "drop i save = text_lines ls" "\<forall>l \<in> set ls. nl \<notin> set l" "i \<le> length save"
  shows "parse_chains save i cm = chain_spec ls cm"
  using assms
proof (induction ls arbitrary: i cm)
  case Nil
  then have "\<not> i < length save" by (simp add: text_lines_def)
  then show ?case by (simp add: parse_chains.simps [of save i])
next
  case (Cons l ls)
  note n = next_line [OF Cons.prems(1) _ Cons.prems(3)]
  have IH: "parse_chains save (i + length l + 1) c = chain_spec ls c" for c
    using n Cons.prems(2) by (intro Cons.IH) auto
  show ?case
    using n Cons.prems(2) IH by (simp add: parse_chains.simps [of save i] Let_def split: option.splits)
qed

lemma GetChainLines_lines:
  assumes "\<forall>l \<in> set ls. nl \<notin> set l"
  shows "GetChainLines table (text_lines ls) = chain_spec (after_table (''*'' @ table) ls) []"
proof -
  have f: "drop (find_table (''*'' @ table) (text_lines ls) 0) (text_lines ls) = text_lines (after_table (''*'' @ table) ls)"
    "find_table (''*'' @ table) (text_lines ls) 0 \<le> length (text_lines ls)"
    using find_table_lines [of 0 "text_lines ls" ls] assms by auto
  have "set (after_table p ls) \<subseteq> set ls" for p by (induction ls) auto
  then have "\<forall>l \<in> set (after_table (''*'' @ table) ls). nl \<notin> set l" using assms by blast
  from parse_chains_lines [OF f(1) this f(2)] show ?thesis by (simp only: GetChainLines_def)
qed

text \<open>The lines of a chain as \<open>MakeChainLine\<close> writes them.\<close>

lemma IndexOf_first: "CHR '' '' \<notin> set u \<Longrightarrow> IndexOf (u @ CHR '' '' # t) '' '' = Some (length u)"
  by (induction u) (auto simp: IndexOf.simps [of "_ @ _"] IndexOf.simps [of "_ # _"] HasPrefix_def)

lemma trim_id: "l \<noteq> [] \<Longrightarrow> \<not> sp (hd l) \<Longrightarrow> \<not> sp (last l) \<Longrightarrow> trim l = l"
  by (simp add: trim_def rtrim_def dropWhile_eq_self_iff [THEN iffD2] hd_rev)

text \<open>
  The line of a chain in a saved table: its name, then its policy and its counters, as in
  \<^verbatim>\<open>:INPUT ACCEPT [12:3456]\<close> or, for a chain of the user's, \<^verbatim>\<open>:BMLB - [0:0]\<close>.
\<close>

definition saved_chain :: "string \<times> string \<Rightarrow> string" where
  "saved_chain cp = '':'' @ fst cp @ '' '' @ snd cp"

definition saved_chain_ok :: "string \<times> string \<Rightarrow> bool" where
  "saved_chain_ok cp \<longleftrightarrow> CHR '' '' \<notin> set (fst cp) \<and> nl \<notin> set (fst cp) \<and> nl \<notin> set (snd cp) \<and>
     snd cp \<noteq> [] \<and> last (snd cp) \<noteq> CHR '' ''"

lemma MakeChainLine_saved: "MakeChainLine c = saved_chain (c, ''- [0:0]'')"
  by (simp add: MakeChainLine_def saved_chain_def)

lemma trim_saved_chain: "saved_chain_ok cp \<Longrightarrow> trim (saved_chain cp) = saved_chain cp"
  by (rule trim_id) (simp_all add: saved_chain_def saved_chain_ok_def)

lemma chain_spec_chain:
  assumes "saved_chain_ok cp"
  shows "chain_spec (saved_chain cp # ls) cm = chain_spec ls (AList.update (fst cp) (saved_chain cp) cm)"
proof -
  have "IndexOf (saved_chain cp) '' '' = Some (length ('':'' @ fst cp))"
    using IndexOf_first [of "'':'' @ fst cp" "snd cp"] assms by (simp add: saved_chain_def saved_chain_ok_def)
  moreover have "take (length (fst cp)) (drop 1 (saved_chain cp)) = fst cp" by (simp add: saved_chain_def)
  ultimately show ?thesis
    by (simp add: trim_saved_chain [OF assms] Let_def) (simp add: saved_chain_def HasPrefix_def)
qed

lemma chain_spec_all:
  assumes "\<forall>cp \<in> set cs. saved_chain_ok cp" "distinct (map fst cm @ map fst cs)"
  shows "chain_spec (map saved_chain cs @ ls) cm = chain_spec ls (cm @ map (\<lambda>cp. (fst cp, saved_chain cp)) cs)"
  using assms
proof (induction cs arbitrary: cm)
  case (Cons cp cs)
  have "AList.update c x cm = cm @ [(c, x)]" if "c \<notin> set (map fst cm)" for c x
    using that by (induction cm) auto
  then show ?case
    using Cons.prems Cons.IH [of "cm @ [(fst cp, saved_chain cp)]"] by (simp add: chain_spec_chain del: chain_spec.simps)
qed simp

text \<open>Lines that neither name a chain nor end the table: rules, with or without counters, comments, blank lines.\<close>

definition rule_line :: "string \<Rightarrow> bool" where
  "rule_line l \<longleftrightarrow> \<not> HasPrefix (trim l) '':'' \<and> \<not> HasPrefix (trim l) ''*'' \<and> \<not> HasPrefix (trim l) ''COMMIT''"

lemma chain_spec_rules:
  assumes "\<forall>r \<in> set rs. rule_line r"
  shows "chain_spec (rs @ ls) cm = chain_spec ls cm"
  using assms by (induction rs) (auto simp: Let_def rule_line_def)

lemma after_table_skip:
  "\<forall>l \<in> set pre. \<not> HasPrefix (trim l) p \<Longrightarrow> HasPrefix (trim l) p \<Longrightarrow> after_table p (pre @ l # ls) = ls"
  by (induction pre) auto

text \<open>
  C26. \<open>GetChainLines\<close> reads from the output of \<^verbatim>\<open>iptables-save\<close> exactly the chains of the table asked
  for, each under its name and with its whole line, whatever their policies and counters,
  whatever tables and comments come before, whatever rules and comments follow the chains and
  whatever follows the table.
\<close>

theorem GetChainLines_saved:
  assumes "\<forall>l \<in> set (pre @ rules @ post). nl \<notin> set l" "nl \<notin> set table" "table \<noteq> []" "CHR '' '' \<notin> set table"
    and "\<forall>l \<in> set pre. \<not> HasPrefix (trim l) (''*'' @ table)"
    and "distinct (map fst cs)" "\<forall>cp \<in> set cs. saved_chain_ok cp" "\<forall>l \<in> set rules. rule_line l"
  shows "GetChainLines table (text_lines (pre @ (''*'' @ table) # map saved_chain cs @ rules @ ''COMMIT'' # post)) =
    Returns (map (\<lambda>cp. (fst cp, saved_chain cp)) cs)"
proof -
  let ?ls = "pre @ (''*'' @ table) # map saved_chain cs @ rules @ ''COMMIT'' # post"
  have nls: "\<forall>l \<in> set ?ls. nl \<notin> set l"
    using assms(1,2,7) by (auto simp: saved_chain_def saved_chain_ok_def)
  have "trim (''*'' @ table) = ''*'' @ table"
    using assms(3,4) by (intro trim_id) (auto dest: last_in_set)
  then have "HasPrefix (trim (''*'' @ table)) (''*'' @ table)" by (simp add: HasPrefix_def)
  then have "after_table (''*'' @ table) ?ls = map saved_chain cs @ rules @ ''COMMIT'' # post"
    using assms(5) by (intro after_table_skip) auto
  moreover have "chain_spec (''COMMIT'' # post) cm = Returns cm" for cm
    using trim_id [of "''COMMIT''"] by (simp add: Let_def HasPrefix_def)
  ultimately show ?thesis
    unfolding GetChainLines_lines [OF nls] using assms(6-8)
    by (simp add: chain_spec_all chain_spec_rules del: chain_spec.simps)
qed

theorem GetChainLines_saved_witness:
  "GetChainLines ''nat'' (text_lines
     [''# saved'', ''*filter'', '':INPUT ACCEPT [7:420]'', ''COMMIT'', ''*nat'', '':INPUT ACCEPT [12:3456]'',
      MakeChainLine ''BMLB'', ''-A INPUT -j BMLB'', ''# end'', ''COMMIT'']) =
   Returns [(''INPUT'', '':INPUT ACCEPT [12:3456]''), (''BMLB'', '':BMLB - [0:0]'')]"
  using GetChainLines_saved [of "[''# saved'', ''*filter'', '':INPUT ACCEPT [7:420]'', ''COMMIT'']" "[''-A INPUT -j BMLB'', ''# end'']" "[]"
      "''nat''" "[(''INPUT'', ''ACCEPT [12:3456]''), (''BMLB'', ''- [0:0]'')]"]
  by (simp add: HasPrefix_def trim_def rtrim_def saved_chain_def saved_chain_ok_def rule_line_def MakeChainLine_def)

end
