(* ===== verification/Dbus.thy ===== *)
theory Dbus
  imports Prelude
begin

text \<open>
  \<^verbatim>\<open>utils/dbus\<close>: the interfaces to D-Bus and their implementation over \<^verbatim>\<open>godbus\<close> (\<^verbatim>\<open>dbus.go\<close>), and the fake
  implementation for tests (\<^verbatim>\<open>fake_dbus.go\<close>). A value of an interface is a record of its methods over
  a state \<open>'w\<close>. The package \<^verbatim>\<open>godbus\<close> is a parameter: a record of its operations; a connection is a
  value of \<open>'c\<close>, an object a value of \<open>'o\<close>, the result of a call a value of \<open>'r\<close>, a channel a number.
\<close>

text \<open>A value of type \<open>interface{}\<close>: a string, or \<open>None\<close> for every other value.\<close>

type_synonym gvalue = "string option"

subsection \<open>The interfaces\<close>

text \<open>\<open>Store\<close> takes what the caller's variables hold and returns what they hold afterwards.\<close>

record dbus_Call =
  Store :: "gvalue list \<Rightarrow> gerror + gvalue list"

record 'w dbus_Object =
  Call :: "string \<Rightarrow> nat \<Rightarrow> gvalue list \<Rightarrow> 'w \<Rightarrow> dbus_Call gocall \<times> 'w"

record 'w dbus_Connection =
  BusObject :: "'w \<Rightarrow> 'w dbus_Object"
  Object :: "string \<Rightarrow> string \<Rightarrow> 'w \<Rightarrow> 'w dbus_Object"
  Signal :: "nat \<Rightarrow> 'w \<Rightarrow> 'w"

record 'w dbus_Interface =
  SystemBus :: "'w \<Rightarrow> (gerror + 'w dbus_Connection) \<times> 'w"
  SessionBus :: "'w \<Rightarrow> (gerror + 'w dbus_Connection) \<times> 'w"

subsection \<open>dbus.go\<close>

record ('c, 'o, 'r, 'w) godbus =
  god_SystemBus :: "'w \<Rightarrow> (gerror + 'c) \<times> 'w"
  god_SessionBus :: "'w \<Rightarrow> (gerror + 'c) \<times> 'w"
  god_BusObject :: "'c \<Rightarrow> 'o"
  god_Object :: "'c \<Rightarrow> string \<Rightarrow> string \<Rightarrow> 'o"
  god_Signal :: "'c \<Rightarrow> nat \<Rightarrow> 'w \<Rightarrow> 'w"
  god_Call :: "'o \<Rightarrow> string \<Rightarrow> nat \<Rightarrow> gvalue list \<Rightarrow> 'w \<Rightarrow> 'r \<times> 'w"
  god_Store :: "'r \<Rightarrow> gvalue list \<Rightarrow> gerror + gvalue list"

definition call_Store :: "('c, 'o, 'r, 'w) godbus \<Rightarrow> 'r \<Rightarrow> gvalue list \<Rightarrow> gerror + gvalue list" where
  "call_Store g call retvalues = god_Store g call retvalues"

definition callImpl :: "('c, 'o, 'r, 'w) godbus \<Rightarrow> 'r \<Rightarrow> dbus_Call" where
  "callImpl g call = \<lparr>Store = call_Store g call\<rparr>"

definition obj_Call :: "('c, 'o, 'r, 'w) godbus \<Rightarrow> 'o \<Rightarrow> string \<Rightarrow> nat \<Rightarrow> gvalue list \<Rightarrow> 'w \<Rightarrow> dbus_Call gocall \<times> 'w" where
  "obj_Call g obj method flags args w =
     (case god_Call g obj method flags args w of (call, w) \<Rightarrow> (Returns (callImpl g call), w))"

definition objectImpl :: "('c, 'o, 'r, 'w) godbus \<Rightarrow> 'o \<Rightarrow> 'w dbus_Object" where
  "objectImpl g obj = \<lparr>Call = obj_Call g obj\<rparr>"

definition conn_BusObject :: "('c, 'o, 'r, 'w) godbus \<Rightarrow> 'c \<Rightarrow> 'w \<Rightarrow> 'w dbus_Object" where
  "conn_BusObject g conn w = objectImpl g (god_BusObject g conn)"

definition conn_Object :: "('c, 'o, 'r, 'w) godbus \<Rightarrow> 'c \<Rightarrow> string \<Rightarrow> string \<Rightarrow> 'w \<Rightarrow> 'w dbus_Object" where
  "conn_Object g conn name path w = objectImpl g (god_Object g conn name path)"

definition conn_Signal :: "('c, 'o, 'r, 'w) godbus \<Rightarrow> 'c \<Rightarrow> nat \<Rightarrow> 'w \<Rightarrow> 'w" where
  "conn_Signal g conn ch w = god_Signal g conn ch w"

definition connImpl :: "('c, 'o, 'r, 'w) godbus \<Rightarrow> 'c \<Rightarrow> 'w dbus_Connection" where
  "connImpl g conn = \<lparr>BusObject = conn_BusObject g conn, Object = conn_Object g conn, Signal = conn_Signal g conn\<rparr>"

text \<open>
  \<open>dbusImpl\<close> keeps a connection once it has one. The object lives somewhere in the state, which is
  what a \<open>cell\<close> says.
\<close>

record 'c dbusImpl =
  systemBus :: "'c option"
  sessionBus :: "'c option"

record ('a, 'w) cell =
  load :: "'w \<Rightarrow> 'a"
  store :: "'a \<Rightarrow> 'w \<Rightarrow> 'w"

definition dbus_SystemBus :: "('c, 'o, 'r, 'w) godbus \<Rightarrow> ('c dbusImpl, 'w) cell \<Rightarrow> 'w \<Rightarrow> (gerror + 'w dbus_Connection) \<times> 'w" where
  "dbus_SystemBus g db w =
     (case systemBus (load db w) of
        Some bus \<Rightarrow> (Inr (connImpl g bus), w)
      | None \<Rightarrow>
          (case god_SystemBus g w of
             (Inl err, w) \<Rightarrow> (Inl err, w)
           | (Inr bus, w) \<Rightarrow> (Inr (connImpl g bus), store db ((load db w)\<lparr>systemBus := Some bus\<rparr>) w)))"

definition dbus_SessionBus :: "('c, 'o, 'r, 'w) godbus \<Rightarrow> ('c dbusImpl, 'w) cell \<Rightarrow> 'w \<Rightarrow> (gerror + 'w dbus_Connection) \<times> 'w" where
  "dbus_SessionBus g db w =
     (case sessionBus (load db w) of
        Some bus \<Rightarrow> (Inr (connImpl g bus), w)
      | None \<Rightarrow>
          (case god_SessionBus g w of
             (Inl err, w) \<Rightarrow> (Inl err, w)
           | (Inr bus, w) \<Rightarrow> (Inr (connImpl g bus), store db ((load db w)\<lparr>sessionBus := Some bus\<rparr>) w)))"

definition dbus_New :: "('c, 'o, 'r, 'w) godbus \<Rightarrow> ('c dbusImpl, 'w) cell \<Rightarrow> 'w \<Rightarrow> 'w dbus_Interface \<times> 'w" where
  "dbus_New g db w =
     (\<lparr>SystemBus = dbus_SystemBus g db, SessionBus = dbus_SessionBus g db\<rparr>, store db \<lparr>systemBus = None, sessionBus = None\<rparr> w)"

text \<open>
  A connection, once made, is kept: the second call of \<open>SystemBus\<close> returns the same connection
  without touching D-Bus, and a call that fails leaves nothing behind, so the next call tries
  again. The library does not write the program's variable.
\<close>

locale dbus_object =
  fixes g :: "('c, 'o, 'r, 'w) godbus" and db :: "('c dbusImpl, 'w) cell"
  assumes load_store: "load db (store db x w) = x"
    and library: "god_SystemBus g w = (res, w') \<Longrightarrow> load db w' = load db w"
begin

lemma SystemBus_cached:
  "case dbus_SystemBus g db w of
     (Inr bus, w') \<Rightarrow> (\<forall>v. load db v = load db w' \<longrightarrow> dbus_SystemBus g db v = (Inr bus, v)) \<and>
       sessionBus (load db w') = sessionBus (load db w)
   | (Inl err, w') \<Rightarrow> load db w' = load db w \<and> systemBus (load db w) = None"
  by (auto simp: dbus_SystemBus_def load_store library split: option.splits sum.splits prod.splits)

end

subsection \<open>fake_dbus.go\<close>

text \<open>
  A fake connection: handlers for its objects and the channels that receive its signals. The
  connections live in a heap, so that a pointer to one is a number, beside the channels.
\<close>

record dbus_signal =
  sigSender :: string
  sigPath :: string
  sigName :: string
  sigBody :: "gvalue list"

type_synonym fake_handler = "string \<Rightarrow> gvalue list \<Rightarrow> gerror + gvalue list"

record DBusFakeConnection =
  busObject :: "fake_handler option"
  objects :: "(string, fake_handler) gomap"
  signalHandlers :: "nat list"

record 'w fake_world =
  fw_conns :: "nat \<Rightarrow> DBusFakeConnection"
  fw_chans :: "nat \<Rightarrow> dbus_signal option list"
  fw_rest :: 'w

record DBusFake =
  fakeSystemBus :: "nat option"
  fakeSessionBus :: "nat option"

definition NewFake :: "nat option \<Rightarrow> nat option \<Rightarrow> DBusFake" where
  "NewFake sys ses = \<lparr>fakeSystemBus = sys, fakeSessionBus = ses\<rparr>"

definition NewFakeConnection :: DBusFakeConnection where
  "NewFakeConnection = \<lparr>busObject = None, objects = [], signalHandlers = []\<rparr>"

text \<open>
  A call on an object that was never set is a nil dereference. \<open>godbus.Store\<close>, which copies the
  values of a call to where the caller wants them, is a parameter.
\<close>

definition fake_Store :: "(gvalue list \<Rightarrow> gvalue list \<Rightarrow> gerror + gvalue list) \<Rightarrow> gerror + gvalue list \<Rightarrow> gvalue list
    \<Rightarrow> gerror + gvalue list" where
  "fake_Store god call retvalues = (case call of Inl err \<Rightarrow> Inl err | Inr ret \<Rightarrow> god ret retvalues)"

definition fake_Call :: "(gvalue list \<Rightarrow> gvalue list \<Rightarrow> gerror + gvalue list) \<Rightarrow> fake_handler option \<Rightarrow> string \<Rightarrow> nat
    \<Rightarrow> gvalue list \<Rightarrow> 'w \<Rightarrow> dbus_Call gocall \<times> 'w" where
  "fake_Call god obj method flags args w =
     (case obj of None \<Rightarrow> (Panics, w) | Some handler \<Rightarrow> (Returns \<lparr>Store = fake_Store god (handler method args)\<rparr>, w))"

definition fake_BusObject :: "(gvalue list \<Rightarrow> gvalue list \<Rightarrow> gerror + gvalue list) \<Rightarrow> nat \<Rightarrow> 'w fake_world
    \<Rightarrow> 'w fake_world dbus_Object" where
  "fake_BusObject god p w = \<lparr>Call = fake_Call god (busObject (fw_conns w p))\<rparr>"

definition fake_Object :: "(gvalue list \<Rightarrow> gvalue list \<Rightarrow> gerror + gvalue list) \<Rightarrow> nat \<Rightarrow> string \<Rightarrow> string
    \<Rightarrow> 'w fake_world \<Rightarrow> 'w fake_world dbus_Object" where
  "fake_Object god p name path w = \<lparr>Call = fake_Call god (map_of (objects (fw_conns w p)) (name @ path))\<rparr>"

text \<open>\<open>Signal\<close> removes the first registration of the channel, or registers it.\<close>

definition toggle :: "nat \<Rightarrow> nat list \<Rightarrow> nat list" where
  "toggle ch hs = (if ch \<in> set hs then remove1 ch hs else hs @ [ch])"

definition fake_Signal :: "nat \<Rightarrow> nat \<Rightarrow> 'w fake_world \<Rightarrow> 'w fake_world" where
  "fake_Signal p ch w =
     (let conn = fw_conns w p
      in w\<lparr>fw_conns := (fw_conns w)(p := conn\<lparr>signalHandlers := toggle ch (signalHandlers conn)\<rparr>)\<rparr>)"

definition fake_Connection :: "(gvalue list \<Rightarrow> gvalue list \<Rightarrow> gerror + gvalue list) \<Rightarrow> nat \<Rightarrow> 'w fake_world dbus_Connection" where
  "fake_Connection god p =
     \<lparr>BusObject = fake_BusObject god p, Object = fake_Object god p, Signal = fake_Signal p\<rparr>"

definition fake_SystemBus :: "(gvalue list \<Rightarrow> gvalue list \<Rightarrow> gerror + gvalue list) \<Rightarrow> DBusFake \<Rightarrow> 'w fake_world
    \<Rightarrow> (gerror + 'w fake_world dbus_Connection) \<times> 'w fake_world" where
  "fake_SystemBus god db w =
     (case fakeSystemBus db of Some p \<Rightarrow> (Inr (fake_Connection god p), w) | None \<Rightarrow> (Inl ''DBus is not running'', w))"

definition fake_SessionBus :: "(gvalue list \<Rightarrow> gvalue list \<Rightarrow> gerror + gvalue list) \<Rightarrow> DBusFake \<Rightarrow> 'w fake_world
    \<Rightarrow> (gerror + 'w fake_world dbus_Connection) \<times> 'w fake_world" where
  "fake_SessionBus god db w =
     (case fakeSessionBus db of Some p \<Rightarrow> (Inr (fake_Connection god p), w) | None \<Rightarrow> (Inl ''DBus is not running'', w))"

definition fake_Interface :: "(gvalue list \<Rightarrow> gvalue list \<Rightarrow> gerror + gvalue list) \<Rightarrow> DBusFake \<Rightarrow> 'w fake_world dbus_Interface" where
  "fake_Interface god db = \<lparr>SystemBus = fake_SystemBus god db, SessionBus = fake_SessionBus god db\<rparr>"

definition SetBusObject :: "fake_handler \<Rightarrow> DBusFakeConnection \<Rightarrow> DBusFakeConnection" where
  "SetBusObject handler conn = conn\<lparr>busObject := Some handler\<rparr>"

definition AddObject :: "string \<Rightarrow> string \<Rightarrow> fake_handler \<Rightarrow> DBusFakeConnection \<Rightarrow> DBusFakeConnection" where
  "AddObject name path handler conn = conn\<lparr>objects := AList.update (name @ path) handler (objects conn)\<rparr>"

text \<open>\<open>EmitSignal\<close> sends on every registered channel; the channels are queues.\<close>

definition EmitSignal :: "nat \<Rightarrow> string \<Rightarrow> string \<Rightarrow> string \<Rightarrow> string \<Rightarrow> gvalue list \<Rightarrow> 'w fake_world \<Rightarrow> 'w fake_world" where
  "EmitSignal p name path iface signal args w =
     (let sig = \<lparr>sigSender = name, sigPath = path, sigName = iface @ ''.'' @ signal, sigBody = args\<rparr>
      in w\<lparr>fw_chans := fold (\<lambda>ch cs. cs(ch := cs ch @ [Some sig])) (signalHandlers (fw_conns w p)) (fw_chans w)\<rparr>)"

lemma toggle_twice: "set (toggle ch (toggle ch hs)) = set hs" if "distinct hs"
  using that by (auto simp: toggle_def)

lemma toggle_distinct: "distinct (toggle ch hs) = distinct hs" if "distinct hs"
  using that by (auto simp: toggle_def)

lemma send_all:
  "distinct hs \<Longrightarrow> fold (\<lambda>ch cs. cs(ch := cs ch @ [x])) hs chans c = chans c @ (if c \<in> set hs then [x] else [])"
  by (induction hs arbitrary: chans) auto

text \<open>A signal emitted on the fake bus reaches every registered channel once and no other.\<close>

lemma EmitSignal_delivers:
  assumes "distinct (signalHandlers (fw_conns w p))"
  shows "fw_chans (EmitSignal p nm pth ifc sg args w) c =
    fw_chans w c @ (if c \<in> set (signalHandlers (fw_conns w p))
      then [Some \<lparr>sigSender = nm, sigPath = pth, sigName = ifc @ ''.'' @ sg, sigBody = args\<rparr>] else [])"
  by (simp add: EmitSignal_def Let_def send_all [OF assms])

subsection \<open>What a connection promises\<close>

text \<open>
  The contract a client of a connection relies on. \<open>regs\<close> are the registrations, in their order, and
  \<open>objs\<close> are the objects that exist; calls on them return and leave the registrations alone. The
  comment on the interface says that \<open>Signal\<close> registers or unregisters a channel; the documentation
  of \<^verbatim>\<open>godbus\<close> says that it registers one (another method removes it). So there are two contracts.
\<close>

locale dbus_connection =
  fixes bus :: "'w dbus_Connection" and ok :: "'w \<Rightarrow> bool" and regs :: "'w \<Rightarrow> nat list" and objs :: "(string \<times> string) set"
  assumes signal_ok: "ok w \<Longrightarrow> ok (Signal bus ch w)"
    and bus_call: "ok v \<Longrightarrow> ok w \<Longrightarrow> Call (BusObject bus v) meth fl args w = (res, w') \<Longrightarrow>
      res \<noteq> Panics \<and> ok w' \<and> regs w' = regs w"
    and object_call: "(name, path) \<in> objs \<Longrightarrow> ok v \<Longrightarrow> ok w \<Longrightarrow> Call (Object bus name path v) meth fl args w = (res, w') \<Longrightarrow>
      res \<noteq> Panics \<and> ok w' \<and> regs w' = regs w"

locale toggling_connection = dbus_connection +
  assumes signal_toggles: "ok w \<Longrightarrow> regs (Signal bus ch w) = toggle ch (regs w)"
    and regs_distinct: "ok w \<Longrightarrow> distinct (regs w)"

locale adding_connection = dbus_connection +
  assumes signal_adds: "ok w \<Longrightarrow> regs (Signal bus ch w) = regs w @ [ch]"

text \<open>The fake connection toggles.\<close>

definition fake_ok :: "nat \<Rightarrow> (string \<times> string) set \<Rightarrow> 'w fake_world \<Rightarrow> bool" where
  "fake_ok p objs w \<longleftrightarrow> distinct (signalHandlers (fw_conns w p)) \<and> busObject (fw_conns w p) \<noteq> None \<and>
     (\<forall>(name, path) \<in> objs. map_of (objects (fw_conns w p)) (name @ path) \<noteq> None)"

definition fake_regs :: "nat \<Rightarrow> 'w fake_world \<Rightarrow> nat list" where
  "fake_regs p w = signalHandlers (fw_conns w p)"

lemmas fake_defs = fake_Connection_def fake_BusObject_def fake_Object_def fake_Signal_def fake_Call_def fake_ok_def fake_regs_def Let_def

interpretation fakeb: toggling_connection "fake_Connection god p" "fake_ok p objs" "fake_regs p" objs
proof
  fix w :: "'w fake_world" and ch
  assume "fake_ok p objs w"
  then show "fake_ok p objs (Signal (fake_Connection god p) ch w)" by (auto simp: fake_defs toggle_distinct)
qed (auto simp: fake_defs split: option.splits prod.splits)

text \<open>A connection over \<^verbatim>\<open>godbus\<close> adds, if the library does what its documentation says.\<close>

locale godbus_library =
  fixes g :: "('c, 'o, 'r, 'w) godbus" and conn :: 'c and regs :: "'w \<Rightarrow> nat list"
  assumes god_signal: "regs (god_Signal g conn ch w) = regs w @ [ch]"
    and god_call: "god_Call g obj meth fl args w = (res, w') \<Longrightarrow> regs w' = regs w"

sublocale godbus_library \<subseteq> real: adding_connection "connImpl g conn" "\<lambda>_. True" regs UNIV
  by unfold_locales
    (auto simp: connImpl_def conn_BusObject_def conn_Object_def conn_Signal_def objectImpl_def obj_Call_def god_signal god_call
      split: prod.splits)

text \<open>A simulation of the library: the registrations of the only connection, and a number of its user.\<close>

definition sim_godbus :: "(unit, unit, unit, unit dbusImpl \<times> nat list \<times> nat) godbus" where
  "sim_godbus = \<lparr>god_SystemBus = (\<lambda>w. (Inr (), w)), god_SessionBus = (\<lambda>w. (Inr (), w)), god_BusObject = (\<lambda>_. ()),
     god_Object = (\<lambda>_ _ _. ()), god_Signal = (\<lambda>_ ch (d, hs, n). (d, hs @ [ch], n)), god_Call = (\<lambda>_ _ _ _ w. ((), w)),
     god_Store = (\<lambda>_ _. Inr [])\<rparr>"

definition sim_regs :: "unit dbusImpl \<times> nat list \<times> nat \<Rightarrow> nat list" where
  "sim_regs w = fst (snd w)"

definition sim_cell :: "(unit dbusImpl, unit dbusImpl \<times> nat list \<times> nat) cell" where
  "sim_cell = \<lparr>load = fst, store = (\<lambda>x w. (x, snd w))\<rparr>"

interpretation simg: godbus_library sim_godbus "()" sim_regs
  by unfold_locales (auto simp: sim_godbus_def sim_regs_def)

interpretation simd: dbus_object sim_godbus sim_cell
  by unfold_locales (auto simp: sim_godbus_def sim_cell_def)

end
