(* ===== verification/Iptables.thy ===== *)
theory Iptables
  imports Exec Version IptablesSave Dbus
begin

text \<open>
  \<^verbatim>\<open>utils/iptables/iptables.go\<close> and \<^verbatim>\<open>iptables_linux.go\<close>: the runner that executes
  \<^verbatim>\<open>iptables\<close>, \<^verbatim>\<open>iptables-save\<close> and \<^verbatim>\<open>iptables-restore\<close>. The commands run through the
  parameter \<open>Exec\<close>; the files and sockets that serve as locks are the parameter \<open>LockOS\<close>.
  The runner's mutex makes every operation one step on the state of the machine.
\<close>

subsection \<open>Constants\<close>

datatype ipt_Protocol = ProtocolIpv4 | ProtocolIpv6

definition Prepend :: string where "Prepend = ''-I''"
definition Append :: string where "Append = ''-A''"
definition TableNAT :: string where "TableNAT = ''nat''"
definition TableFilter :: string where "TableFilter = ''filter''"
definition TableMangle :: string where "TableMangle = ''mangle''"
definition ChainPostrouting :: string where [simp]: "ChainPostrouting = ''POSTROUTING''"
definition ChainPrerouting :: string where [simp]: "ChainPrerouting = ''PREROUTING''"
definition ChainOutput :: string where [simp]: "ChainOutput = ''OUTPUT''"
definition ChainInput :: string where [simp]: "ChainInput = ''INPUT''"
definition ChainForward :: string where [simp]: "ChainForward = ''FORWARD''"
definition cmdIPTablesSave :: string where [simp]: "cmdIPTablesSave = ''iptables-save''"
definition cmdIPTablesRestore :: string where [simp]: "cmdIPTablesRestore = ''iptables-restore''"
definition cmdIPTables :: string where [simp]: "cmdIPTables = ''iptables''"
definition cmdIP6TablesRestore :: string where [simp]: "cmdIP6TablesRestore = ''ip6tables-restore''"
definition cmdIP6TablesSave :: string where [simp]: "cmdIP6TablesSave = ''ip6tables-save''"
definition cmdIP6Tables :: string where [simp]: "cmdIP6Tables = ''ip6tables''"
definition RestoreCounters :: bool where [simp]: "RestoreCounters = True"
definition NoRestoreCounters :: bool where [simp]: "NoRestoreCounters = False"
definition FlushTables :: bool where [simp]: "FlushTables = True"
definition NoFlushTables :: bool where [simp]: "NoFlushTables = False"
definition MinCheckVersion :: string where "MinCheckVersion = ''1.4.11''"
definition WaitMinVersion :: string where "WaitMinVersion = ''1.4.20''"
definition WaitSecondsMinVersion :: string where "WaitSecondsMinVersion = ''1.4.22''"
definition WaitString :: string where "WaitString = ''-w''"
definition WaitSecondsString :: string where "WaitSecondsString = ''-w5''"
definition LockfilePath16x :: string where "LockfilePath16x = ''/run/xtables.lock''"
definition opCreateChain :: string where "opCreateChain = ''-N''"
definition opFlushChain :: string where "opFlushChain = ''-F''"
definition opDeleteChain :: string where "opDeleteChain = ''-X''"
definition opAppendRule :: string where "opAppendRule = ''-A''"
definition opCheckRule :: string where "opCheckRule = ''-C''"
definition opDeleteRule :: string where "opDeleteRule = ''-D''"
definition opListRule :: string where "opListRule = ''-S''"

definition iptablesSaveCommand :: "ipt_Protocol \<Rightarrow> string" where
  "iptablesSaveCommand p = (if p = ProtocolIpv6 then cmdIP6TablesSave else cmdIPTablesSave)"

definition iptablesRestoreCommand :: "ipt_Protocol \<Rightarrow> string" where
  "iptablesRestoreCommand p = (if p = ProtocolIpv6 then cmdIP6TablesRestore else cmdIPTablesRestore)"

definition iptablesCommand :: "ipt_Protocol \<Rightarrow> string" where
  "iptablesCommand p = (if p = ProtocolIpv6 then cmdIP6Tables else cmdIPTables)"

subsection \<open>Versions and flags\<close>

definition getIPTablesHasCheckCommand :: "string \<Rightarrow> bool" where
  "getIPTablesHasCheckCommand vstring =
     (case ParseGeneric MinCheckVersion of
        Inl err \<Rightarrow> True
      | Inr minVersion \<Rightarrow>
          (case ParseGeneric vstring of Inl err \<Rightarrow> True | Inr version \<Rightarrow> AtLeast version minVersion))"

definition getIPTablesWaitFlag :: "string \<Rightarrow> string list" where
  "getIPTablesWaitFlag vstring =
     (case ParseGeneric vstring of
        Inl err \<Rightarrow> []
      | Inr version \<Rightarrow>
          (case ParseGeneric WaitMinVersion of
             Inl err \<Rightarrow> []
           | Inr minVersion \<Rightarrow>
               if LessThan version minVersion then []
               else case ParseGeneric WaitSecondsMinVersion of
                      Inl err \<Rightarrow> []
                    | Inr minVersion \<Rightarrow>
                        if LessThan version minVersion then [WaitString] else [WaitSecondsString]))"

definition versionMatcher :: re where
  "versionMatcher = Seq (Lit ''v'') (Grp 1 (Seq (Plus digit) (Plus (Grp 2 (Seq (Lit ''.'') (Plus digit))))))"

definition command_version :: "'w Exec \<Rightarrow> string \<Rightarrow> 'w \<Rightarrow> (gerror + string) \<times> 'w" where
  "command_version ex cmd w =
     (case CombinedOutput ex cmd [''--version''] [] w of
        ((bytes, Some err), w') \<Rightarrow> (Inl (err_text err), w')
      | ((bytes, None), w') \<Rightarrow>
          (case FindStringSubmatch versionMatcher bytes of
             None \<Rightarrow> (Inl (''no iptables version found in string: '' @ bytes), w')
           | Some mt \<Rightarrow> (Inr (mt 1), w')))"

definition getIPTablesVersionString :: "'w Exec \<Rightarrow> ipt_Protocol \<Rightarrow> 'w \<Rightarrow> (gerror + string) \<times> 'w" where
  "getIPTablesVersionString ex p w = command_version ex (iptablesCommand p) w"

definition getIPTablesRestoreVersionString :: "'w Exec \<Rightarrow> ipt_Protocol \<Rightarrow> 'w \<Rightarrow> (gerror + string) \<times> 'w" where
  "getIPTablesRestoreVersionString ex p w = command_version ex (iptablesRestoreCommand p) w"

definition getIPTablesRestoreWaitFlag :: "'w Exec \<Rightarrow> ipt_Protocol \<Rightarrow> 'w \<Rightarrow> string list \<times> 'w" where
  "getIPTablesRestoreWaitFlag ex p w =
     (case getIPTablesRestoreVersionString ex p w of
        (Inl err, w') \<Rightarrow> ([], w')
      | (Inr vstring, w') \<Rightarrow>
          if vstring = [] then ([], w')
          else case ParseGeneric vstring of Inl err \<Rightarrow> ([], w') | Inr _ \<Rightarrow> ([WaitSecondsString], w'))"

subsection \<open>The runner\<close>

record 'w ipt_runner =
  irProtocol :: ipt_Protocol
  irHasCheck :: bool
  irWaitFlag :: "string list"
  irRestoreWaitFlag :: "string list"
  irLockfilePath :: string
  irReloadFuncs :: "('w \<Rightarrow> 'w) list"
  irSignal :: "nat option"

definition makeFullArgs :: "string \<Rightarrow> string \<Rightarrow> string list \<Rightarrow> string list" where
  "makeFullArgs table chain args = [chain, ''-t'', table] @ args"

definition ipt_run :: "'w Exec \<Rightarrow> 'w ipt_runner \<Rightarrow> string \<Rightarrow> string list \<Rightarrow> 'w \<Rightarrow> (string \<times> exec_err option) \<times> 'w" where
  "ipt_run ex r op args w = CombinedOutput ex (iptablesCommand (irProtocol r)) (irWaitFlag r @ [op] @ args) [] w"

definition GetVersion :: "'w Exec \<Rightarrow> 'w ipt_runner \<Rightarrow> 'w \<Rightarrow> (gerror + string) \<times> 'w" where
  "GetVersion ex r w = getIPTablesVersionString ex (irProtocol r) w"

definition EnsureChain :: "'w Exec \<Rightarrow> 'w ipt_runner \<Rightarrow> string \<Rightarrow> string \<Rightarrow> 'w \<Rightarrow> (gerror + bool) \<times> 'w" where
  "EnsureChain ex r table chain w =
     (case ipt_run ex r opCreateChain (makeFullArgs table chain []) w of
        ((out, Some err), w') \<Rightarrow>
          if exited_1 err then (Inr True, w')
          else (Inl (''error creating chain '' @ Quote chain @ '': '' @ err_text err @ '': '' @ out), w')
      | ((out, None), w') \<Rightarrow> (Inr False, w'))"

definition FlushChain :: "'w Exec \<Rightarrow> 'w ipt_runner \<Rightarrow> string \<Rightarrow> string \<Rightarrow> 'w \<Rightarrow> gerror option \<times> 'w" where
  "FlushChain ex r table chain w =
     (case ipt_run ex r opFlushChain (makeFullArgs table chain []) w of
        ((out, err), w') \<Rightarrow>
          (map_option (\<lambda>e. ''error flushing chain '' @ Quote chain @ '': '' @ err_text e @ '': '' @ out) err, w'))"

definition DeleteChain :: "'w Exec \<Rightarrow> 'w ipt_runner \<Rightarrow> string \<Rightarrow> string \<Rightarrow> 'w \<Rightarrow> gerror option \<times> 'w" where
  "DeleteChain ex r table chain w =
     (case ipt_run ex r opDeleteChain (makeFullArgs table chain []) w of
        ((out, err), w') \<Rightarrow>
          (map_option (\<lambda>e. ''error deleting chain '' @ Quote chain @ '': '' @ err_text e @ '': '' @ out) err, w'))"

subsection \<open>Does a rule exist\<close>

definition hexnumRE :: re where
  "hexnumRE = Seq (Lit ''0x'') (Seq (Plus (Lit ''0'')) (Grp 1 digit))"

definition trimhex :: "string \<Rightarrow> string" where
  "trimhex s = ReplaceAllString hexnumRE s (\<lambda>g. ''0x'' @ g 1)"

definition unquote :: "string \<Rightarrow> string" where
  "unquote s = trimhex (Trim s [quote])"

definition unpack_args :: "string list \<Rightarrow> string list" where
  "unpack_args args = concat (map (\<lambda>a. Fields (unquote a)) args)"

fun find_rule_line :: "string \<Rightarrow> string list \<Rightarrow> string list \<Rightarrow> bool" where
  "find_rule_line chain argsCopy [] = False"
| "find_rule_line chain argsCopy (line # ls) =
     (let fs = Fields line
      in if \<not> HasPrefix line (''-A '' @ chain) \<or> length fs \<noteq> length argsCopy + 2
         then find_rule_line chain argsCopy ls
         else if set argsCopy \<subseteq> set (map unquote fs) then True
         else find_rule_line chain argsCopy ls)"

definition checkRuleWithoutCheck ::
    "'w Exec \<Rightarrow> 'w ipt_runner \<Rightarrow> string \<Rightarrow> string \<Rightarrow> string list \<Rightarrow> 'w \<Rightarrow> (gerror + bool) \<times> 'w" where
  "checkRuleWithoutCheck ex r table chain args w =
     (case CombinedOutput ex (iptablesSaveCommand (irProtocol r)) [''-t'', table] [] w of
        ((out, Some err), w') \<Rightarrow> (Inl (''error checking rule: '' @ err_text err), w')
      | ((out, None), w') \<Rightarrow> (Inr (find_rule_line chain (unpack_args args) (Split out nl)), w'))"

definition checkRuleUsingCheck :: "'w Exec \<Rightarrow> 'w ipt_runner \<Rightarrow> string list \<Rightarrow> 'w \<Rightarrow> (gerror + bool) \<times> 'w" where
  "checkRuleUsingCheck ex r args w =
     (case ipt_run ex r opCheckRule args w of
        ((out, None), w') \<Rightarrow> (Inr True, w')
      | ((out, Some err), w') \<Rightarrow>
          if exited_1 err then (Inr False, w')
          else (Inl (''error checking rule: '' @ err_text err @ '': '' @ out), w'))"

definition checkRule ::
    "'w Exec \<Rightarrow> 'w ipt_runner \<Rightarrow> string \<Rightarrow> string \<Rightarrow> string list \<Rightarrow> 'w \<Rightarrow> (gerror + bool) \<times> 'w" where
  "checkRule ex r table chain args w =
     (if irHasCheck r then checkRuleUsingCheck ex r (makeFullArgs table chain args) w
      else checkRuleWithoutCheck ex r table chain args w)"

definition EnsureRule ::
    "'w Exec \<Rightarrow> 'w ipt_runner \<Rightarrow> string \<Rightarrow> string \<Rightarrow> string \<Rightarrow> string list \<Rightarrow> 'w \<Rightarrow> (gerror + bool) \<times> 'w" where
  "EnsureRule ex r position table chain args w =
     (case checkRule ex r table chain args w of
        (Inl err, w') \<Rightarrow> (Inl err, w')
      | (Inr True, w') \<Rightarrow> (Inr True, w')
      | (Inr False, w') \<Rightarrow>
          (case ipt_run ex r position (makeFullArgs table chain args) w' of
             ((out, Some err), w'') \<Rightarrow> (Inl (''error appending rule: '' @ err_text err @ '': '' @ out), w'')
           | ((out, None), w'') \<Rightarrow> (Inr False, w'')))"

definition DeleteRule ::
    "'w Exec \<Rightarrow> 'w ipt_runner \<Rightarrow> string \<Rightarrow> string \<Rightarrow> string list \<Rightarrow> 'w \<Rightarrow> gerror option \<times> 'w" where
  "DeleteRule ex r table chain args w =
     (case checkRule ex r table chain args w of
        (Inl err, w') \<Rightarrow> (Some err, w')
      | (Inr False, w') \<Rightarrow> (None, w')
      | (Inr True, w') \<Rightarrow>
          (case ipt_run ex r opDeleteRule (makeFullArgs table chain args) w' of
             ((out, err), w'') \<Rightarrow> (map_option (\<lambda>e. ''error deleting rule: '' @ err_text e @ '': '' @ out) err, w'')))"

definition ListRule ::
    "'w Exec \<Rightarrow> 'w ipt_runner \<Rightarrow> string \<Rightarrow> string \<Rightarrow> string list \<Rightarrow> 'w \<Rightarrow> (gerror + string list) \<times> 'w" where
  "ListRule ex r table chain args w =
     (case ipt_run ex r opListRule (makeFullArgs table chain args) w of
        ((out, Some err), w') \<Rightarrow> (Inl (''error listing rule: '' @ err_text err @ '': '' @ out), w')
      | ((out, None), w') \<Rightarrow> (Inr (Split out nl), w'))"

definition IsIpv6 :: "'w ipt_runner \<Rightarrow> bool" where
  "IsIpv6 r \<longleftrightarrow> irProtocol r = ProtocolIpv6"

text \<open>\<open>SaveInto\<close> sends both outputs of the command into the buffer, behind what it holds.\<close>

definition SaveInto :: "'w Exec \<Rightarrow> 'w ipt_runner \<Rightarrow> string \<Rightarrow> string \<Rightarrow> 'w \<Rightarrow> (exec_err option \<times> string) \<times> 'w" where
  "SaveInto ex r table buffer w =
     (case CombinedOutput ex (iptablesSaveCommand (irProtocol r)) [''-t'', table] [] w of
        ((out, err), w') \<Rightarrow> ((err, buffer @ out), w'))"

definition EnsurePolicy :: "'w Exec \<Rightarrow> 'w ipt_runner \<Rightarrow> string \<Rightarrow> string \<Rightarrow> string \<Rightarrow> 'w \<Rightarrow> gerror option \<times> 'w" where
  "EnsurePolicy ex r table chain policy w =
     (case CombinedOutput ex (iptablesCommand (irProtocol r)) [''-t'', table, ''-P'', chain, policy] [] w of
        ((b, err), w') \<Rightarrow> (map_option (\<lambda>e. err_text e @ '' ('' @ b @ '')'') err, w'))"

subsection \<open>Locks (iptables_linux.go)\<close>

record 'w LockOS =
  OpenFile :: "string \<Rightarrow> 'w \<Rightarrow> gerror option \<times> 'w"
  Flock :: "'w \<Rightarrow> gerror option \<times> 'w"
  ListenUnix :: "'w \<Rightarrow> gerror option \<times> 'w"
  Close16 :: "'w \<Rightarrow> gerror option \<times> 'w"
  Close14 :: "'w \<Rightarrow> gerror option \<times> 'w"

text \<open>Which of the two locks a \<open>locker\<close> has opened.\<close>

record locker =
  lock16 :: bool
  lock14 :: bool

definition NewAggregate :: "gerror list \<Rightarrow> gerror option" where
  "NewAggregate errs = (if errs = [] then None else Some (Join errs '', ''))"

definition locker_Close :: "'w LockOS \<Rightarrow> locker \<Rightarrow> 'w \<Rightarrow> gerror option \<times> 'w" where
  "locker_Close os l w =
     (let (e16, w) = (if lock16 l then Close16 os w else (None, w));
          (e14, w) = (if lock14 l then Close14 os w else (None, w))
      in (NewAggregate (List.map_filter id [e16, e14]), w))"

text \<open>
  \<open>wait.PollImmediate\<close> tries at once, then at each tick it is there for, and once more at the timeout;
  \<open>n\<close> is the number of attempts after the first.
\<close>

fun PollImmediate :: "nat \<Rightarrow> ('w \<Rightarrow> bool \<times> 'w) \<Rightarrow> 'w \<Rightarrow> gerror option \<times> 'w" where
  "PollImmediate n cond w =
     (case cond w of
        (True, w') \<Rightarrow> (None, w')
      | (False, w') \<Rightarrow>
          (case n of 0 \<Rightarrow> (Some ''timed out waiting for the condition'', w') | Suc k \<Rightarrow> PollImmediate k cond w'))"

declare PollImmediate.simps [simp del]

definition try_lock :: "('w \<Rightarrow> gerror option \<times> 'w) \<Rightarrow> 'w \<Rightarrow> bool \<times> 'w" where
  "try_lock f w = (case f w of (None, w') \<Rightarrow> (True, w') | (Some err, w') \<Rightarrow> (False, w'))"

definition grabIptablesFileLock :: "'w LockOS \<Rightarrow> 'w \<Rightarrow> gerror option \<times> 'w" where
  [simp]: "grabIptablesFileLock os = Flock os"

definition grabIptablesLocks :: "'w LockOS \<Rightarrow> nat \<Rightarrow> string \<Rightarrow> 'w \<Rightarrow> (gerror + locker) \<times> 'w" where
  "grabIptablesLocks os n lockfilePath w =
     (case OpenFile os lockfilePath w of
        (Some err, w) \<Rightarrow>
          (Inl (''failed to open iptables lock '' @ lockfilePath @ '': '' @ err),
           snd (locker_Close os \<lparr>lock16 = False, lock14 = False\<rparr> w))
      | (None, w) \<Rightarrow>
          (case PollImmediate n (try_lock (grabIptablesFileLock os)) w of
             (Some err, w) \<Rightarrow>
               (Inl (''failed to acquire new iptables lock: '' @ err),
                snd (locker_Close os \<lparr>lock16 = True, lock14 = False\<rparr> w))
           | (None, w) \<Rightarrow>
               (case PollImmediate n (try_lock (ListenUnix os)) w of
                  (Some err, w) \<Rightarrow>
                    (Inl (''failed to acquire old iptables lock: '' @ err),
                     snd (locker_Close os \<lparr>lock16 = True, lock14 = False\<rparr> w))
                | (None, w) \<Rightarrow> (Inr \<lparr>lock16 = True, lock14 = True\<rparr>, w))))"

text \<open>On other platforms (\<^verbatim>\<open>iptables_unsupported.go\<close>).\<close>

definition grabIptablesLocks_unsupported :: "string \<Rightarrow> 'w \<Rightarrow> (gerror + locker) \<times> 'w" where
  "grabIptablesLocks_unsupported lockfilePath w = (Inl ''iptables unsupported on this platform'', w)"

definition grabIptablesFileLock_unsupported :: "'w \<Rightarrow> gerror option \<times> 'w" where
  "grabIptablesFileLock_unsupported w = (Some ''iptables unsupported on this platform'', w)"

subsection \<open>Restore\<close>

definition restoreInternal ::
    "'w Exec \<Rightarrow> 'w LockOS \<Rightarrow> nat \<Rightarrow> 'w ipt_runner \<Rightarrow> string list \<Rightarrow> string \<Rightarrow> bool \<Rightarrow> bool \<Rightarrow> 'w \<Rightarrow> gerror option \<times> 'w" where
  "restoreInternal ex os n r args data flush counters w =
     (let args = args @ (if \<not> flush then [''--noflush''] else []) @ (if counters then [''--counters''] else []);
          run = (\<lambda>w. case CombinedOutput ex (iptablesRestoreCommand (irProtocol r)) (irRestoreWaitFlag r @ args) data w of
                       ((b, err), w') \<Rightarrow> (map_option (\<lambda>e. err_text e @ '' ('' @ b @ '')'') err, w'))
      in if irRestoreWaitFlag r = []
         then case grabIptablesLocks os n (irLockfilePath r) w of
                (Inl err, w) \<Rightarrow> (Some err, w)
              | (Inr l, w) \<Rightarrow> (case run w of (res, w) \<Rightarrow> (res, snd (locker_Close os l w)))
         else run w)"

definition Restore ::
    "'w Exec \<Rightarrow> 'w LockOS \<Rightarrow> nat \<Rightarrow> 'w ipt_runner \<Rightarrow> string \<Rightarrow> string \<Rightarrow> bool \<Rightarrow> bool \<Rightarrow> 'w \<Rightarrow> gerror option \<times> 'w" where
  "Restore ex os n r table data flush counters w = restoreInternal ex os n r [''-T'', table] data flush counters w"

definition RestoreAll ::
    "'w Exec \<Rightarrow> 'w LockOS \<Rightarrow> nat \<Rightarrow> 'w ipt_runner \<Rightarrow> string \<Rightarrow> bool \<Rightarrow> bool \<Rightarrow> 'w \<Rightarrow> gerror option \<times> 'w" where
  "RestoreAll ex os n r data flush counters w = restoreInternal ex os n r [] data flush counters w"

subsection \<open>FirewallD\<close>

definition firewalldName :: string where "firewalldName = ''org.fedoraproject.FirewallD1''"
definition firewalldPath :: string where "firewalldPath = ''/org/fedoraproject/FirewallD1''"
definition firewalldInterface :: string where "firewalldInterface = ''org.fedoraproject.FirewallD1''"

definition sq :: "string \<Rightarrow> string" where
  "sq s = [CHR 0x27] @ s @ [CHR 0x27]"

definition reloaded_rule :: string where
  "reloaded_rule = ''type='' @ sq ''signal'' @ '',sender='' @ sq firewalldName @ '',path='' @ sq firewalldPath
     @ '',interface='' @ sq firewalldInterface @ '',member='' @ sq ''Reloaded''"

definition owner_rule :: string where
  "owner_rule = ''type='' @ sq ''signal'' @ '',interface='' @ sq ''org.freedesktop.DBus''
     @ '',member='' @ sq ''NameOwnerChanged'' @ '',path='' @ sq ''/org/freedesktop/DBus''
     @ '',sender='' @ sq ''org.freedesktop.DBus'' @ '',arg0='' @ sq firewalldName"

text \<open>
  \<open>connectToFirewallD\<close>: \<open>ch\<close> is the channel it makes. The result says over which connection the
  signal handler is started, if at all. A call on a missing object panics.
\<close>

definition connectToFirewallD :: "'w dbus_Interface \<Rightarrow> nat \<Rightarrow> 'w ipt_runner \<Rightarrow> 'w
    \<Rightarrow> ('w dbus_Connection option \<times> 'w ipt_runner) gocall \<times> 'w" where
  "connectToFirewallD dbus ch r w =
     (case SystemBus dbus w of
        (Inl err, w) \<Rightarrow> (Returns (None, r), w)
      | (Inr bus, w) \<Rightarrow>
          (case Call (BusObject bus w) ''org.freedesktop.DBus.AddMatch'' 0 [Some reloaded_rule] w of
             (Panics, w) \<Rightarrow> (Panics, w)
           | (Returns _, w) \<Rightarrow>
               (case Call (BusObject bus w) ''org.freedesktop.DBus.AddMatch'' 0 [Some owner_rule] w of
                  (Panics, w) \<Rightarrow> (Panics, w)
                | (Returns _, w) \<Rightarrow> (Returns (Some bus, r\<lparr>irSignal := Some ch\<rparr>), Signal bus ch w))))"

definition newInternal :: "'w Exec \<Rightarrow> 'w dbus_Interface \<Rightarrow> nat \<Rightarrow> ipt_Protocol \<Rightarrow> string \<Rightarrow> 'w
    \<Rightarrow> ('w dbus_Connection option \<times> 'w ipt_runner) gocall \<times> 'w" where
  "newInternal ex dbus ch protocol lockfilePath w =
     (let (v, w) = getIPTablesVersionString ex protocol w;
          vstring = (case v of Inl err \<Rightarrow> MinCheckVersion | Inr s \<Rightarrow> s);
          lockfilePath = (if lockfilePath = [] then LockfilePath16x else lockfilePath);
          (restoreFlag, w) = getIPTablesRestoreWaitFlag ex protocol w
      in connectToFirewallD dbus ch
           \<lparr>irProtocol = protocol, irHasCheck = getIPTablesHasCheckCommand vstring,
            irWaitFlag = getIPTablesWaitFlag vstring, irRestoreWaitFlag = restoreFlag,
            irLockfilePath = lockfilePath, irReloadFuncs = [], irSignal = None\<rparr> w)"

definition ipt_New :: "'w Exec \<Rightarrow> 'w dbus_Interface \<Rightarrow> nat \<Rightarrow> ipt_Protocol \<Rightarrow> 'w
    \<Rightarrow> ('w dbus_Connection option \<times> 'w ipt_runner) gocall \<times> 'w" where
  "ipt_New ex dbus ch protocol w = newInternal ex dbus ch protocol [] w"

definition AddReloadFunc :: "('w \<Rightarrow> 'w) \<Rightarrow> 'w ipt_runner \<Rightarrow> 'w ipt_runner" where
  "AddReloadFunc f r = r\<lparr>irReloadFuncs := irReloadFuncs r @ [f]\<rparr>"

definition reload :: "'w ipt_runner \<Rightarrow> 'w \<Rightarrow> 'w" where
  "reload r w = fold (\<lambda>f w. f w) (irReloadFuncs r) w"

text \<open>\<open>Destroy\<close> sends nil to the signal handler; the channels are queues of pointers to signals.\<close>

definition Destroy :: "'w ipt_runner \<Rightarrow> (nat \<Rightarrow> dbus_signal option list) \<Rightarrow> (nat \<Rightarrow> dbus_signal option list)" where
  "Destroy r chans = (case irSignal r of None \<Rightarrow> chans | Some ch \<Rightarrow> chans(ch := chans ch @ [None]))"

definition body_string :: "gvalue list \<Rightarrow> nat \<Rightarrow> string gocall" where
  "body_string body i =
     (if i < length body then case body ! i of Some s \<Rightarrow> Returns s | None \<Rightarrow> Panics else Panics)"

text \<open>
  The goroutine that handles signals, over the values it receives: the loop with the object
  \<open>firewalld\<close> it has made. A panic ends it with the state it had reached; the loop also ends when
  the values run out.
\<close>

fun signal_loop :: "'w dbus_Connection \<Rightarrow> 'w dbus_Object \<Rightarrow> 'w ipt_runner \<Rightarrow> dbus_signal option list \<Rightarrow> 'w
    \<Rightarrow> unit gocall \<times> 'w" where
  "signal_loop bus firewalld r [] w = (Returns (), w)"
| "signal_loop bus firewalld r (None # ss) w =
     (Returns (), case irSignal r of None \<Rightarrow> w | Some ch \<Rightarrow> Signal bus ch w)"
| "signal_loop bus firewalld r (Some s # ss) w =
     (if sigName s = ''org.freedesktop.DBus.NameOwnerChanged''
      then case body_string (sigBody s) 0 of
             Panics \<Rightarrow> (Panics, w)
           | Returns name \<Rightarrow>
               (case body_string (sigBody s) 2 of
                  Panics \<Rightarrow> (Panics, w)
                | Returns new_owner \<Rightarrow>
                    if name \<noteq> firewalldName \<or> length new_owner = 0 then signal_loop bus firewalld r ss w
                    else
                      (case Call firewalld (firewalldInterface @ ''.getDefaultZone'') 0 [] w of
                         (Panics, w) \<Rightarrow> (Panics, w)
                       | (Returns _, w) \<Rightarrow> signal_loop bus firewalld r ss (reload r w)))
      else if sigName s = firewalldInterface @ ''.Reloaded'' then signal_loop bus firewalld r ss (reload r w)
      else signal_loop bus firewalld r ss w)"

definition dbusSignalHandler :: "'w dbus_Connection \<Rightarrow> 'w ipt_runner \<Rightarrow> dbus_signal option list \<Rightarrow> 'w \<Rightarrow> unit gocall \<times> 'w" where
  "dbusSignalHandler bus r signals w = signal_loop bus (Object bus firewalldName firewalldPath w) r signals w"

definition ipt_IsNotFoundError :: "gerror \<Rightarrow> bool" where
  "ipt_IsNotFoundError es \<longleftrightarrow>
     Contains es ''No such file or directory'' \<or> Contains es ''No chain/target/match by that name''"

subsection \<open>The interface\<close>

text \<open>
  The operations of \<open>Interface\<close> that act on the machine; \<open>AddReloadFunc\<close> and \<open>Destroy\<close> act on the
  runner alone.
\<close>

record 'w ipt_Interface =
  iGetVersion :: "'w \<Rightarrow> (gerror + string) \<times> 'w"
  iEnsureChain :: "string \<Rightarrow> string \<Rightarrow> 'w \<Rightarrow> (gerror + bool) \<times> 'w"
  iFlushChain :: "string \<Rightarrow> string \<Rightarrow> 'w \<Rightarrow> gerror option \<times> 'w"
  iDeleteChain :: "string \<Rightarrow> string \<Rightarrow> 'w \<Rightarrow> gerror option \<times> 'w"
  iEnsureRule :: "string \<Rightarrow> string \<Rightarrow> string \<Rightarrow> string list \<Rightarrow> 'w \<Rightarrow> (gerror + bool) \<times> 'w"
  iDeleteRule :: "string \<Rightarrow> string \<Rightarrow> string list \<Rightarrow> 'w \<Rightarrow> gerror option \<times> 'w"
  iListRule :: "string \<Rightarrow> string \<Rightarrow> string list \<Rightarrow> 'w \<Rightarrow> (gerror + string list) \<times> 'w"
  iIsIpv6 :: bool
  iSaveInto :: "string \<Rightarrow> string \<Rightarrow> 'w \<Rightarrow> (exec_err option \<times> string) \<times> 'w"
  iEnsurePolicy :: "string \<Rightarrow> string \<Rightarrow> string \<Rightarrow> 'w \<Rightarrow> gerror option \<times> 'w"
  iRestore :: "string \<Rightarrow> string \<Rightarrow> bool \<Rightarrow> bool \<Rightarrow> 'w \<Rightarrow> gerror option \<times> 'w"
  iRestoreAll :: "string \<Rightarrow> bool \<Rightarrow> bool \<Rightarrow> 'w \<Rightarrow> gerror option \<times> 'w"

definition ipt_handler :: "'w Exec \<Rightarrow> 'w LockOS \<Rightarrow> nat \<Rightarrow> 'w ipt_runner \<Rightarrow> 'w ipt_Interface" where
  "ipt_handler ex os n r =
     \<lparr>iGetVersion = GetVersion ex r, iEnsureChain = EnsureChain ex r, iFlushChain = FlushChain ex r,
      iDeleteChain = DeleteChain ex r, iEnsureRule = EnsureRule ex r, iDeleteRule = DeleteRule ex r,
      iListRule = ListRule ex r, iIsIpv6 = IsIpv6 r, iSaveInto = SaveInto ex r, iEnsurePolicy = EnsurePolicy ex r,
      iRestore = Restore ex os n r, iRestoreAll = RestoreAll ex os n r\<rparr>"

end
