(* ===== verification/Sysctl.thy ===== *)
theory Sysctl
  imports Prelude
begin

text \<open>
  \<^verbatim>\<open>utils/sysctl/sysctl.go\<close>: kernel settings under \<^verbatim>\<open>/proc/sys\<close>. Reading and writing files is a
  parameter, the record \<open>Files\<close>; \<open>path.Join\<close> is modelled with the cleaning it does.
\<close>

record 'w Files =
  ReadFile :: "string \<Rightarrow> 'w \<Rightarrow> (gerror + string) \<times> 'w"
  WriteFile :: "string \<Rightarrow> string \<Rightarrow> nat \<Rightarrow> 'w \<Rightarrow> gerror option \<times> 'w"

subsection \<open>Paths\<close>

text \<open>The elements kept so far are in reverse order.\<close>

fun clean_parts :: "bool \<Rightarrow> string list \<Rightarrow> string list \<Rightarrow> string list" where
  "clean_parts rooted acc [] = rev acc"
| "clean_parts rooted acc (p # ps) =
     (if p = [] \<or> p = ''.'' then clean_parts rooted acc ps
      else if p = ''..''
      then if acc \<noteq> [] \<and> hd acc \<noteq> ''..'' then clean_parts rooted (tl acc) ps
           else if rooted then clean_parts rooted acc ps
           else clean_parts rooted (p # acc) ps
      else clean_parts rooted (p # acc) ps)"

definition path_Clean :: "string \<Rightarrow> string" where
  "path_Clean p =
     (let rooted = HasPrefix p ''/'';
          out = (if rooted then ''/'' else []) @ Join (clean_parts rooted [] (Split p (CHR ''/''))) ''/''
      in if out = [] then ''.'' else out)"

definition path_Join :: "string list \<Rightarrow> string" where
  "path_Join elems =
     (let es = filter (\<lambda>e. e \<noteq> []) elems in if es = [] then [] else path_Clean (Join es ''/''))"

subsection \<open>Settings\<close>

definition sysctlBase :: string where "sysctlBase = ''/proc/sys''"

definition GetSysctl :: "'w Files \<Rightarrow> string \<Rightarrow> 'w \<Rightarrow> (gerror + int) \<times> 'w" where
  "GetSysctl fs sysctl w =
     (case ReadFile fs (path_Join [sysctlBase, sysctl]) w of
        (Inl err, w) \<Rightarrow> (Inl err, w)
      | (Inr data, w) \<Rightarrow> (Atoi (Trim data ('' '' @ [nl])), w))"

definition SetSysctl :: "'w Files \<Rightarrow> string \<Rightarrow> int \<Rightarrow> 'w \<Rightarrow> gerror option \<times> 'w" where
  "SetSysctl fs sysctl newVal w = WriteFile fs (path_Join [sysctlBase, sysctl]) (Itoa newVal) 0x1A0 w"

definition EnsureSysctl :: "'w Files \<Rightarrow> string \<Rightarrow> int \<Rightarrow> 'w \<Rightarrow> gerror option \<times> 'w" where
  "EnsureSysctl fs sysctl newVal w =
     (case GetSysctl fs sysctl w of
        (Inl err, w) \<Rightarrow> (Some err, w)
      | (Inr oldVal, w) \<Rightarrow> if oldVal \<noteq> newVal then SetSysctl fs sysctl newVal w else (None, w))"

lemma dropWhile_hd: "xs \<noteq> [] \<Longrightarrow> \<not> p (hd xs) \<Longrightarrow> dropWhile p xs = xs"
  by (cases xs) auto

lemma Itoa_edges: "Itoa v \<noteq> [] \<and> hd (Itoa v) \<notin> {CHR '' '', nl} \<and> last (Itoa v) \<notin> {CHR '' '', nl}"
proof -
  have d: "list_all is_digit (show_nat n)" "show_nat n \<noteq> []" for n by (simp_all add: show_nat_digits)
  have "c \<notin> {CHR '' '', nl}" if "is_digit c" for c using that by (auto simp: is_digit_def)
  then have "hd (show_nat n) \<notin> {CHR '' '', nl}" "last (show_nat n) \<notin> {CHR '' '', nl}" for n
    using d [of n] hd_in_set last_in_set unfolding list_all_iff by blast+
  then show ?thesis using d by (auto simp: Itoa_def)
qed

lemma Trim_printed: "Trim (Itoa v @ [nl]) ('' '' @ [nl]) = Itoa v"
proof -
  let ?p = "\<lambda>c. c \<in> set ('' '' @ [nl])"
  note e = Itoa_edges [of v]
  have "dropWhile ?p (Itoa v @ [nl]) = Itoa v @ [nl]" using e by (intro dropWhile_hd) auto
  moreover have "dropWhile ?p (rev (Itoa v)) = rev (Itoa v)" using e by (intro dropWhile_hd) (auto simp: hd_rev)
  ultimately show ?thesis by (simp add: Trim_def TrimBy_def)
qed

subsection \<open>What the files promise\<close>

text \<open>
  A setting holds a number. A read that succeeds prints it, with a newline; a write of a number
  that succeeds stores it; nothing else changes, and a write that fails changes nothing.
\<close>

locale proc_files =
  fixes fs :: "'w Files" and vals :: "'w \<Rightarrow> string \<Rightarrow> int option"
  assumes read_law: "ReadFile fs p w = (res, w') \<Longrightarrow>
      vals w' = vals w \<and>
      (\<forall>data. res = Inr data \<longrightarrow>
         (\<exists>v. vals w p = Some v \<and> - (2 ^ 63) \<le> v \<and> v < 2 ^ 63 \<and> data = Itoa v @ [nl]))"
    and write_law: "- (2 ^ 63) \<le> v \<Longrightarrow> v < 2 ^ 63 \<Longrightarrow> WriteFile fs p (Itoa v) perm w = (e, w') \<Longrightarrow>
      vals w' = (if e = None then (vals w)(p \<mapsto> v) else vals w)"
begin

lemma Get_result:
  assumes "GetSysctl fs sysctl w = (res, w')"
  shows "vals w' = vals w \<and> (\<forall>v. res = Inr v \<longrightarrow> vals w (path_Join [sysctlBase, sysctl]) = Some v)"
proof -
  obtain q w1 where r: "ReadFile fs (path_Join [sysctlBase, sysctl]) w = (q, w1)" by force
  show ?thesis
    using assms r read_law [OF r]
    by (cases q) (auto simp: GetSysctl_def Trim_printed Atoi_Itoa simp del: append_Cons)
qed

lemma Ensure_result:
  assumes "- (2 ^ 63) \<le> newVal" "newVal < 2 ^ 63" "EnsureSysctl fs sysctl newVal w = (res, w')"
  shows "vals w' = (if res = None then (vals w)(path_Join [sysctlBase, sysctl] \<mapsto> newVal) else vals w) \<and>
    (vals w (path_Join [sysctlBase, sysctl]) = Some newVal \<longrightarrow> w' = snd (GetSysctl fs sysctl w))"
proof -
  obtain q w1 where g: "GetSysctl fs sysctl w = (q, w1)" by force
  obtain e w2 where s: "WriteFile fs (path_Join [sysctlBase, sysctl]) (Itoa newVal) 0x1A0 w1 = (e, w2)" by force
  show ?thesis
    using assms(3) g s Get_result [OF g] write_law [OF assms(1,2) s]
    by (cases q) (auto simp: EnsureSysctl_def SetSysctl_def fun_upd_idem split: if_splits)
qed

end

text \<open>Settings kept in a map.\<close>

definition map_files :: "(string \<rightharpoonup> int) Files" where
  "map_files =
     \<lparr>ReadFile = (\<lambda>p w. (case w p of
          Some v \<Rightarrow> if - (2 ^ 63) \<le> v \<and> v < 2 ^ 63 then Inr (Itoa v @ [nl]) else Inl ''bad value''
        | None \<Rightarrow> Inl ''no such file or directory'', w)),
      WriteFile = (\<lambda>p data perm w. case Atoi data of Inr v \<Rightarrow> (None, w(p \<mapsto> v)) | Inl err \<Rightarrow> (Some err, w))\<rparr>"

interpretation map_proc: proc_files map_files "\<lambda>w. w"
  by unfold_locales (auto simp: map_files_def Atoi_Itoa split: option.splits if_splits)

text \<open>
  Files of settings that work: what exists can be read and written. Then \<open>EnsureSysctl\<close> sets every
  setting there is, and fails on one there is not.
\<close>

locale proc_files_reliable = proc_files +
  assumes read_sure: "vals w p \<noteq> None \<Longrightarrow> ReadFile fs p w = (res, w') \<Longrightarrow> \<exists>data. res = Inr data"
    and write_sure: "vals w p \<noteq> None \<Longrightarrow> - (2 ^ 63) \<le> v \<Longrightarrow> v < 2 ^ 63 \<Longrightarrow> fst (WriteFile fs p (Itoa v) perm w) = None"
begin

lemma Ensure_sure:
  assumes "- (2 ^ 63) \<le> newVal" "newVal < 2 ^ 63" "EnsureSysctl fs sysctl newVal w = (res, w')"
  shows "res = None \<longleftrightarrow> vals w (path_Join [sysctlBase, sysctl]) \<noteq> None"
proof -
  let ?p = "path_Join [sysctlBase, sysctl]"
  obtain q w1 where r: "ReadFile fs ?p w = (q, w1)" by force
  note law = read_law [OF r]
  show ?thesis
  proof (cases q)
    case (Inl err)
    then show ?thesis using assms(3) r read_sure [OF _ r] by (auto simp: EnsureSysctl_def GetSysctl_def)
  next
    case (Inr data)
    with law obtain v where v: "vals w ?p = Some v" "- (2 ^ 63) \<le> v" "v < 2 ^ 63" "data = Itoa v @ [nl]" by blast
    have "vals w1 ?p \<noteq> None" using law v(1) by simp
    from write_sure [OF this assms(1,2)] have "fst (SetSysctl fs sysctl newVal w1) = None" by (simp add: SetSysctl_def)
    moreover have "GetSysctl fs sysctl w = (Inr v, w1)"
      using r Inr v(2-4) by (simp add: GetSysctl_def Trim_printed Atoi_Itoa del: append_Cons)
    ultimately show ?thesis using assms(3) v(1) by (cases "SetSysctl fs sysctl newVal w1") (auto simp: EnsureSysctl_def split: if_splits)
  qed
qed

lemma Ensure_sets:
  assumes "- (2 ^ 63) \<le> newVal" "newVal < 2 ^ 63" "EnsureSysctl fs sysctl newVal w = (res, w')"
  shows "vals w' = (if vals w (path_Join [sysctlBase, sysctl]) = None then vals w
    else (vals w)(path_Join [sysctlBase, sysctl] \<mapsto> newVal))"
  using Ensure_result [OF assms] Ensure_sure [OF assms] by simp

end

text \<open>The settings of the map that fit into a machine integer.\<close>

definition int64_vals :: "(string \<rightharpoonup> int) \<Rightarrow> string \<Rightarrow> int option" where
  "int64_vals w p = (case w p of Some v \<Rightarrow> if - (2 ^ 63) \<le> v \<and> v < 2 ^ 63 then Some v else None | None \<Rightarrow> None)"

interpretation map_proc_sure: proc_files_reliable map_files int64_vals
proof
  fix p and w w' :: "string \<rightharpoonup> int" and res
  assume "ReadFile map_files p w = (res, w')"
  then show "int64_vals w' = int64_vals w \<and> (\<forall>data. res = Inr data \<longrightarrow>
      (\<exists>v. int64_vals w p = Some v \<and> - (2 ^ 63) \<le> v \<and> v < 2 ^ 63 \<and> data = Itoa v @ [nl]))"
    by (auto simp: map_files_def int64_vals_def split: option.splits if_splits)
next
  fix v :: int and p perm and w w' :: "string \<rightharpoonup> int" and e
  assume "- (2 ^ 63) \<le> v" "v < 2 ^ 63" "WriteFile map_files p (Itoa v) perm w = (e, w')"
  then have "e = None" "w' = w(p \<mapsto> v)" "\<And>q. int64_vals w' q = (if q = p then Some v else int64_vals w q)"
    by (auto simp: map_files_def int64_vals_def Atoi_Itoa)
  then show "int64_vals w' = (if e = None then (int64_vals w)(p \<mapsto> v) else int64_vals w)" by (intro ext) simp
next
  fix p and w w' :: "string \<rightharpoonup> int" and res
  assume "int64_vals w p \<noteq> None" "ReadFile map_files p w = (res, w')"
  then show "\<exists>data. res = Inr data" by (auto simp: map_files_def int64_vals_def split: option.splits if_splits)
next
  fix v :: int and p perm and w :: "string \<rightharpoonup> int"
  assume "- (2 ^ 63) \<le> v" "v < 2 ^ 63"
  then show "fst (WriteFile map_files p (Itoa v) perm w) = None" by (simp add: map_files_def Atoi_Itoa)
qed

text \<open>
  C34. \<open>EnsureSysctl\<close>, when it succeeds, leaves the setting at the value asked for and every other
  setting as it was; when it fails nothing has changed; and if the setting already has the
  value nothing is written.
\<close>

theorem EnsureSysctl_sets:
  assumes "proc_files fs vals" "- (2 ^ 63) \<le> newVal" "newVal < 2 ^ 63"
    and "EnsureSysctl fs sysctl newVal w = (res, w')"
  shows "vals w' = (if res = None then (vals w)(path_Join [sysctlBase, sysctl] \<mapsto> newVal) else vals w) \<and>
    (vals w (path_Join [sysctlBase, sysctl]) = Some newVal \<longrightarrow> w' = snd (GetSysctl fs sysctl w))"
  using proc_files.Ensure_result [OF assms] .

theorem EnsureSysctl_sets_witness:
  "EnsureSysctl map_files ''net/ipv4/vs/conntrack'' 1 [''/proc/sys/net/ipv4/vs/conntrack'' \<mapsto> 0] =
     (None, [''/proc/sys/net/ipv4/vs/conntrack'' \<mapsto> 1])"
proof -
  have p: "path_Join [sysctlBase, ''net/ipv4/vs/conntrack''] = ''/proc/sys/net/ipv4/vs/conntrack''"
    by (simp add: path_Join_def path_Clean_def sysctlBase_def Let_def go_eval)
  let ?w = "[''/proc/sys/net/ipv4/vs/conntrack'' \<mapsto> 0 :: int]"
  obtain w' where run: "EnsureSysctl map_files ''net/ipv4/vs/conntrack'' 1 ?w = (None, w')"
    unfolding EnsureSysctl_def GetSysctl_def SetSysctl_def p
    by (simp add: map_files_def Trim_printed [simplified] Atoi_Itoa)
  have "- (2 ^ 63) \<le> (1 :: int)" "(1 :: int) < 2 ^ 63" by simp_all
  from EnsureSysctl_sets [OF map_proc.proc_files_axioms this run] run show ?thesis
    by (simp add: p)
qed

end
