(* ===== verification/LvsAdaptor.thy ===== *)
theory LvsAdaptor
  imports LvsSync Ipset Iptables Sysctl
begin

text \<open>
  \<^verbatim>\<open>lvs/adaptor\<close>: the whole of \<open>Build\<close>. \<^verbatim>\<open>iptables.go\<close> writes the rules that mark and masquerade the
  traffic to the balancer and keeps the ipset of virtual addresses and ports; \<^verbatim>\<open>adaptor.go\<close>
  checks the kernel setting, calls it and goes on with the virtual servers (\<open>LvsSync\<close>).
\<close>

subsection \<open>iptables.go\<close>

definition ipsetName :: string where "ipsetName = ''bmlb-vip-vport''"
definition mark :: string where "mark = ''0x4000/0x4000''"

record const_rule =
  cr_position :: string
  cr_table :: string
  cr_chain :: string
  cr_rules :: "string list"

definition constRules :: "const_rule list" where
  "constRules =
     [\<lparr>cr_position = Prepend, cr_table = TableNAT, cr_chain = ''OUTPUT'',
       cr_rules = [''-p'', ''all'', ''-m'', ''set'', ''--match-set'', ipsetName, ''dst,dst'', ''-j'', ''MARK'', ''--set-xmark'', mark]\<rparr>,
      \<lparr>cr_position = Prepend, cr_table = TableNAT, cr_chain = ''PREROUTING'',
       cr_rules = [''-p'', ''all'', ''-m'', ''set'', ''--match-set'', ipsetName, ''dst,dst'', ''-j'', ''MARK'', ''--set-xmark'', mark]\<rparr>,
      \<lparr>cr_position = Prepend, cr_table = TableNAT, cr_chain = ''POSTROUTING'',
       cr_rules = [''-m'', ''mark'', ''--mark'', mark, ''-j'', ''MASQUERADE'']\<rparr>]"

text \<open>\<open>sets.String\<close> is a map to the empty struct; \<open>List\<close> returns its keys sorted.\<close>

type_synonym string_set = "(string, unit) gomap"

definition sets_List :: "string_set \<Rightarrow> string list" where
  "sets_List s = sort (map fst s)"

definition port_entry :: "IP \<Rightarrow> string \<Rightarrow> nat \<Rightarrow> int32 \<Rightarrow> Entry" where
  "port_entry addr setType i p =
     \<lparr>eIP = IP_String addr, ePort = sint p, eProtocol = (if i = 1 then ''udp'' else ''tcp''), eNet = [], eIP2 = [],
      eSetType = setType, eOptions = []\<rparr>"

text \<open>\<open>rank\<close> is the order in which the ports are visited.\<close>

definition expect_entries :: "(nat \<Rightarrow> int32 \<Rightarrow> nat) \<Rightarrow> IP \<Rightarrow> string \<Rightarrow> port_services list \<Rightarrow> string_set" where
  "expect_entries rank addr setType serviceMap =
     fold (\<lambda>i m. fold (\<lambda>kv m. AList.update (Entry_String (port_entry addr setType i (fst kv))) () m)
                   (range_map (rank i) (serviceMap ! i)) m)
       [0..<length serviceMap] []"

fun ensure_rules :: "'w ipt_Interface \<Rightarrow> const_rule list \<Rightarrow> 'w \<Rightarrow> 'w" where
  "ensure_rules ipt [] w = w"
| "ensure_rules ipt (rule # rs) w =
     ensure_rules ipt rs
       (snd (iEnsureRule ipt (cr_position rule) (cr_table rule) (cr_chain rule) (cr_rules rule) w))"

fun prune_entries :: "'w ipset_Interface \<Rightarrow> string list \<Rightarrow> string_set \<Rightarrow> 'w \<Rightarrow> string_set \<times> 'w" where
  "prune_entries ips [] expectEntries w = (expectEntries, w)"
| "prune_entries ips (existEntry # es) expectEntries w =
     (if map_of expectEntries existEntry = None
      then prune_entries ips es expectEntries (snd (DelEntry ips existEntry ipsetName w))
      else prune_entries ips es (AList.delete existEntry expectEntries) w)"

fun add_entries :: "'w ipset_Interface \<Rightarrow> IPSet \<Rightarrow> string list \<Rightarrow> 'w \<Rightarrow> 'w" where
  "add_entries ips st [] w = w"
| "add_entries ips st (e # es) w = add_entries ips st es (snd (AddEntry ips e st True w))"

definition buildIptables ::
    "'w ipt_Interface \<Rightarrow> 'w ipset_Interface \<Rightarrow> (nat \<Rightarrow> int32 \<Rightarrow> nat) \<Rightarrow> IP \<Rightarrow> port_services list \<Rightarrow> 'w \<Rightarrow> 'w" where
  "buildIptables ipt ips rank addr serviceMap w =
     (let st = \<lparr>isName = ipsetName, isSetType = HashIPPort, isHashFamily = [], isHashSize = 0, isMaxElem = 0,
                isPortRange = []\<rparr>
      in case CreateSet ips st True w of
           ((Some err, st), w) \<Rightarrow> w
         | ((None, st), w) \<Rightarrow>
             let w = ensure_rules ipt constRules w;
                 expectEntries = expect_entries rank addr (isSetType st) serviceMap
             in case ListEntries ips ipsetName w of
                  (Inl err, w) \<Rightarrow> w
                | (Inr existEntries, w) \<Rightarrow>
                    let (expectEntries, w) = prune_entries ips existEntries expectEntries w
                    in add_entries ips st (sets_List expectEntries) w)"

subsection \<open>adaptor.go\<close>

text \<open>
  The machine the adaptor works on: the files under \<^verbatim>\<open>/proc/sys\<close>, what \<^verbatim>\<open>iptables\<close> and \<^verbatim>\<open>ipset\<close>
  change, and the ipvs tables of the kernel. The lvs handler is \<open>nil\<close> when no handle could be
  had; then \<open>Build\<close> panics where it first uses it.
\<close>

record ('f, 'w, 'l) host =
  h_files :: 'f
  h_net :: 'w
  h_ipvs :: 'l

record ('w, 'l) LVSAdaptor =
  lvsHandler :: "'l lvs_Interface option"
  iptHandler :: "'w ipt_Interface"
  ipsetHandler :: "'w ipset_Interface"
  virtualServerAddress :: IP

definition NewLVSAdaptor :: "gerror + 'k ipvs_Handle \<Rightarrow> 'w Exec \<Rightarrow> 'w LockOS \<Rightarrow> nat \<Rightarrow> ('c, 'o, 'r, 'w) godbus
    \<Rightarrow> ('c dbusImpl, 'w) cell \<Rightarrow> nat \<Rightarrow> IP \<Rightarrow> 'w \<Rightarrow> ('w, 'k) LVSAdaptor gocall \<times> 'w" where
  "NewLVSAdaptor handle ex os n g db ch addr w =
     (case dbus_New g db w of
        (dbus, w) \<Rightarrow>
          (case ipt_New ex dbus ch ProtocolIpv4 w of
             (Panics, w) \<Rightarrow> (Panics, w)
           | (Returns (conn, r), w) \<Rightarrow>
               (Returns \<lparr>lvsHandler = lvs_New handle, iptHandler = ipt_handler ex os n r, ipsetHandler = ipset_New ex,
                         virtualServerAddress = addr\<rparr>, w)))"

definition checkSysctl :: "'f Files \<Rightarrow> 'f \<Rightarrow> 'f" where
  "checkSysctl fs f = snd (EnsureSysctl fs ''net/ipv4/vs/conntrack'' 1 f)"

definition lvs_Build :: "'f Files \<Rightarrow> ('w, 'l) LVSAdaptor \<Rightarrow> map_order \<Rightarrow> (nat \<Rightarrow> int32 \<Rightarrow> nat)
    \<Rightarrow> Service list \<Rightarrow> Endpoints list \<Rightarrow> ('f, 'w, 'l) host \<Rightarrow> unit gocall \<times> ('f, 'w, 'l) host" where
  "lvs_Build fs a ord rank lbSvcs endpoints h =
     (let h = h\<lparr>h_files := checkSysctl fs (h_files h)\<rparr>;
          endpointsMap = fold epm_init lbSvcs [];
          portServiceMap = port_service_map lbSvcs;
          h = h\<lparr>h_net := buildIptables (iptHandler a) (ipsetHandler a) rank (virtualServerAddress a)
                           portServiceMap (h_net h)\<rparr>;
          endpointsMap = fold epm_add endpoints endpointsMap
      in case lvsHandler a of
           None \<Rightarrow> (Panics, h)
         | Some L \<Rightarrow>
             (Returns (), h\<lparr>h_ipvs := sync_lvs L ord (virtualServerAddress a) endpointsMap portServiceMap (h_ipvs h)\<rparr>))"

end
