(* ===== verification/LvsSyncSpec.thy ===== *)
theory LvsSyncSpec
  imports LvsSync
begin

text \<open>
  What \<open>Build\<close> is meant to reach, stated without its maps and loops: the table \<open>want\<close> with one
  virtual server per service port at the balancer's address, backed by the addresses of the
  endpoints objects that carry the service's name. The lemmas connect the maps of the code
  (\<open>portServiceMap\<close>, \<open>getExpectRSs\<close>) to it.
\<close>

subsection \<open>The intended table\<close>

definition serves :: "Service \<Rightarrow> nat \<Rightarrow> int32 \<Rightarrow> bool" where
  "serves svc i port \<longleftrightarrow> (\<exists>p \<in> set (svcPorts svc). protolcolIndex (spProtocol p) = i \<and> spPort p = port)"

text \<open>
  The endpoint (address text, port) pairs behind a service port: the first port of the service
  with that number gives the port name, the first port of the subset with that name the number.
\<close>

definition svc_backends :: "Endpoints list \<Rightarrow> int32 \<Rightarrow> Service \<Rightarrow> (string \<times> int32) set" where
  "svc_backends eps port svc =
     {(ip, p). \<exists>tp e ss q. find (\<lambda>x. spPort x = port) (svcPorts svc) = Some tp \<and>
        e \<in> set (endpoints_of eps (svcNamespace svc) (svcName svc)) \<and> ss \<in> set (epsSubsets e) \<and>
        find (\<lambda>x. epName x = spName tp) (essPorts ss) = Some q \<and> p = epPort q \<and> p \<noteq> 0 \<and>
        ip \<in> set (essAddresses ss)}"

definition backends :: "Service list \<Rightarrow> Endpoints list \<Rightarrow> nat \<Rightarrow> int32 \<Rightarrow> (string \<times> int32) set" where
  "backends lbSvcs eps i port = (\<Union>svc \<in> {svc \<in> set lbSvcs. serves svc i port}. svc_backends eps port svc)"

definition backend_id :: "string \<times> int32 \<Rightarrow> rs_id" where
  "backend_id b = (fst b, ucast (snd b))"

definition proto_index :: "u16 \<Rightarrow> nat" where
  "proto_index pr = (if pr = IPPROTO_UDP then 1 else 0)"

definition want :: "IP \<Rightarrow> Service list \<Rightarrow> Endpoints list \<Rightarrow> lvs_table" where
  "want addr lbSvcs eps = (\<lambda>(a, pr, port).
     if a = canonIP addr \<and> (pr = IPPROTO_TCP \<or> pr = IPPROTO_UDP) \<and>
        (\<exists>svc \<in> set lbSvcs. serves svc (proto_index pr) (ucast port))
     then Some (backend_id ` backends lbSvcs eps (proto_index pr) (ucast port)) else None)"

text \<open>
  What the API server guarantees of the objects: port numbers fit 16 bits, addresses are IP
  addresses; and that the addresses are written the way \<open>net.IP.String\<close> writes them.
\<close>

definition inputs_ok :: "IP \<Rightarrow> Service list \<Rightarrow> Endpoints list \<Rightarrow> bool" where
  "inputs_ok addr lbSvcs eps \<longleftrightarrow>
     ip_valid addr \<and>
     (\<forall>svc \<in> set lbSvcs. \<forall>p \<in> set (svcPorts svc). spPort p \<noteq> 0 \<and> unat (spPort p) < 65536) \<and>
     (\<forall>e \<in> set eps. \<forall>ss \<in> set (epsSubsets e).
        (\<forall>p \<in> set (essPorts ss). unat (epPort p) < 65536) \<and>
        (\<forall>ip \<in> set (essAddresses ss). ip_valid (ParseIP ip) \<and> IP_String (ParseIP ip) = ip))"

subsection \<open>The port map\<close>

definition svcs_at :: "port_services list \<Rightarrow> nat \<Rightarrow> int32 \<Rightarrow> Service list" where
  "svcs_at psm i port = (case map_of (psm ! i) port of None \<Rightarrow> [] | Some svcs \<Rightarrow> svcs)"

definition psm_ok :: "port_services list \<Rightarrow> bool" where
  "psm_ok psm \<longleftrightarrow> length psm = 2 \<and> (\<forall>i < 2. gmap_ok (psm ! i) \<and> (\<forall>port. map_of (psm ! i) port \<noteq> Some []))"

lemma protolcolIndex_less [simp]: "protolcolIndex p < 2"
  by (simp add: protolcolIndex_def)

lemma add_port_ok: "psm_ok psm \<Longrightarrow> psm_ok (add_port svc p psm)"
  by (auto simp: psm_ok_def add_port_def Let_def nth_list_update update_conv')

lemma add_port_svcs:
  "psm_ok psm \<Longrightarrow> i < 2 \<Longrightarrow>
     set (svcs_at (add_port svc p psm) i port) =
       set (svcs_at psm i port) \<union> (if protolcolIndex (spProtocol p) = i \<and> spPort p = port then {svc} else {})"
  by (auto simp: psm_ok_def add_port_def svcs_at_def Let_def nth_list_update update_conv' split: option.splits)

lemma fold_add_port:
  "psm_ok psm \<Longrightarrow> psm_ok (fold (add_port svc) ps psm) \<and>
     (i < 2 \<longrightarrow> set (svcs_at (fold (add_port svc) ps psm) i port) =
       set (svcs_at psm i port) \<union>
         (if \<exists>p \<in> set ps. protolcolIndex (spProtocol p) = i \<and> spPort p = port then {svc} else {}))"
  by (induction ps arbitrary: psm) (auto simp: add_port_ok add_port_svcs)

lemma add_service_facts:
  "psm_ok psm \<Longrightarrow> psm_ok (add_service svc psm)"
  "psm_ok psm \<Longrightarrow> i < 2 \<Longrightarrow> set (svcs_at (add_service svc psm) i port) =
     set (svcs_at psm i port) \<union> (if serves svc i port then {svc} else {})"
  using fold_add_port [of psm svc "svcPorts svc" i port] by (auto simp: add_service_def serves_def)

lemma fold_add_service:
  "psm_ok psm \<Longrightarrow> psm_ok (fold add_service svcs psm) \<and>
     (i < 2 \<longrightarrow> set (svcs_at (fold add_service svcs psm) i port) =
        set (svcs_at psm i port) \<union> {svc \<in> set svcs. serves svc i port})"
  by (induction svcs arbitrary: psm) (auto simp: add_service_facts)

lemma psm_ok_empty: "psm_ok [[], []]"
  by (simp add: psm_ok_def less_2_cases_iff)

lemma port_service_map_ok: "psm_ok (port_service_map lbSvcs)"
  using fold_add_service [OF psm_ok_empty] by (simp add: port_service_map_def)

lemma port_service_map_svcs:
  "i < 2 \<Longrightarrow> set (svcs_at (port_service_map lbSvcs) i port) = {svc \<in> set lbSvcs. serves svc i port}"
  using fold_add_service [OF psm_ok_empty, of lbSvcs i port]
  by (auto simp: port_service_map_def svcs_at_def less_2_cases_iff)

lemma svcs_at_empty: "psm_ok psm \<Longrightarrow> i < 2 \<Longrightarrow> map_of (psm ! i) port = None \<longleftrightarrow> set (svcs_at psm i port) = {}"
  by (cases "map_of (psm ! i) port") (auto simp: psm_ok_def svcs_at_def)

lemma port_service_map_lookup:
  assumes "i < 2"
  shows "map_of (port_service_map lbSvcs ! i) port = None \<longleftrightarrow> (\<forall>svc \<in> set lbSvcs. \<not> serves svc i port)"
    and "map_of (port_service_map lbSvcs ! i) port = Some svcs \<Longrightarrow>
      set svcs = {svc \<in> set lbSvcs. serves svc i port}"
proof -
  show "map_of (port_service_map lbSvcs ! i) port = None \<longleftrightarrow> (\<forall>svc \<in> set lbSvcs. \<not> serves svc i port)"
    unfolding svcs_at_empty [OF port_service_map_ok assms] port_service_map_svcs [OF assms] by blast
  assume "map_of (port_service_map lbSvcs ! i) port = Some svcs"
  then have "svcs = svcs_at (port_service_map lbSvcs) i port" by (simp add: svcs_at_def)
  then show "set svcs = {svc \<in> set lbSvcs. serves svc i port}"
    by (simp only: port_service_map_svcs [OF assms])
qed

subsection \<open>The map of expected real servers\<close>

definition rs_text :: "string \<times> int32 \<Rightarrow> string" where
  "rs_text b = fst b @ '':'' @ Itoa (sint (snd b))"

definition mk_rs :: "string \<times> int32 \<Rightarrow> RealServer" where
  "mk_rs b = \<lparr>rsAddress = ParseIP (fst b), rsPort = ucast (snd b), rsWeight = 1\<rparr>"

lemma append_sep_inj:
  assumes "c \<notin> set t" "c \<notin> set u"
  shows "s @ c # t = r @ c # u \<longleftrightarrow> s = r \<and> t = u"
proof -
  have tw: "c \<notin> set x \<Longrightarrow> takeWhile (\<lambda>a. a \<noteq> c) (x @ c # y) = x" for x y
    by (induction x) auto
  have "t = u" if "s @ c # t = r @ c # u"
    using arg_cong [OF that, of "\<lambda>l. takeWhile (\<lambda>a. a \<noteq> c) (rev l)"] assms by (simp add: tw)
  then show ?thesis by auto
qed

lemma rs_text_inj: "rs_text b = rs_text d \<longleftrightarrow> b = d"
  by (cases b; cases d)
    (auto simp: rs_text_def append_sep_inj Itoa_no_sep dest!: Itoa_inj signed_word_eqI)

text \<open>A map that holds the real servers of a set of endpoint pairs, under their texts.\<close>

definition rs_map_of :: "rs_map \<Rightarrow> (string \<times> int32) set \<Rightarrow> bool" where
  "rs_map_of m X \<longleftrightarrow> gmap_ok m \<and> set m = (\<lambda>b. (rs_text b, mk_rs b)) ` X"

lemma set_map_of: "gmap_ok m \<Longrightarrow> set m = {(k, v). map_of m k = Some v}"
  unfolding gmap_ok_def by (rule set_map_of_compr)

lemma rs_map_of_update:
  assumes "rs_map_of m X"
  shows "rs_map_of (AList.update (rs_text b) (mk_rs b) m) (insert b X)"
proof -
  have m: "gmap_ok m" "map_of m k = Some v \<longleftrightarrow> (k, v) \<in> (\<lambda>b. (rs_text b, mk_rs b)) ` X" for k v
    using assms set_map_of [of m] by (auto simp: rs_map_of_def)
  have "set (AList.update (rs_text b) (mk_rs b) m) =
      {(k, v). map_of (AList.update (rs_text b) (mk_rs b) m) k = Some v}"
    using m(1) by (intro set_map_of) simp
  also have "\<dots> = (\<lambda>b. (rs_text b, mk_rs b)) ` insert b X"
    using m(2) by (auto simp: update_conv' rs_text_inj split: if_splits)
  finally show ?thesis using m(1) by (simp add: rs_map_of_def)
qed

lemma fold_add_addr:
  "rs_map_of m X \<Longrightarrow> rs_map_of (fold (add_addr port) ips m) (X \<union> (\<lambda>ip. (ip, port)) ` set ips)"
proof (induction ips arbitrary: m X)
  case (Cons ip ips)
  have "rs_map_of (add_addr port ip m) (insert (ip, port) X)"
    using rs_map_of_update [OF Cons.prems, of "(ip, port)"]
    by (simp add: add_addr_def rs_text_def mk_rs_def)
  from Cons.IH [OF this] show ?case by (simp add: Un_commute insert_commute)
qed simp

lemma getTargetIntPort_find:
  "getTargetIntPort tp ss =
     (case find (\<lambda>x. epName x = spName tp) (essPorts ss) of None \<Rightarrow> 0 | Some q \<Rightarrow> epPort q)"
proof -
  have "getTargetIntPort_loop tp ps =
      (case find (\<lambda>x. epName x = spName tp) ps of None \<Rightarrow> 0 | Some q \<Rightarrow> epPort q)" for ps
    by (induction ps) auto
  then show ?thesis by (simp add: getTargetIntPort_def)
qed

lemma getTargetPort_find: "getTargetPort port svc = find (\<lambda>x. spPort x = port) (svcPorts svc)"
proof -
  have "getTargetPort_loop port ps = find (\<lambda>x. spPort x = port) ps" for ps
    by (induction ps) auto
  then show ?thesis by (simp add: getTargetPort_def)
qed

definition subset_backends :: "ServicePort \<Rightarrow> EndpointSubset \<Rightarrow> (string \<times> int32) set" where
  "subset_backends tp ss =
     {(ip, p). \<exists>q. find (\<lambda>x. epName x = spName tp) (essPorts ss) = Some q \<and> p = epPort q \<and> p \<noteq> 0 \<and>
        ip \<in> set (essAddresses ss)}"

lemma add_subset_backends:
  "rs_map_of m X \<Longrightarrow> rs_map_of (add_subset tp ss m) (X \<union> subset_backends tp ss)"
  using fold_add_addr [of m X "getTargetIntPort tp ss" "essAddresses ss"]
  by (auto simp: add_subset_def Let_def getTargetIntPort_find subset_backends_def split: option.splits
      elim!: back_subst [of "rs_map_of _"])

lemma fold_add_subset:
  "rs_map_of m X \<Longrightarrow> rs_map_of (fold (add_subset tp) sss m) (X \<union> (\<Union>ss \<in> set sss. subset_backends tp ss))"
proof (induction sss arbitrary: m X)
  case (Cons ss sss)
  from Cons.IH [OF add_subset_backends [OF Cons.prems]] show ?case by (simp add: Un_assoc)
qed simp

lemma fold_add_endpoints:
  "rs_map_of m X \<Longrightarrow>
     rs_map_of (fold (\<lambda>e. fold (add_subset tp) (epsSubsets e)) es m)
       (X \<union> (\<Union>e \<in> set es. \<Union>ss \<in> set (epsSubsets e). subset_backends tp ss))"
proof (induction es arbitrary: m X)
  case (Cons e es)
  from Cons.IH [OF fold_add_subset [OF Cons.prems]] show ?case by (simp add: Un_assoc)
qed simp

lemma svc_backends_alt:
  "svc_backends eps port svc =
     (case find (\<lambda>x. spPort x = port) (svcPorts svc) of None \<Rightarrow> {}
      | Some tp \<Rightarrow> \<Union>e \<in> set (endpoints_of eps (svcNamespace svc) (svcName svc)).
          \<Union>ss \<in> set (epsSubsets e). subset_backends tp ss)"
  by (auto simp: svc_backends_def subset_backends_def split: option.splits)

lemma add_svc_RSs_backends:
  assumes "rs_map_of m X"
    and "epm_get epm (svcNamespace svc) (svcName svc) = endpoints_of eps (svcNamespace svc) (svcName svc)"
  shows "rs_map_of (add_svc_RSs epm vs svc m) (X \<union> svc_backends eps (ucast (vsPort vs)) svc)"
  using assms fold_add_endpoints [OF assms(1)]
  by (auto simp: add_svc_RSs_def addExpectRS_def getTargetPort_find svc_backends_alt Let_def
      split: option.splits)

lemma getExpectRSs_backends:
  assumes "\<And>svc. svc \<in> set svcs \<Longrightarrow>
    epm_get epm (svcNamespace svc) (svcName svc) = endpoints_of eps (svcNamespace svc) (svcName svc)"
  shows "rs_map_of (getExpectRSs svcs epm vs) (\<Union>svc \<in> set svcs. svc_backends eps (ucast (vsPort vs)) svc)"
proof -
  have "rs_map_of (fold (add_svc_RSs epm vs) svcs m) (X \<union> (\<Union>svc \<in> set svcs. svc_backends eps (ucast (vsPort vs)) svc))"
    if "rs_map_of m X" for m X
    using assms that
  proof (induction svcs arbitrary: m X)
    case (Cons svc svcs)
    have "rs_map_of (add_svc_RSs epm vs svc m) (X \<union> svc_backends eps (ucast (vsPort vs)) svc)"
      using Cons.prems by (intro add_svc_RSs_backends) auto
    from Cons.IH [OF _ this] Cons.prems(1) show ?case by (simp add: Un_assoc)
  qed simp
  from this [of "[]" "{}"] show ?thesis by (simp add: getExpectRSs_def rs_map_of_def)
qed

end
