(* ===== verification/IpsetList.thy ===== *)
theory IpsetList
  imports Ipset
begin

text \<open>
  What the runner reads back from the \<^verbatim>\<open>ipset\<close> command: the member lines of a listing, and
  the properties of port ranges and of the text of entries.
\<close>

subsection \<open>Members of a listing\<close>

definition listing :: "string list \<Rightarrow> string list \<Rightarrow> string" where
  "listing header entries = lines header @ ''Members:'' @ [nl] @ lines entries"

definition line_re :: re where
  "line_re = Grp 1 (Seq (Star dot) (Lit [nl]))"

lemma dots_match:
  assumes "nl \<notin> set l"
  shows "m (Seq (Star dot) (Lit [nl])) (p, l @ nl # t, c) k = k (Some nl, t, c)"
proof -
  have len: "\<And>s n p. s = u @ nl # t \<Longrightarrow> nl \<notin> set u \<Longrightarrow> length s \<le> n \<Longrightarrow>
      star (m (Cls (\<lambda>c. c \<noteq> nl))) n (p, s, c) (\<lambda>st. m (Lit [nl]) st k) = k (Some nl, t, c)" for u
  proof (induction u)
    case Nil
    then show ?case by (cases n) (auto simp: rest_def split: option.splits)
  next
    case (Cons a u)
    then obtain n' where n: "n = Suc n'" by (cases n) auto
    have "star (m (Cls (\<lambda>c. c \<noteq> nl))) n' (Some a, u @ nl # t, c) (\<lambda>st. m (Lit [nl]) st k) = k (Some nl, t, c)"
      using Cons n by (intro Cons.IH) auto
    moreover have "m (Lit [nl]) (p, a # u @ nl # t, c) k = None" using Cons.prems(2) by auto
    ultimately show ?case
      using Cons.prems by (auto simp: n star_Cls_Suc split: option.splits simp del: star.simps m.simps Lit.simps)
  qed
  show ?thesis unfolding m.simps(3,5) dot_def rest_def fst_conv snd_conv by (rule len [OF refl assms order_refl])
qed

lemma line_match:
  assumes "nl \<notin> set l"
  shows "m line_re (p, l @ nl # t, c) k = k (Some nl, t, c(1 := l @ [nl]))"
  unfolding line_re_def m.simps(6) prod.case dots_match [OF assms] by simp

lemma line_match_empty: "m line_re (p, [], c) k = None"
  by (simp add: line_re_def rest_def)

text \<open>The greedy repetition of lines stops before the last line \<open>L\<close>.\<close>

lemma line_here:
  assumes "nl \<notin> set L" "nl \<notin> set e" "e \<noteq> L"
  shows "m (Lit (L @ [nl])) (p, e @ nl # t, c) k = None"
proof -
  have "take (length (L @ [nl])) (e @ nl # t) \<noteq> L @ [nl]"
  proof
    assume *: "take (length (L @ [nl])) (e @ nl # t) = L @ [nl]"
    show False
    proof (cases "length e \<le> length L")
      case True
      then obtain u where u: "e @ nl # u = L @ [nl]" using * by (auto simp: take_Cons')
      have tw: "takeWhile (\<lambda>c. c \<noteq> nl) (x @ nl # y) = x" if "nl \<notin> set x" for x y
        using that by (subst takeWhile_append2) auto
      show False using arg_cong [OF u, of "takeWhile (\<lambda>c. c \<noteq> nl)"] tw assms by auto
    next
      case False
      then have "take (Suc (length L)) e = L @ [nl]" using * by simp
      then have "nl \<in> set (take (Suc (length L)) e)" by simp
      then show False using assms(2) in_set_takeD by fastforce
    qed
  qed
  then show ?thesis by (simp only: Lit_match if_False)
qed

lemma star_lines_none:
  assumes "nl \<notin> set L" "\<forall>e \<in> set es. nl \<notin> set e \<and> e \<noteq> L"
  shows "star (m line_re) n (p, lines es, c) (\<lambda>st. m (Lit (L @ [nl])) st k) = None"
  using assms(2)
proof (induction es arbitrary: n p c)
  case Nil
  then show ?case by (cases n) (auto simp: line_match_empty Lit_match simp del: Lit.simps)
next
  case (Cons e es)
  have e: "nl \<notin> set e" "e \<noteq> L" using Cons.prems by auto
  have IH: "star (m line_re) i (q, lines es, d) (\<lambda>st. m (Lit (L @ [nl])) st k) = None" for i q d
    using Cons.prems by (intro Cons.IH) simp
  show ?case
    by (cases n) (simp_all add: IH line_here [OF assms(1) e] line_match [OF e(1)] del: Lit.simps)
qed

lemma star_lines_first:
  assumes "nl \<notin> set L" "\<forall>h \<in> set hs. nl \<notin> set h" "\<forall>e \<in> set es. nl \<notin> set e \<and> e \<noteq> L"
    and "length (lines hs @ L @ nl # lines es) \<le> n"
  shows "\<exists>c'. star (m line_re) n (p, lines hs @ L @ nl # lines es, c) (\<lambda>st. m (Lit (L @ [nl])) st Some) =
    Some (Some nl, lines es, c')"
  using assms(2,4)
proof (induction hs arbitrary: n p c)
  case Nil
  then obtain n' where n: "n = Suc n'" by (cases n) auto
  have "m (Lit (L @ [nl])) (p, L @ nl # lines es, c) Some = Some (Some nl, lines es, c)"
    unfolding Lit_match by (simp add: last_char_append)
  then show ?case
    by (simp add: n line_match [OF assms(1)] star_lines_none [OF assms(1,3)] del: Lit.simps)
next
  case (Cons h hs)
  then obtain n' where n: "n = Suc n'" by (cases n) auto
  have h: "nl \<notin> set h" using Cons.prems by simp
  obtain c' where c': "star (m line_re) n' (Some nl, lines hs @ L @ nl # lines es, c(1 := h @ [nl]))
      (\<lambda>st. m (Lit (L @ [nl])) st Some) = Some (Some nl, lines es, c')"
    using Cons.IH [of n' "Some nl" "c(1 := h @ [nl])"] Cons.prems n by fastforce
  have "star (m line_re) (Suc n') (p, lines (h # hs) @ L @ nl # lines es, c)
      (\<lambda>st. m (Lit (L @ [nl])) st Some) = Some (Some nl, lines es, c')"
    by (rule star_step) (use c' in \<open>simp add: line_match [OF h] rest_def del: Lit.simps\<close>)
  then show ?case using n by auto
qed

lemma members_no_nl: "nl \<notin> set ''Members:''"
  by simp

lemma match_pattern:
  "match_here EntryMemberPattern p s =
     (if p = None \<or> p = Some nl
      then star (m line_re) (length s) (p, s, \<lambda>_. []) (\<lambda>st. m (Lit (''Members:'' @ [nl])) st Some) else None)"
  unfolding match_here_def EntryMemberPattern_def line_re_def m.simps(3,5,8) prod.case rest_def by simp

lemma match_header:
  assumes "\<forall>h \<in> set hs. nl \<notin> set h" "\<forall>e \<in> set es. nl \<notin> set e \<and> e \<noteq> ''Members:''"
  shows "\<exists>c. match_here EntryMemberPattern None (listing hs es) = Some (Some nl, lines es, c)"
proof -
  have "listing hs es = lines hs @ ''Members:'' @ nl # lines es" by (simp add: listing_def)
  then show ?thesis
    using star_lines_first [OF members_no_nl assms order_refl, of None "\<lambda>_. []"]
    by (simp only: match_pattern simp_thms if_True)
qed

lemma no_match_in_line: "p \<noteq> None \<Longrightarrow> p \<noteq> Some nl \<Longrightarrow> match_here EntryMemberPattern p s = None"
  by (simp only: match_pattern simp_thms if_False)

lemma replace_in_line:
  assumes "nl \<notin> set u" "p \<noteq> None" "p \<noteq> Some nl"
    and "replace_from EntryMemberPattern f (Some nl) t = t"
  shows "replace_from EntryMemberPattern f p (u @ nl # t) = u @ nl # t"
  using assms(1-3)
proof (induction u arbitrary: p)
  case Nil
  then show ?case
    using assms(4) by (simp add: replace_from.simps [of _ _ p] no_match_in_line)
next
  case (Cons a u)
  then have "replace_from EntryMemberPattern f (Some a) (u @ nl # t) = u @ nl # t" by (intro Cons.IH) auto
  then show ?case
    using Cons.prems by (simp add: replace_from.simps [of _ _ p] no_match_in_line)
qed

lemma replace_lines:
  assumes "\<forall>e \<in> set es. nl \<notin> set e \<and> e \<noteq> ''Members:''"
  shows "replace_from EntryMemberPattern f (Some nl) (lines es) = lines es"
  using assms
proof (induction es)
  case Nil
  have "match_here EntryMemberPattern (Some nl) [] = None"
    by (simp add: match_pattern Lit_match del: Lit.simps)
  then show ?case by (simp add: replace_from.simps [of _ _ _ "[]"])
next
  case (Cons e es)
  then have rec: "replace_from EntryMemberPattern f (Some nl) (lines es) = lines es" by simp
  have none: "match_here EntryMemberPattern (Some nl) (lines (e # es)) = None"
    using star_lines_none [OF members_no_nl Cons.prems] by (simp only: match_pattern simp_thms if_True)
  have step: "replace_from EntryMemberPattern f (Some nl) (lines (e # es)) =
      (case lines (e # es) of [] \<Rightarrow> [] | x # xs \<Rightarrow> x # replace_from EntryMemberPattern f (Some x) xs)"
    by (subst replace_from.simps) (simp only: none option.case)
  show ?case
  proof (cases e)
    case Nil
    then show ?thesis using step rec by simp
  next
    case (Cons a u)
    then have "replace_from EntryMemberPattern f (Some a) (u @ nl # lines es) = u @ nl # lines es"
      using Cons.prems by (intro replace_in_line [OF _ _ _ rec]) auto
    then show ?thesis using step Cons by simp
  qed
qed

lemma members_of_listing:
  assumes "\<forall>h \<in> set header. nl \<notin> set h"
    and "\<forall>e \<in> set entries. e \<noteq> [] \<and> nl \<notin> set e \<and> e \<noteq> ''Members:''"
  shows "list_members (listing header entries) = entries"
proof -
  have es: "\<forall>e \<in> set entries. nl \<notin> set e \<and> e \<noteq> ''Members:''" using assms(2) by auto
  obtain c where c: "match_here EntryMemberPattern None (listing header entries) = Some (Some nl, lines entries, c)"
    using match_header [OF assms(1) es] by auto
  have "length (lines entries) < length (listing header entries)" by (simp add: listing_def)
  then have "ReplaceAllString EntryMemberPattern (listing header entries) (\<lambda>_. []) = lines entries"
    using c replace_lines [OF es] by (simp add: ReplaceAllString_def replace_from.simps [of _ _ None])
  moreover have "filter (\<lambda>s. s \<noteq> []) entries = entries" using assms(2) by (simp add: filter_id_conv)
  ultimately show ?thesis using es by (simp add: list_members_def Split_lines)
qed

text \<open>
  C27. From the output of \<^verbatim>\<open>ipset list\<close> (header lines, the line \<^verbatim>\<open>Members:\<close>, one line per
  entry) \<open>ListEntries\<close> reads back exactly the entries, in their order.
\<close>

theorem list_members_listing:
  assumes "\<forall>h \<in> set header. nl \<notin> set h"
    and "\<forall>e \<in> set entries. e \<noteq> [] \<and> nl \<notin> set e \<and> e \<noteq> ''Members:''"
  shows "list_members (listing header entries) = entries"
  using members_of_listing [OF assms] .

theorem list_members_listing_witness:
  "list_members (listing [''Name: foobar'', ''Type: hash:ip,port''] [''192.168.1.2,tcp:8080'', ''192.168.1.1,udp:53'']) =
     [''192.168.1.2,tcp:8080'', ''192.168.1.1,udp:53'']"
  by (rule list_members_listing) auto

subsection \<open>Port ranges\<close>

lemma port_range_two:
  "port_range_loop 0 [s, t] 0 0 =
     (case Atoi s of
        Inl err \<Rightarrow> Inl err
      | Inr a \<Rightarrow>
          if a < 0 then Inl (''port number '' @ Itoa a @ '' should be >=0'')
          else case Atoi t of
                 Inl err \<Rightarrow> Inl err
               | Inr b \<Rightarrow>
                   if b < 0 then Inl (''port number '' @ Itoa b @ '' should be >=0'')
                   else Inr (min a b, max a b))"
  by (auto split: sum.splits)

text \<open>
  C30. \<open>parsePortRange\<close> accepts exactly the empty range, which stands for 0 to 65535, and two numbers
  that are not negative with a dash between them, and returns the smaller and the larger of the
  two, whichever way round they were written; \<open>validatePortRange\<close> accepts what parses except the
  empty range.
\<close>

theorem parsePortRange_ordered:
  "(parsePortRange pr = Inr (b, e) \<longleftrightarrow>
     (if pr = [] then b = 0 \<and> e = 65535
      else \<exists>s t x y. Split pr (CHR ''-'') = [s, t] \<and> Atoi s = Inr x \<and> Atoi t = Inr y \<and> 0 \<le> x \<and> 0 \<le> y \<and>
             b = min x y \<and> e = max x y)) \<and>
   (validatePortRange pr \<longleftrightarrow> pr \<noteq> [] \<and> (\<exists>r. parsePortRange pr = Inr r))"
proof (cases "pr = []")
  case True
  have "parsePortRange [] = Inr (0, 65535)" by (simp add: parsePortRange_def DefaultPortRange_def go_eval)
  moreover have "\<not> validatePortRange []" by (simp add: validatePortRange_def go_eval)
  ultimately show ?thesis using True by auto
next
  case False
  show ?thesis
  proof (cases "length (Split pr (CHR ''-'')) = 2")
    case True
    then obtain s t where st: "Split pr (CHR ''-'') = [s, t]"
      by (auto simp: numeral_2_eq_2 length_Suc_conv)
    show ?thesis
      using False st by (auto simp: validatePortRange_def parsePortRange_def port_range_two Let_def
          simp del: port_range_loop.simps split: sum.splits if_splits)
  next
    case no: False
    then have "\<nexists>s t. Split pr (CHR ''-'') = [s, t]" by auto
    then show ?thesis using no False by (simp add: validatePortRange_def parsePortRange_def Let_def)
  qed
qed

lemma Itoa_no_minus: "0 \<le> i \<Longrightarrow> CHR ''-'' \<notin> set (Itoa i)"
  using show_nat_digits [of "nat i"] not_digit_sign(1) by (auto simp: Itoa_def list_all_iff)

text \<open>
  Every range \<open>a-b\<close> of numbers from 0 to \<open>2 ^ 63 - 1\<close>, in either order, parses to its
  smaller and its larger number.
\<close>

theorem parsePortRange_print:
  assumes "0 \<le> a" "a < 2 ^ 63" "0 \<le> b" "b < 2 ^ 63"
  shows "parsePortRange (Itoa a @ ''-'' @ Itoa b) = Inr (min a b, max a b)"
proof -
  have "Split (Itoa a @ CHR ''-'' # Itoa b) (CHR ''-'') = [Itoa a, Itoa b]"
    using assms by (simp add: Split_append_sep Split_single Itoa_no_minus)
  then show ?thesis
    using assms by (auto simp: parsePortRange_def port_range_two Atoi_Itoa simp del: port_range_loop.simps)
qed

theorem parsePortRange_print_witness:
  "parsePortRange (Itoa 100 @ ''-'' @ Itoa 1) = Inr (1, 100)"
  using parsePortRange_print [of 100 1] by simp

subsection \<open>Entries\<close>

text \<open>The text of an entry of a \<open>hash:ip,port\<close> set, and that it determines the entry.\<close>

definition ipport_text :: "string \<Rightarrow> string \<Rightarrow> int \<Rightarrow> string" where
  "ipport_text ip proto port = ip @ '','' @ proto @ '':'' @ Itoa port"

lemma ipport_text_inj:
  assumes "CHR '','' \<notin> set ip" "CHR '','' \<notin> set ip'" "CHR '':'' \<notin> set proto" "CHR '':'' \<notin> set proto'"
  shows "ipport_text ip proto port = ipport_text ip' proto' port' \<longleftrightarrow> ip = ip' \<and> proto = proto' \<and> port = port'"
proof -
  have "ip = ip' \<and> proto = proto' \<and> port = port'" if "ipport_text ip proto port = ipport_text ip' proto' port'"
  proof -
    have eq: "ip @ CHR '','' # proto @ CHR '':'' # Itoa port = ip' @ CHR '','' # proto' @ CHR '':'' # Itoa port'"
      using that by (simp add: ipport_text_def)
    note 1 = append_sep_eq [OF assms(1,2) eq]
    note 2 = append_sep_eq [OF assms(3,4) conjunct2 [OF 1]]
    show ?thesis using 1 2 Itoa_inj by blast
  qed
  then show ?thesis by auto
qed

lemma Entry_String_HashIPPort:
  "eSetType e = HashIPPort \<Longrightarrow> Entry_String e = ipport_text (eIP e) (eProtocol e) (ePort e)"
  by (simp add: Entry_String_def ipport_text_def go_eval)

text \<open>
  What \<open>CreateSet\<close> executes for a set of which only the name is given: the defaults are
  filled in, the set is valid, and one command \<^verbatim>\<open>ipset create\<close> runs with the family, the hash
  size and the maximal number of elements spelled out.
\<close>

theorem CreateSet_defaults:
  "runner_CreateSet ex \<lparr>isName = n, isSetType = [], isHashFamily = [], isHashSize = 0, isMaxElem = 0, isPortRange = []\<rparr> True w =
    (case CombinedOutput ex ''ipset''
        [''create'', n, ''hash:ip,port'', ''family'', ''inet'', ''hashsize'', ''1024'', ''maxelem'', ''65536'', ''-exist''] [] w of
       ((out, err), w') \<Rightarrow>
         ((map_option (\<lambda>e. ''error creating ipset '' @ n @ '', error: '' @ err_text e) err,
           \<lparr>isName = n, isSetType = ''hash:ip,port'', isHashFamily = ''inet'', isHashSize = 1024, isMaxElem = 65536,
            isPortRange = ''0-65535''\<rparr>), w'))"
  by (simp add: runner_CreateSet_def set_defaults_def IPSet_Validate_def validateHashFamily_def validateIPSetType_def
      ValidIPSetTypes_def createSet_def createSet_args_def ipset_do_def ipset_run_def IPSetCmd_def ProtocolFamilyIPV4_def
      DefaultPortRange_def Let_def go_eval split: prod.splits)

end
