(* ===== verification/IptablesProps.thy ===== *)
theory IptablesProps
  imports Iptables
begin

text \<open>
  What \<open>EnsureRule\<close> promises its client (\<open>rule_store\<close>), what the \<^verbatim>\<open>iptables\<close> command promises the
  runner (\<open>iptables_tool\<close>), and that the runner turns one into the other; the flags chosen by
  version; the locks around \<^verbatim>\<open>iptables-restore\<close>; the handling of D-Bus signals.
\<close>

subsection \<open>Rules\<close>

type_synonym rule_table = "string \<times> string \<Rightarrow> string list list"

definition place :: "string \<Rightarrow> string list \<Rightarrow> string list list \<Rightarrow> string list list" where
  "place position args rs = (if position = Prepend then args # rs else rs @ [args])"

locale rule_store =
  fixes ensure :: "string \<Rightarrow> string \<Rightarrow> string \<Rightarrow> string list \<Rightarrow> 'w \<Rightarrow> (gerror + bool) \<times> 'w"
    and inv :: "'w \<Rightarrow> bool" and rules :: "'w \<Rightarrow> rule_table"
  assumes ensure_law: "inv w \<Longrightarrow> position \<in> {Prepend, Append} \<Longrightarrow> ensure position t c args w = (res, w') \<Longrightarrow>
      inv w' \<and>
      (case res of
         Inl err \<Rightarrow> rules w' = rules w
       | Inr True \<Rightarrow> args \<in> set (rules w (t, c)) \<and> rules w' = rules w
       | Inr False \<Rightarrow> args \<notin> set (rules w (t, c)) \<and>
           rules w' = (rules w)((t, c) := place position args (rules w (t, c))))"
begin

lemma ensure_keeps:
  assumes "inv w" "position \<in> {Prepend, Append}" "ensure position t c args w = (res, w')"
    and "\<forall>k. distinct (rules w k)"
  shows "inv w' \<and> (\<forall>k. distinct (rules w' k)) \<and> (\<forall>k. set (rules w k) \<subseteq> set (rules w' k)) \<and>
    (\<forall>b. res = Inr b \<longrightarrow> args \<in> set (rules w' (t, c)) \<and> (b \<longleftrightarrow> args \<in> set (rules w (t, c)))) \<and>
    (\<forall>k. set (rules w' k) \<subseteq> (if k = (t, c) then insert args (set (rules w k)) else set (rules w k)))"
  using ensure_law [OF assms(1-3)] assms(4)
  by (cases res) (auto simp: place_def split: bool.splits if_splits)

end

locale iptables_tool =
  fixes ex :: "'w Exec" and r :: "'w ipt_runner" and inv :: "'w \<Rightarrow> bool" and rules :: "'w \<Rightarrow> rule_table"
  assumes has_check: "irHasCheck r"
    and check_law: "inv w \<Longrightarrow> ipt_run ex r opCheckRule (makeFullArgs t c args) w = ((out, err), w') \<Longrightarrow>
      inv w' \<and> rules w' = rules w \<and> (err = None \<longrightarrow> args \<in> set (rules w (t, c))) \<and>
      (\<forall>e. err = Some e \<longrightarrow> exited_1 e \<longrightarrow> args \<notin> set (rules w (t, c)))"
    and add_law: "inv w \<Longrightarrow> position \<in> {Prepend, Append} \<Longrightarrow>
      ipt_run ex r position (makeFullArgs t c args) w = ((out, err), w') \<Longrightarrow>
      inv w' \<and> rules w' = (if err = None then (rules w)((t, c) := place position args (rules w (t, c))) else rules w)"
    and del_law: "inv w \<Longrightarrow> args \<in> set (rules w (t, c)) \<Longrightarrow>
      ipt_run ex r opDeleteRule (makeFullArgs t c args) w = ((out, err), w') \<Longrightarrow>
      inv w' \<and> rules w' = (if err = None then (rules w)((t, c) := remove1 args (rules w (t, c))) else rules w)"
begin

lemma check_result:
  assumes "inv w" "checkRule ex r t c args w = (res, w')"
  shows "inv w' \<and> rules w' = rules w \<and> (\<forall>b. res = Inr b \<longrightarrow> (b \<longleftrightarrow> args \<in> set (rules w (t, c))))"
proof -
  obtain out err w1 where run: "ipt_run ex r opCheckRule (makeFullArgs t c args) w = ((out, err), w1)"
    by (metis prod.collapse)
  show ?thesis
    using check_law [OF assms(1) run] assms(2) run has_check
    by (auto simp: checkRule_def checkRuleUsingCheck_def split: option.splits if_splits)
qed

lemma DeleteRule_law:
  assumes "inv w" "DeleteRule ex r t c args w = (None, w')" "distinct (rules w (t, c))"
  shows "inv w' \<and> rules w' = (rules w)((t, c) := removeAll args (rules w (t, c)))"
proof -
  obtain q w1 where chk: "checkRule ex r t c args w = (q, w1)" by force
  note law = check_result [OF assms(1) chk]
  obtain out err w2 where run: "ipt_run ex r opDeleteRule (makeFullArgs t c args) w1 = ((out, err), w2)"
    by (metis prod.collapse)
  show ?thesis
    using assms(2,3) law chk run del_law [of w1 args t c out err w2]
    by (auto simp: DeleteRule_def distinct_remove1_removeAll removeAll_id fun_upd_idem
        split: sum.splits bool.splits option.splits)
qed

end

sublocale iptables_tool \<subseteq> rule_store "EnsureRule ex r" inv rules
proof
  fix w position t c args res w'
  assume *: "inv w" "position \<in> {Prepend, Append}" "EnsureRule ex r position t c args w = (res, w')"
  obtain q w1 where chk: "checkRule ex r t c args w = (q, w1)" by force
  note law = check_result [OF *(1) chk]
  obtain out err w2 where run: "ipt_run ex r position (makeFullArgs t c args) w1 = ((out, err), w2)"
    by (metis prod.collapse)
  show "inv w' \<and>
      (case res of
         Inl err \<Rightarrow> rules w' = rules w
       | Inr True \<Rightarrow> args \<in> set (rules w (t, c)) \<and> rules w' = rules w
       | Inr False \<Rightarrow> args \<notin> set (rules w (t, c)) \<and>
           rules w' = (rules w)((t, c) := place position args (rules w (t, c))))"
    using *(3) law chk run add_law [OF _ *(2) run]
    by (auto simp: EnsureRule_def split: sum.splits bool.splits option.splits)
qed

context iptables_tool
begin

lemmas EnsureRule_keeps = ensure_keeps

end

text \<open>
  A simulated \<^verbatim>\<open>iptables\<close> command that keeps its rules in a table: the laws can hold together,
  and witnesses can run.
\<close>

fun sim_iptables :: "string list \<Rightarrow> rule_table \<Rightarrow> (string \<times> exec_err option) \<times> rule_table" where
  "sim_iptables (flag # op # c # tf # t # args) w =
     (if op = opCheckRule
      then if args \<in> set (w (t, c)) then (([], None), w) else ((''no match'', Some (ExitError True 1 ''exit status 1'')), w)
      else if op = Prepend \<or> op = Append then (([], None), w((t, c) := place op args (w (t, c))))
      else if op = opDeleteRule
      then if args \<in> set (w (t, c)) then (([], None), w((t, c) := remove1 args (w (t, c))))
           else ((''no match'', Some (ExitError True 1 ''exit status 1'')), w)
      else ((''unknown option'', Some (ExitError True 2 ''exit status 2'')), w))"
| "sim_iptables _ w = ((''unknown option'', Some (ExitError True 2 ''exit status 2'')), w)"

definition sim_exec :: "rule_table Exec" where
  "sim_exec = \<lparr>CombinedOutput = (\<lambda>cmd args stdin w. sim_iptables args w)\<rparr>"

definition sim_runner :: "rule_table ipt_runner" where
  "sim_runner = \<lparr>irProtocol = ProtocolIpv4, irHasCheck = True, irWaitFlag = [''-w5''], irRestoreWaitFlag = [''-w5''],
     irLockfilePath = LockfilePath16x, irReloadFuncs = [], irSignal = None\<rparr>"

lemma ops_distinct:
  "Prepend \<noteq> opCheckRule" "Append \<noteq> opCheckRule" "opDeleteRule \<noteq> opCheckRule" "opDeleteRule \<noteq> Prepend"
  "opDeleteRule \<noteq> Append" "Append \<noteq> Prepend"
  by (simp_all add: Prepend_def Append_def opCheckRule_def opDeleteRule_def)

interpretation simt: iptables_tool sim_exec sim_runner "\<lambda>_. True" "\<lambda>w. w"
  by unfold_locales
    (auto simp: sim_exec_def sim_runner_def ipt_run_def makeFullArgs_def ops_distinct ops_distinct [symmetric]
      split: if_splits)

text \<open>
  C22. With an \<^verbatim>\<open>iptables\<close> that has \<^verbatim>\<open>-C\<close> (\<open>irHasCheck\<close>), \<open>EnsureRule\<close> makes a rule present once and only
  once: when it succeeds the rule is in the chain, its result says whether it was there before,
  no rule of any chain is lost or changed, and rule lists without duplicates stay without
  duplicates, however often it is called; when it fails no rule is lost or added except possibly
  this one.
\<close>

theorem EnsureRule_once:
  assumes "iptables_tool ex r rinv rules" "rinv w" "position \<in> {Prepend, Append}"
    and "EnsureRule ex r position t c args w = (res, w')" "\<forall>k. distinct (rules w k)"
  shows "rinv w' \<and> (\<forall>k. distinct (rules w' k)) \<and> (\<forall>k. set (rules w k) \<subseteq> set (rules w' k)) \<and>
    (\<forall>b. res = Inr b \<longrightarrow> args \<in> set (rules w' (t, c)) \<and> (b \<longleftrightarrow> args \<in> set (rules w (t, c)))) \<and>
    (\<forall>k. set (rules w' k) \<subseteq> (if k = (t, c) then insert args (set (rules w k)) else set (rules w k)))"
  using iptables_tool.EnsureRule_keeps [OF assms] .

theorem EnsureRule_once_witness:
  "iptables_tool sim_exec sim_runner (\<lambda>_. True) (\<lambda>w. w) \<and>
   EnsureRule sim_exec sim_runner Prepend ''nat'' ''OUTPUT'' [''-j'', ''MARK''] (\<lambda>_. []) =
     (Inr False, (\<lambda>_. [])((''nat'', ''OUTPUT'') := [[''-j'', ''MARK'']])) \<and>
   [''-j'', ''MARK''] \<in> set (((\<lambda>_. [])((''nat'', ''OUTPUT'') := [[''-j'', ''MARK'']])) (''nat'', ''OUTPUT''))"
proof -
  have run: "EnsureRule sim_exec sim_runner Prepend ''nat'' ''OUTPUT'' [''-j'', ''MARK''] (\<lambda>_. []) =
     (Inr False, (\<lambda>_. [])((''nat'', ''OUTPUT'') := [[''-j'', ''MARK'']]))"
    by (simp add: EnsureRule_def checkRule_def checkRuleUsingCheck_def ipt_run_def sim_exec_def sim_runner_def
        makeFullArgs_def place_def ops_distinct)
  show ?thesis
    using EnsureRule_once [OF simt.iptables_tool_axioms _ _ run] run simt.iptables_tool_axioms by simp
qed

text \<open>
  \<open>DeleteRule\<close>, when it succeeds, leaves the chain without the rule and everything else as it
  was, also when the rule was not there.
\<close>

theorem DeleteRule_gone:
  assumes "iptables_tool ex r rinv rules" "rinv w" "DeleteRule ex r t c args w = (None, w')" "distinct (rules w (t, c))"
  shows "rinv w' \<and> rules w' = (rules w)((t, c) := removeAll args (rules w (t, c)))"
  using iptables_tool.DeleteRule_law [OF assms] .

theorem DeleteRule_gone_witness:
  "DeleteRule sim_exec sim_runner ''nat'' ''OUTPUT'' [''-j'', ''MARK'']
     ((\<lambda>_. [])((''nat'', ''OUTPUT'') := [[''-j'', ''MARK''], [''-j'', ''DROP'']])) =
     (None, (\<lambda>_. [])((''nat'', ''OUTPUT'') := [[''-j'', ''DROP'']]))"
proof -
  let ?w = "(\<lambda>_. [])((''nat'', ''OUTPUT'') := [[''-j'', ''MARK''], [''-j'', ''DROP'']])"
  obtain w' where run: "DeleteRule sim_exec sim_runner ''nat'' ''OUTPUT'' [''-j'', ''MARK''] ?w = (None, w')"
    by (simp add: DeleteRule_def checkRule_def checkRuleUsingCheck_def ipt_run_def sim_exec_def sim_runner_def
        makeFullArgs_def ops_distinct)
  show ?thesis
    using DeleteRule_gone [OF simt.iptables_tool_axioms _ run] run by simp
qed

subsection \<open>The check without -C\<close>

lemma find_rule_line_iff:
  "find_rule_line chain ws ls \<longleftrightarrow>
     (\<exists>l \<in> set ls. HasPrefix l (''-A '' @ chain) \<and> length (Fields l) = length ws + 2 \<and> set ws \<subseteq> set (map unquote (Fields l)))"
  by (induction ls) (auto simp: Let_def)

text \<open>Arguments that are single words and that the removal of quotes and leading zeros leaves as they are.\<close>

definition plain_word :: "string \<Rightarrow> bool" where
  "plain_word a \<longleftrightarrow> word_ok a \<and> unquote a = a"

lemma unpack_plain: "\<forall>a \<in> set args. plain_word a \<Longrightarrow> unpack_args args = args"
  by (induction args) (simp_all add: unpack_args_def plain_word_def Fields_word)

lemma find_printed_rule:
  assumes "\<forall>a \<in> set args. plain_word a" "word_ok (chain @ suffix)"
    and "''-A '' @ chain @ suffix @ '' '' @ Join args '' '' \<in> set ls"
  shows "find_rule_line chain (unpack_args args) ls"
proof -
  let ?line = "''-A '' @ chain @ suffix @ '' '' @ Join args '' ''"
  have "word_ok ''-A''" by (simp add: word_ok_def is_space_def)
  from Fields_word_sep [OF this, of "CHR '' ''" "(chain @ suffix) @ CHR '' '' # Join args '' ''"]
  have "Fields ?line = ''-A'' # Fields ((chain @ suffix) @ CHR '' '' # Join args '' '')" by simp
  also have "\<dots> = ''-A'' # (chain @ suffix) # args"
    using assms(1,2) by (simp only: Fields_word_sep tab_space) (simp add: Fields_Join plain_word_def)
  finally have f: "Fields ?line = ''-A'' # (chain @ suffix) # args" .
  have "set args \<subseteq> set (map unquote (Fields ?line))"
    unfolding f using assms(1) by (auto simp: plain_word_def intro: rev_image_eqI)
  moreover have "HasPrefix ?line (''-A '' @ chain)" by (simp add: HasPrefix_def)
  ultimately show ?thesis
    using assms(3) f unfolding find_rule_line_iff unpack_plain [OF assms(1)] by (intro bexI [of _ ?line]) simp_all
qed

text \<open>
  C38. With an \<^verbatim>\<open>iptables\<close> that has no \<^verbatim>\<open>-C\<close>, \<open>EnsureRule\<close> takes a rule as present, and runs nothing but
  \<^verbatim>\<open>iptables-save\<close>, when the same rule is listed for any chain whose name begins with the name of
  the chain it was asked for: for the chain itself (\<open>suffix = []\<close>), but also for another chain,
  and then the rule is left out.
\<close>

theorem check_confuses_chains:
  assumes "\<not> irHasCheck r"
    and "CombinedOutput ex (iptablesSaveCommand (irProtocol r)) [''-t'', table] [] w = ((out, None), w')"
    and "''-A '' @ chain @ suffix @ '' '' @ Join args '' '' \<in> set (Split out nl)"
    and "word_ok (chain @ suffix)" "\<forall>a \<in> set args. plain_word a"
  shows "EnsureRule ex r position table chain args w = (Inr True, w')"
  using find_printed_rule [OF assms(5,4,3)] assms(1,2)
  by (simp add: EnsureRule_def checkRule_def checkRuleWithoutCheck_def)

text \<open>A command that lists a rule of the chain \<^verbatim>\<open>KUBE-FOO\<close> and notes what it was run with.\<close>

definition save_exec :: "string list list Exec" where
  "save_exec = \<lparr>CombinedOutput = (\<lambda>cmd args stdin w. ((''-A KUBE-FOO -j ACCEPT'' @ [nl], None), w @ [cmd # args]))\<rparr>"

theorem check_confuses_chains_witness:
  "EnsureRule save_exec \<lparr>irProtocol = ProtocolIpv4, irHasCheck = False, irWaitFlag = [], irRestoreWaitFlag = [],
       irLockfilePath = LockfilePath16x, irReloadFuncs = [], irSignal = None\<rparr>
     Append ''filter'' ''KUBE'' [''-j'', ''ACCEPT''] [] = (Inr True, [[''iptables-save'', ''-t'', ''filter'']])"
proof -
  have plain: "plain_word ''-j''" "plain_word ''ACCEPT''" "word_ok (''KUBE'' @ ''-FOO'')"
    by (simp_all add: plain_word_def word_ok_def unquote_def trimhex_def ReplaceAllString_def replace_from.simps match_here_def
        hexnumRE_def Plus_def is_space_def Trim_def TrimBy_def rest_def)
  show ?thesis
    by (rule check_confuses_chains [where suffix = "''-FOO''" and out = "''-A KUBE-FOO -j ACCEPT'' @ [nl]"])
      (use plain in \<open>simp_all add: save_exec_def iptablesSaveCommand_def\<close>)
qed

subsection \<open>Flags by version\<close>

definition generic :: "nat list \<Rightarrow> Version" where
  "generic ns = \<lparr>components = ns, semver = False, preRelease = [], buildMetadata = []\<rparr>"

lemma ParseGeneric_three:
  assumes "a < 2 ^ 64" "b < 2 ^ 64" "c < 2 ^ 64"
  shows "ParseGeneric (show_nat a @ ''.'' @ show_nat b @ ''.'' @ show_nat c) = Inr (generic [a, b, c])"
proof -
  have "version_ok (generic [a, b, c])" using assms by (simp add: version_ok_def generic_def)
  from parse_String [OF this] show ?thesis
    by (simp add: ParseGeneric_def generic_def Version_String_def)
qed

lemma min_versions:
  "ParseGeneric MinCheckVersion = Inr (generic [1, 4, 11])" "ParseGeneric WaitMinVersion = Inr (generic [1, 4, 20])"
  "ParseGeneric WaitSecondsMinVersion = Inr (generic [1, 4, 22])"
  using ParseGeneric_three [of 1 4 11] ParseGeneric_three [of 1 4 20] ParseGeneric_three [of 1 4 22]
  by (simp_all add: MinCheckVersion_def WaitMinVersion_def WaitSecondsMinVersion_def go_eval)

lemma compare_to_generic:
  "compareInternal v (generic ns) =
     (if strip (components v) < strip ns then - 1 else if strip ns < strip (components v) then 1 else 0)"
proof -
  have "compareInternal v (generic ns) = num_result (components v) ns"
    by (auto simp: compareInternal_def num_result_def generic_def Let_def)
  then show ?thesis by (simp add: num_result_spec cmp_numeric_def)
qed

text \<open>
  The flags follow the version of \<^verbatim>\<open>iptables\<close>: \<^verbatim>\<open>-C\<close> from 1.4.11 on, no wait flag below
  1.4.20, \<^verbatim>\<open>-w\<close> below 1.4.22 and \<^verbatim>\<open>-w5\<close> from there on, in the order of the numeric components.
\<close>

theorem version_flags:
  assumes "ParseGeneric vstring = Inr v"
  shows "getIPTablesHasCheckCommand vstring = (\<not> strip (components v) < [1, 4, 11]) \<and>
    getIPTablesWaitFlag vstring =
      (if strip (components v) < [1, 4, 20] then []
       else if strip (components v) < [1, 4, 22] then [''-w''] else [''-w5''])"
  using assms
  by (simp add: getIPTablesHasCheckCommand_def getIPTablesWaitFlag_def min_versions AtLeast_def LessThan_def
      compare_to_generic strip_def [of "[_, _, _]"] WaitString_def WaitSecondsString_def)

theorem version_flags_witness:
  "getIPTablesHasCheckCommand ''1.4.21'' \<and> getIPTablesWaitFlag ''1.4.21'' = [''-w'']"
proof -
  have "ParseGeneric ''1.4.21'' = Inr (generic [1, 4, 21])"
    using ParseGeneric_three [of 1 4 21] by (simp add: go_eval)
  from version_flags [OF this] show ?thesis by (simp add: generic_def strip_def)
qed

subsection \<open>Locks\<close>

text \<open>
  What the operating system promises about the two locks: \<open>h16\<close> and \<open>h14\<close> say whether this process
  holds them. Opening the file takes no lock, an attempt takes its lock exactly when it reports
  no error, and closing a descriptor gives its lock back whatever it reports.
\<close>

locale lock_system =
  fixes os :: "'w LockOS" and h16 :: "'w \<Rightarrow> bool" and h14 :: "'w \<Rightarrow> bool"
  assumes open_law: "OpenFile os path w = (e, w') \<Longrightarrow> h16 w' = h16 w \<and> h14 w' = h14 w"
    and flock_law: "Flock os w = (e, w') \<Longrightarrow> h16 w' = (e = None \<or> h16 w) \<and> h14 w' = h14 w"
    and listen_law: "ListenUnix os w = (e, w') \<Longrightarrow> h14 w' = (e = None \<or> h14 w) \<and> h16 w' = h16 w"
    and close16_law: "Close16 os w = (e, w') \<Longrightarrow> \<not> h16 w' \<and> h14 w' = h14 w"
    and close14_law: "Close14 os w = (e, w') \<Longrightarrow> \<not> h14 w' \<and> h16 w' = h16 w"
begin

lemma poll_flock:
  "PollImmediate n (try_lock (Flock os)) w = (e, w') \<Longrightarrow> h16 w' = (e = None \<or> h16 w) \<and> h14 w' = h14 w"
proof (induction n arbitrary: w)
  case 0
  then show ?case
    using flock_law [of w]
    by (auto simp: PollImmediate.simps [of 0] try_lock_def split: prod.splits option.splits bool.splits)
next
  case (Suc n)
  obtain e1 w1 where f: "Flock os w = (e1, w1)" by force
  show ?case
    using Suc.prems Suc.IH [of w1] flock_law [OF f] f
    by (auto simp: PollImmediate.simps [of "Suc n"] try_lock_def split: option.splits bool.splits)
qed

lemma poll_listen:
  "PollImmediate n (try_lock (ListenUnix os)) w = (e, w') \<Longrightarrow> h14 w' = (e = None \<or> h14 w) \<and> h16 w' = h16 w"
proof (induction n arbitrary: w)
  case 0
  then show ?case
    using listen_law [of w]
    by (auto simp: PollImmediate.simps [of 0] try_lock_def split: prod.splits option.splits bool.splits)
next
  case (Suc n)
  obtain e1 w1 where f: "ListenUnix os w = (e1, w1)" by force
  show ?case
    using Suc.prems Suc.IH [of w1] listen_law [OF f] f
    by (auto simp: PollImmediate.simps [of "Suc n"] try_lock_def split: option.splits bool.splits)
qed

lemma close_releases:
  assumes "locker_Close os l w = (e, w')"
  shows "h16 w' = (h16 w \<and> \<not> lock16 l) \<and> h14 w' = (h14 w \<and> \<not> lock14 l)"
proof -
  obtain e16 w1 where c16: "Close16 os w = (e16, w1)" by force
  obtain e14 w2 where c14: "Close14 os w1 = (e14, w2)" by force
  obtain e14' w3 where c14': "Close14 os w = (e14', w3)" by force
  show ?thesis
    using assms c16 c14 c14' close16_law [OF c16] close14_law [OF c14] close14_law [OF c14']
    by (auto simp: locker_Close_def Let_def split: if_splits)
qed

lemma grab_all_or_nothing:
  assumes "\<not> h16 w" "\<not> h14 w" "grabIptablesLocks os n path w = (res, w')"
  shows "case res of Inl err \<Rightarrow> \<not> h16 w' \<and> \<not> h14 w'
    | Inr l \<Rightarrow> h16 w' \<and> h14 w' \<and> l = \<lparr>lock16 = True, lock14 = True\<rparr>"
proof -
  obtain e1 w1 where o: "OpenFile os path w = (e1, w1)" by force
  obtain e2 w2 where f: "PollImmediate n (try_lock (Flock os)) w1 = (e2, w2)" by force
  obtain e3 w3 where u: "PollImmediate n (try_lock (ListenUnix os)) w2 = (e3, w3)" by force
  have cl: "h16 (snd (locker_Close os l v)) = (h16 v \<and> \<not> lock16 l)"
    "h14 (snd (locker_Close os l v)) = (h14 v \<and> \<not> lock14 l)" for l v
    using close_releases [of l v] by (metis prod.collapse)+
  show ?thesis
    using assms o f u open_law [OF o] poll_flock [OF f] poll_listen [OF u]
    by (auto simp: grabIptablesLocks_def cl split: option.splits)
qed

end

definition restore_args :: "'w ipt_runner \<Rightarrow> string list \<Rightarrow> bool \<Rightarrow> bool \<Rightarrow> string list" where
  "restore_args r args flush counters =
     irRestoreWaitFlag r @ args @ (if flush then [] else [''--noflush'']) @ (if counters then [''--counters''] else [])"

text \<open>The command itself, with the rules on its standard input and the flags asked for.\<close>

definition restore_command :: "'w Exec \<Rightarrow> 'w ipt_runner \<Rightarrow> string list \<Rightarrow> string \<Rightarrow> bool \<Rightarrow> bool \<Rightarrow> 'w \<Rightarrow> (string \<times> exec_err option) \<times> 'w" where
  "restore_command ex r args data flush counters w =
     CombinedOutput ex (iptablesRestoreCommand (irProtocol r)) (restore_args r args flush counters) data w"

context lock_system
begin

lemma restore_locked:
  assumes "\<not> h16 w" "\<not> h14 w" "restoreInternal ex os n r args data flush counters w = (res, w')"
  shows "if irRestoreWaitFlag r \<noteq> []
    then case restore_command ex r args data flush counters w of ((out, err), w1) \<Rightarrow> (res = None \<longleftrightarrow> err = None) \<and> w' = w1
    else case grabIptablesLocks os n (irLockfilePath r) w of
        (Inl err, w1) \<Rightarrow> res = Some err \<and> w' = w1 \<and> \<not> h16 w' \<and> \<not> h14 w'
      | (Inr l, w1) \<Rightarrow> h16 w1 \<and> h14 w1 \<and>
          (case restore_command ex r args data flush counters w1 of
             ((out, err), w2) \<Rightarrow> (res = None \<longleftrightarrow> err = None) \<and> w' = snd (locker_Close os l w2) \<and> \<not> h16 w' \<and> \<not> h14 w')"
proof (cases "irRestoreWaitFlag r = []")
  case False
  then show ?thesis
    using assms(3) by (auto simp: restoreInternal_def restore_command_def restore_args_def Let_def split: prod.splits)
next
  case True
  obtain g w1 where grab: "grabIptablesLocks os n (irLockfilePath r) w = (g, w1)" by force
  note all = grab_all_or_nothing [OF assms(1,2) grab]
  show ?thesis
  proof (cases g)
    case (Inl err)
    with True assms(3) grab all show ?thesis by (simp add: restoreInternal_def)
  next
    case (Inr l)
    obtain out err w2 where run: "restore_command ex r args data flush counters w1 = ((out, err), w2)"
      by (metis prod.collapse)
    obtain e w3 where cl: "locker_Close os l w2 = (e, w3)" by force
    have res: "res = map_option (\<lambda>e. err_text e @ '' ('' @ out @ '')'') err" "w' = w3"
      using assms(3) True grab Inr run cl
      by (simp_all add: restoreInternal_def restore_command_def restore_args_def Let_def split: if_splits)
    have held: "h16 w1" "h14 w1" "l = \<lparr>lock16 = True, lock14 = True\<rparr>" using all Inr by simp_all
    have "\<not> h16 w' \<and> \<not> h14 w'" using close_releases [OF cl] held res(2) by simp
    then show ?thesis using True grab Inr held(1,2) run res cl by simp
  qed
qed

end

text \<open>An operating system whose state is the pair of locks.\<close>

definition sim_locks :: "(bool \<times> bool) LockOS" where
  "sim_locks = \<lparr>OpenFile = (\<lambda>path w. (if path = [] then Some ''no such file'' else None, w)),
     Flock = (\<lambda>w. (None, (True, snd w))),
     ListenUnix = (\<lambda>w. (None, (fst w, True))),
     Close16 = (\<lambda>w. (None, (False, snd w))), Close14 = (\<lambda>w. (None, (fst w, False)))\<rparr>"

interpretation sim_lock: lock_system sim_locks fst snd
  by unfold_locales (auto simp: sim_locks_def split: if_splits)

text \<open>
  C23. The two locks around \<^verbatim>\<open>iptables-restore\<close> are taken together or not at all: when
  \<open>grabIptablesLocks\<close> succeeds the process holds both, when it fails (the file cannot be opened,
  or one of the polls times out) it holds neither.
\<close>

theorem locks_all_or_nothing:
  assumes "lock_system os h16 h14" "\<not> h16 w" "\<not> h14 w" "grabIptablesLocks os n path w = (res, w')"
  shows "case res of Inl err \<Rightarrow> \<not> h16 w' \<and> \<not> h14 w'
    | Inr l \<Rightarrow> h16 w' \<and> h14 w' \<and> l = \<lparr>lock16 = True, lock14 = True\<rparr>"
  using lock_system.grab_all_or_nothing [OF assms] .

theorem locks_all_or_nothing_witness:
  "grabIptablesLocks sim_locks 10 LockfilePath16x (False, False) =
     (Inr \<lparr>lock16 = True, lock14 = True\<rparr>, (True, True))"
proof -
  obtain w' where run: "grabIptablesLocks sim_locks 10 LockfilePath16x (False, False) =
      (Inr \<lparr>lock16 = True, lock14 = True\<rparr>, w')"
    by (simp add: grabIptablesLocks_def sim_locks_def PollImmediate.simps [of 10] try_lock_def LockfilePath16x_def)
  from locks_all_or_nothing [OF sim_lock.lock_system_axioms _ _ run] run show ?thesis by (cases w') simp
qed

text \<open>
  C24. When the runner has no wait flag for it, \<^verbatim>\<open>iptables-restore\<close> runs only while both locks are held,
  from the state in which \<open>grabIptablesLocks\<close> took them, with the rules on its standard input and
  exactly the flags asked for; if the locks cannot be had nothing is run after the attempt and
  its error is returned; in both cases both locks are free at the end. With a wait flag the
  command runs at once and waits for itself. Success is reported exactly when the command
  succeeded.
\<close>

theorem restore_under_locks:
  assumes "lock_system os h16 h14" "\<not> h16 w" "\<not> h14 w"
    and "restoreInternal ex os n r args data flush counters w = (res, w')"
  shows "if irRestoreWaitFlag r \<noteq> []
    then case restore_command ex r args data flush counters w of ((out, err), w1) \<Rightarrow> (res = None \<longleftrightarrow> err = None) \<and> w' = w1
    else case grabIptablesLocks os n (irLockfilePath r) w of
        (Inl err, w1) \<Rightarrow> res = Some err \<and> w' = w1 \<and> \<not> h16 w' \<and> \<not> h14 w'
      | (Inr l, w1) \<Rightarrow> h16 w1 \<and> h14 w1 \<and>
          (case restore_command ex r args data flush counters w1 of
             ((out, err), w2) \<Rightarrow> (res = None \<longleftrightarrow> err = None) \<and> w' = snd (locker_Close os l w2) \<and> \<not> h16 w' \<and> \<not> h14 w')"
  using lock_system.restore_locked [OF assms] .

definition locked_exec :: "(bool \<times> bool) Exec" where
  "locked_exec = \<lparr>CombinedOutput = (\<lambda>cmd args stdin w.
     (([], if w = (True, True) then None else Some (ExitError True 4 ''exit status 4'')), w))\<rparr>"

definition old_runner :: "(bool \<times> bool) ipt_runner" where
  "old_runner = \<lparr>irProtocol = ProtocolIpv4, irHasCheck = True, irWaitFlag = [], irRestoreWaitFlag = [],
     irLockfilePath = LockfilePath16x, irReloadFuncs = [], irSignal = None\<rparr>"

theorem restore_under_locks_witness:
  "\<exists>w'. restoreInternal locked_exec sim_locks 10 old_runner [] ''*nat'' False True (False, False) = (None, w') \<and>
     \<not> fst w' \<and> \<not> snd w'"
proof -
  obtain w' where run: "restoreInternal locked_exec sim_locks 10 old_runner [] ''*nat'' False True (False, False) = (None, w')"
    by (simp add: restoreInternal_def locked_exec_def old_runner_def grabIptablesLocks_def sim_locks_def
        PollImmediate.simps [of 10] try_lock_def LockfilePath16x_def locker_Close_def)
  have flag: "irRestoreWaitFlag old_runner = []" by (simp add: old_runner_def)
  from restore_under_locks [OF sim_lock.lock_system_axioms _ _ run] have "\<not> fst w' \<and> \<not> snd w'"
    by (auto simp: flag case_prod_beta split: sum.splits)
  with run show ?thesis by blast
qed

end
