(* ===== verification/LvsNetfilter.thy ===== *)
theory LvsNetfilter
  imports LvsAdaptor LvsSyncSpec IpsetList IptablesProps
begin

text \<open>
  What \<open>buildIptables\<close> needs of the two handlers (\<open>ipset_contract\<close>, \<open>netfilter\<close>) and what it then
  achieves: the wanted entries in the ipset and the constant rules in their chains.
\<close>

subsection \<open>The contract\<close>

text \<open>An entry of a \<open>hash:ip,port\<close> set the way the \<^verbatim>\<open>ipset\<close> command prints it.\<close>

definition entry_ok :: "string \<Rightarrow> bool" where
  "entry_ok e \<longleftrightarrow>
     (\<exists>a b c d proto port. e = ipport_text (show_v4 [a, b, c, d]) proto port \<and> (proto = ''tcp'' \<or> proto = ''udp'') \<and>
        0 \<le> port \<and> port < 65536)"

text \<open>
  \<open>members w\<close> gives the sets that exist with their entries; \<open>sure\<close> says that no operation fails.
\<close>

locale ipset_contract =
  fixes ips :: "'w ipset_Interface" and inv :: "'w \<Rightarrow> bool" and members :: "'w \<Rightarrow> string \<Rightarrow> string set option"
    and sure :: bool
  assumes set_create_law: "inv w \<Longrightarrow> isSetType st = HashIPPort \<Longrightarrow> isName st \<noteq> [] \<Longrightarrow> isHashFamily st = [] \<Longrightarrow>
      isHashSize st = 0 \<Longrightarrow> isMaxElem st = 0 \<Longrightarrow> isPortRange st = [] \<Longrightarrow>
      CreateSet ips st True w = ((err, st'), w') \<Longrightarrow>
      inv w' \<and> isName st' = isName st \<and> isSetType st' = HashIPPort \<and> (sure \<longrightarrow> err = None) \<and>
      members w' = (if err = None
        then (members w)(isName st \<mapsto> (case members w (isName st) of None \<Rightarrow> {} | Some M \<Rightarrow> M)) else members w)"
    and entry_add_law: "inv w \<Longrightarrow> entry_ok e \<Longrightarrow> members w (isName st) = Some M \<Longrightarrow> AddEntry ips e st True w = (err, w') \<Longrightarrow>
      inv w' \<and> (sure \<longrightarrow> err = None) \<and>
      members w' = (if err = None then (members w)(isName st \<mapsto> insert e M) else members w)"
    and entry_del_law: "inv w \<Longrightarrow> members w n = Some M \<Longrightarrow> e \<in> M \<Longrightarrow> DelEntry ips e n w = (err, w') \<Longrightarrow>
      inv w' \<and> (sure \<longrightarrow> err = None) \<and>
      members w' = (if err = None then (members w)(n \<mapsto> M - {e}) else members w)"
    and set_list_law: "inv w \<Longrightarrow> members w n = Some M \<Longrightarrow> n \<noteq> [] \<Longrightarrow> ListEntries ips n w = (res, w') \<Longrightarrow>
      inv w' \<and> members w' = members w \<and> (sure \<longrightarrow> (\<exists>es. res = Inr es)) \<and>
      (\<forall>es. res = Inr es \<longrightarrow> distinct es \<and> set es = M)"
begin

text \<open>
  The loop that deletes: what is left to add is what is expected and was not listed; the set has
  lost only entries that are not expected, and all of the listed ones if nothing fails.
\<close>

lemma prune_result:
  "inv w \<Longrightarrow> members w ipsetName = Some M \<Longrightarrow> distinct es \<Longrightarrow> set es \<subseteq> M \<Longrightarrow> gmap_ok X \<Longrightarrow>
   prune_entries ips es X w = (X', w') \<Longrightarrow>
   \<exists>M'. inv w' \<and> members w' = (members w)(ipsetName \<mapsto> M') \<and> M' \<subseteq> M \<and> M - (set es - fst ` set X) \<subseteq> M' \<and>
     (sure \<longrightarrow> M' = M - (set es - fst ` set X)) \<and> gmap_ok X' \<and> fst ` set X' = fst ` set X - set es"
proof (induction es arbitrary: M X w)
  case Nil
  then have "members w = (members w)(ipsetName \<mapsto> M)" by (simp add: fun_upd_idem)
  then show ?case using Nil by (intro exI [of _ M]) auto
next
  case (Cons e es)
  show ?case
  proof (cases "map_of X e")
    case None
    then have notin: "e \<notin> fst ` set X" by (simp add: map_of_eq_None_iff)
    obtain err w1 where del: "DelEntry ips e ipsetName w = (err, w1)" by force
    have e: "e \<in> M" using Cons.prems(4) by simp
    note law = entry_del_law [OF Cons.prems(1,2) e del]
    define M1 where "M1 = (if err = None then M - {e} else M)"
    have m1: "members w1 ipsetName = Some M1" "members w1 = (members w)(ipsetName \<mapsto> M1)"
      using law Cons.prems(2) by (auto simp: M1_def fun_upd_idem)
    have sub: "set es \<subseteq> M1" using Cons.prems(3,4) by (auto simp: M1_def)
    have dist: "distinct es" using Cons.prems(3) by simp
    have run: "prune_entries ips es X w1 = (X', w')" using Cons.prems(6) None del by simp
    obtain M' where M': "inv w'" "members w' = (members w1)(ipsetName \<mapsto> M')" "M' \<subseteq> M1"
        "M1 - (set es - fst ` set X) \<subseteq> M'" "sure \<longrightarrow> M' = M1 - (set es - fst ` set X)" "gmap_ok X'"
        "fst ` set X' = fst ` set X - set es"
      using Cons.IH [OF conjunct1 [OF law] m1(1) dist sub Cons.prems(5) run] by (elim exE conjE) (rule that)
    have M1: "M1 \<subseteq> M" "M - {e} \<subseteq> M1" "sure \<longrightarrow> M1 = M - {e}" using law by (auto simp: M1_def)
    define K where "K = fst ` set X"
    note M' = M' [folded K_def] and notin = notin [folded K_def]
    have "M - (set (e # es) - K) \<subseteq> M'" "sure \<longrightarrow> M' = M - (set (e # es) - K)" "K - set es = K - set (e # es)"
      using M'(3-5) M1 notin by auto
    moreover have "members w' = (members w)(ipsetName \<mapsto> M')" "M' \<subseteq> M" using M'(2,3) m1(2) M1(1) by auto
    ultimately show ?thesis
      unfolding K_def [symmetric] using M'(1,6,7) by (intro exI [of _ M'] conjI) simp_all
  next
    case (Some u)
    then have mem: "e \<in> fst ` set X" by (metis map_of_eq_None_iff option.distinct(1))
    have keys: "fst ` set (AList.delete e X) = fst ` set X - {e}"
      by (metis delete_keys set_map set_removeAll)
    have run: "prune_entries ips es (AList.delete e X) w = (X', w')" using Cons.prems(6) Some by simp
    have "e \<notin> set es" "set es \<subseteq> M" using Cons.prems(3,4) by auto
    then have eq: "set es - (fst ` set X - {e}) = set (e # es) - fst ` set X" using mem by auto
    have diff: "fst ` set X - {e} - set es = fst ` set X - set (e # es)" by auto
    have ok: "distinct es" "gmap_ok (AList.delete e X)" using Cons.prems(3,5) by simp_all
    show ?thesis
      using Cons.IH [OF Cons.prems(1,2) ok(1) \<open>set es \<subseteq> M\<close> ok(2) run] unfolding keys eq diff .
  qed
qed

lemma add_result:
  "inv w \<Longrightarrow> members w (isName st) = Some M \<Longrightarrow> \<forall>e \<in> set es. entry_ok e \<Longrightarrow> w' = add_entries ips st es w \<Longrightarrow>
   \<exists>M'. inv w' \<and> members w' = (members w)(isName st \<mapsto> M') \<and> M \<subseteq> M' \<and> M' \<subseteq> M \<union> set es \<and> (sure \<longrightarrow> M' = M \<union> set es)"
proof (induction es arbitrary: M w)
  case Nil
  then have "members w = (members w)(isName st \<mapsto> M)" by (simp add: fun_upd_idem)
  then show ?case using Nil by (intro exI [of _ M]) auto
next
  case (Cons e es)
  obtain err w1 where add: "AddEntry ips e st True w = (err, w1)" by force
  have e: "entry_ok e" using Cons.prems(3) by simp
  note law = entry_add_law [OF Cons.prems(1) e Cons.prems(2) add]
  define M1 where "M1 = (if err = None then insert e M else M)"
  have m1: "members w1 (isName st) = Some M1" "members w1 = (members w)(isName st \<mapsto> M1)"
    using law Cons.prems(2) by (auto simp: M1_def fun_upd_idem)
  have es: "\<forall>e \<in> set es. entry_ok e" and run: "w' = add_entries ips st es w1" using Cons.prems(3,4) add by simp_all
  obtain M' where M': "inv w'" "members w' = (members w1)(isName st \<mapsto> M')" "M1 \<subseteq> M'" "M' \<subseteq> M1 \<union> set es"
      "sure \<longrightarrow> M' = M1 \<union> set es"
    using Cons.IH [OF conjunct1 [OF law] m1(1) es run] by blast
  have "M \<subseteq> M1" "M1 \<subseteq> insert e M" "sure \<longrightarrow> M1 = insert e M" using law by (auto simp: M1_def)
  then show ?case using M' m1(2) by (intro exI [of _ M']) auto
qed

end

subsection \<open>What buildIptables achieves\<close>

text \<open>
  The entries wanted: the balancer's address with each (protocol, port) that a service has.
\<close>

definition want_entries :: "IP \<Rightarrow> Service list \<Rightarrow> string set" where
  "want_entries addr lbSvcs =
     {ipport_text (IP_String addr) (if i = 1 then ''udp'' else ''tcp'') (sint port) | i port.
        i < 2 \<and> (\<exists>svc \<in> set lbSvcs. serves svc i port)}"

lemma fold_insert_keys:
  "fst ` set (fold (\<lambda>kv X. AList.update (f (fst kv)) () X) kvs X) = fst ` set X \<union> (f \<circ> fst) ` set kvs"
proof (induction kvs arbitrary: X)
  case (Cons kv kvs)
  have "fst ` set (AList.update (f (fst kv)) () X) = insert (f (fst kv)) (fst ` set X)"
    by (auto simp: dom_update)
  then show ?case using Cons.IH [of "AList.update (f (fst kv)) () X"] by auto
qed simp

lemma fold_insert_ok: "gmap_ok X \<Longrightarrow> gmap_ok (fold (\<lambda>kv X. AList.update (f (fst kv)) () X) kvs X)"
  by (induction kvs arbitrary: X) auto

lemma expect_entries_correct:
  "gmap_ok (expect_entries rank addr HashIPPort (port_service_map lbSvcs))"
  "fst ` set (expect_entries rank addr HashIPPort (port_service_map lbSvcs)) = want_entries addr lbSvcs"
proof -
  let ?p = "port_service_map lbSvcs"
  let ?f = "\<lambda>i p. Entry_String (port_entry addr HashIPPort i p)"
  let ?F = "\<lambda>i m. fold (\<lambda>kv m. AList.update (?f i (fst kv)) () m) (range_map (rank i) (?p ! i)) m"
  have len: "length ?p = 2" using port_service_map_ok by (simp add: psm_ok_def)
  have run: "expect_entries rank addr HashIPPort ?p = ?F 1 (?F 0 [])"
    unfolding expect_entries_def len by (simp add: numeral_2_eq_2 upt_rec)
  show "gmap_ok (expect_entries rank addr HashIPPort ?p)"
    unfolding run by (intro fold_insert_ok) simp
  have ports: "fst ` set (?p ! i) = {port. \<exists>svc \<in> set lbSvcs. serves svc i port}" if "i < 2" for i
    using port_service_map_lookup(1) [OF that, of lbSvcs] map_of_eq_None_iff [of "?p ! i"] by blast
  have keys: "fst ` set (?F i X) = fst ` set X \<union> ?f i ` {port. \<exists>svc \<in> set lbSvcs. serves svc i port}" if "i < 2" for i X
    unfolding fold_insert_keys [where f = "?f i"] image_comp [symmetric] set_range_map ports [OF that] ..
  have f: "?f i p = ipport_text (IP_String addr) (if i = 1 then ''udp'' else ''tcp'') (sint p)" for i p
    by (simp add: Entry_String_HashIPPort port_entry_def)
  have "fst ` set (?F 1 (?F 0 [])) = (\<Union>i \<in> {..<2}. ?f i ` {port. \<exists>svc \<in> set lbSvcs. serves svc i port})"
    using keys [of 0 "[]"] keys [of 1 "?F 0 []"] by (simp only: lessThan_Suc numeral_2_eq_2) auto
  also have "\<dots> = want_entries addr lbSvcs"
    unfolding f want_entries_def by blast
  finally have "fst ` set (?F 1 (?F 0 [])) = want_entries addr lbSvcs" .
  then show "fst ` set (expect_entries rank addr HashIPPort ?p) = want_entries addr lbSvcs"
    unfolding run .
qed

text \<open>
  What happens to the ipset: \<open>W\<close> is wanted, \<open>old\<close> and \<open>new\<close> are the entries before and after. If
  nothing fails the set is the wanted one; otherwise no wanted entry is lost and no other entry
  is added.
\<close>

definition set_outcome :: "bool \<Rightarrow> string set \<Rightarrow> string set option \<Rightarrow> string set option \<Rightarrow> bool" where
  "set_outcome sure W old new \<longleftrightarrow>
     (if sure then new = Some W
      else case old of
        None \<Rightarrow> (\<forall>N. new = Some N \<longrightarrow> N \<subseteq> W)
      | Some M \<Rightarrow> (\<exists>N. new = Some N \<and> M \<inter> W \<subseteq> N \<and> N \<subseteq> M \<union> W))"

text \<open>The rules: none is lost, none but the constant ones is added, and none twice.\<close>

definition rules_outcome :: "bool \<Rightarrow> const_rule list \<Rightarrow> rule_table \<Rightarrow> rule_table \<Rightarrow> bool" where
  "rules_outcome sure rs old new \<longleftrightarrow>
     (\<forall>k. distinct (new k)) \<and>
     (\<forall>k. set (old k) \<subseteq> set (new k) \<and>
        set (new k) \<subseteq> set (old k) \<union> {cr_rules r | r. r \<in> set rs \<and> (cr_table r, cr_chain r) = k}) \<and>
     (sure \<longrightarrow> (\<forall>r \<in> set rs. cr_rules r \<in> set (new (cr_table r, cr_chain r))))"

locale netfilter = ipset_contract ips inv members sure + rule_store ensure inv rules
  for ips :: "'w ipset_Interface" and inv :: "'w \<Rightarrow> bool" and members :: "'w \<Rightarrow> string \<Rightarrow> string set option" and sure :: bool
    and ensure :: "string \<Rightarrow> string \<Rightarrow> string \<Rightarrow> string list \<Rightarrow> 'w \<Rightarrow> (gerror + bool) \<times> 'w" and rules :: "'w \<Rightarrow> rule_table" +
  assumes ensure_sure: "sure \<Longrightarrow> inv w \<Longrightarrow> position \<in> {Prepend, Append} \<Longrightarrow> \<exists>b. fst (ensure position t c args w) = Inr b"
    and ensure_members: "inv w \<Longrightarrow> members (snd (ensure position t c args w)) = members w"
    and create_rules: "inv w \<Longrightarrow> rules (snd (CreateSet ips st b w)) = rules w"
    and add_rules: "inv w \<Longrightarrow> rules (snd (AddEntry ips e st b w)) = rules w"
    and del_rules: "inv w \<Longrightarrow> rules (snd (DelEntry ips e n w)) = rules w"
    and list_rules: "inv w \<Longrightarrow> rules (snd (ListEntries ips n w)) = rules w"
begin

lemma ensure_rules_outcome:
  assumes "iEnsureRule ipt = ensure"
  shows "inv w \<Longrightarrow> \<forall>r \<in> set rs. cr_position r \<in> {Prepend, Append} \<Longrightarrow> \<forall>k. distinct (rules w k) \<Longrightarrow>
    w' = ensure_rules ipt rs w \<Longrightarrow> inv w' \<and> members w' = members w \<and> rules_outcome sure rs (rules w) (rules w')"
  supply split_paired_All [simp del]
proof (induction rs arbitrary: w)
  case Nil
  then show ?case by (simp add: rules_outcome_def)
next
  case (Cons r rs)
  let ?k = "(cr_table r, cr_chain r)"
  obtain res w1 where run: "ensure (cr_position r) (cr_table r) (cr_chain r) (cr_rules r) w = (res, w1)" by force
  have pos: "cr_position r \<in> {Prepend, Append}" using Cons.prems(2) by simp
  note keep = ensure_keeps [OF Cons.prems(1) pos run Cons.prems(3)]
  have mem: "members w1 = members w" using ensure_members [OF Cons.prems(1)] run by (metis snd_conv)
  have in1: "sure \<longrightarrow> cr_rules r \<in> set (rules w1 ?k)"
    using ensure_sure [OF _ Cons.prems(1) pos] keep run by (metis fst_conv)
  have rest: "w' = ensure_rules ipt rs w1" using Cons.prems(4) run assms by simp
  have IH: "inv w' \<and> members w' = members w1 \<and> rules_outcome sure rs (rules w1) (rules w')"
    using Cons.IH [OF _ _ _ rest] keep Cons.prems(2) by simp
  note keep2 = conjunct2 [OF conjunct2 [OF keep]]
  note all = conjunct1 [OF keep2] conjunct2 [OF conjunct2 [OF keep2]]
  have sub: "set (rules w k) \<subseteq> set (rules w1 k)"
      "set (rules w1 k) \<subseteq> set (rules w k) \<union> (if k = ?k then {cr_rules r} else {})" for k
    using all [THEN spec, of k] by (simp, simp split: if_splits)
  have sub': "set (rules w1 k) \<subseteq> set (rules w' k)"
      "set (rules w' k) \<subseteq> set (rules w1 k) \<union> {cr_rules r | r. r \<in> set rs \<and> (cr_table r, cr_chain r) = k}" for k
    using IH by (simp_all add: rules_outcome_def)
  have "set (rules w k) \<subseteq> set (rules w' k) \<and>
      set (rules w' k) \<subseteq> set (rules w k) \<union> {cr_rules r' | r'. r' \<in> set (r # rs) \<and> (cr_table r', cr_chain r') = k}" for k
  proof -
    have "{cr_rules r' | r'. r' \<in> set (r # rs) \<and> (cr_table r', cr_chain r') = k} =
        (if k = ?k then {cr_rules r} else {}) \<union> {cr_rules r | r. r \<in> set rs \<and> (cr_table r, cr_chain r) = k}"
      by auto
    then show ?thesis using sub [of k] sub' [of k] by (simp only:) blast
  qed
  moreover have "sure \<longrightarrow> (\<forall>r \<in> set (r # rs). cr_rules r \<in> set (rules w' (cr_table r, cr_chain r)))"
    using in1 sub'(1) [of ?k] IH by (auto simp: rules_outcome_def)
  ultimately show ?case using IH mem by (simp add: rules_outcome_def)
qed

lemma prune_rules:
  "inv w \<Longrightarrow> members w ipsetName = Some M \<Longrightarrow> distinct es \<Longrightarrow> set es \<subseteq> M \<Longrightarrow>
   rules (snd (prune_entries ips es X w)) = rules w"
proof (induction es arbitrary: M X w)
  case (Cons e es)
  obtain err w1 where del: "DelEntry ips e ipsetName w = (err, w1)" by force
  have e: "e \<in> M" using Cons.prems(4) by simp
  note law = entry_del_law [OF Cons.prems(1,2) e del]
  have "rules w1 = rules w" using del_rules [OF Cons.prems(1), of e ipsetName] del by simp
  moreover have "rules (snd (prune_entries ips es X w1)) = rules w1"
    using Cons.IH [of w1 M] Cons.IH [of w1 "M - {e}"] law Cons.prems(2-4) by (cases err) auto
  ultimately show ?case using Cons.IH [OF Cons.prems(1,2)] Cons.prems(3,4) del by (simp split: option.split)
qed simp

lemma add_rules_list:
  "inv w \<Longrightarrow> members w (isName st) = Some M \<Longrightarrow> \<forall>e \<in> set es. entry_ok e \<Longrightarrow> rules (add_entries ips st es w) = rules w"
proof (induction es arbitrary: M w)
  case (Cons e es)
  obtain err w1 where add: "AddEntry ips e st True w = (err, w1)" by force
  have e: "entry_ok e" using Cons.prems(3) by simp
  note law = entry_add_law [OF Cons.prems(1) e Cons.prems(2) add]
  have "rules w1 = rules w" using add_rules [OF Cons.prems(1), of e st True] add by simp
  moreover have "rules (add_entries ips st es w1) = rules w1"
    using Cons.IH [of w1 M] Cons.IH [of w1 "insert e M"] law Cons.prems(2,3) by (cases err) auto
  ultimately show ?case using add by simp
qed simp

lemma build_outcome:
  assumes "iEnsureRule ipt = ensure" "inv w" "\<forall>k. distinct (rules w k)" "\<forall>e \<in> want_entries addr lbSvcs. entry_ok e"
    and "w' = buildIptables ipt ips rank addr (port_service_map lbSvcs) w"
  shows "inv w' \<and> rules_outcome sure constRules (rules w) (rules w') \<and> (\<forall>n. n \<noteq> ipsetName \<longrightarrow> members w' n = members w n) \<and>
    set_outcome sure (want_entries addr lbSvcs) (members w ipsetName) (members w' ipsetName)"
  supply split_paired_All [simp del]
proof -
  let ?W = "want_entries addr lbSvcs"
  define st where "st = \<lparr>isName = ipsetName, isSetType = HashIPPort, isHashFamily = [], isHashSize = 0, isMaxElem = 0,
                isPortRange = []\<rparr>"
  have nm: "ipsetName \<noteq> []" by (simp add: ipsetName_def)
  obtain err st' w1 where create: "CreateSet ips st True w = ((err, st'), w1)" by (metis prod.collapse)
  have st: "isSetType st = HashIPPort" "isName st \<noteq> []" "isHashFamily st = []" "isHashSize st = 0" "isMaxElem st = 0"
      "isPortRange st = []" "isName st = ipsetName"
    using nm by (simp_all add: st_def)
  note c = set_create_law [OF assms(2) st(1-6) create, unfolded st(7)]
  have r1: "rules w1 = rules w" using create_rules [OF assms(2), of st True] create by simp
  have cr: "rules_outcome sure constRules (rules w) (rules v)" if "rules v = rules w" "\<not> sure" for v
    using that assms(3) by (simp add: rules_outcome_def)
  show ?thesis
  proof (cases err)
    case (Some e)
    then have "w' = w1" using assms(5) create by (simp add: buildIptables_def st_def)
    then show ?thesis
      using c Some cr [OF r1] by (auto simp: set_outcome_def split: option.splits)
  next
    case None
    define M where "M = (case members w ipsetName of None \<Rightarrow> {} | Some M \<Rightarrow> M)"
    have m1: "inv w1" "members w1 = (members w)(ipsetName \<mapsto> M)" "isName st' = ipsetName" "isSetType st' = HashIPPort"
      using c None by (simp_all add: M_def)
    define w2 where "w2 = ensure_rules ipt constRules w1"
    have pos: "\<forall>r \<in> set constRules. cr_position r \<in> {Prepend, Append}" by (simp add: constRules_def)
    have d1: "\<forall>k. distinct (rules w1 k)" using assms(3) r1 by simp
    note e = ensure_rules_outcome [OF assms(1) m1(1) pos d1 w2_def]
    have rules2: "rules_outcome sure constRules (rules w) (rules w2)" using e r1 by (simp add: rules_outcome_def)
    have m2: "members w2 ipsetName = Some M" using e m1(2) by simp
    obtain lst w3 where list: "ListEntries ips ipsetName w2 = (lst, w3)" by force
    have inv2: "inv w2" using e by simp
    note l = set_list_law [OF inv2 m2 nm list]
    have r3: "rules w3 = rules w2" using list_rules [OF inv2, of ipsetName] list by simp
    show ?thesis
    proof (cases lst)
      case (Inl er)
      then have "w' = w3"
        using assms(5) create None list by (simp add: buildIptables_def st_def w2_def Let_def)
      moreover have "\<not> sure" using l Inl by auto
      ultimately show ?thesis
        using l e m1(2) rules2 r3
        by (auto simp: set_outcome_def rules_outcome_def M_def split: option.splits)
    next
      case (Inr es)
      define X where "X = expect_entries rank addr HashIPPort (port_service_map lbSvcs)"
      obtain X' w4 where prune: "prune_entries ips es X w3 = (X', w4)" by force
      have es: "distinct es" "set es = M" using l Inr by simp_all
      have gx: "gmap_ok X" unfolding X_def by (rule expect_entries_correct(1))
      have w': "w' = add_entries ips st' (sets_List X') w4"
        using assms(5) create None list Inr m1(4) prune
        by (simp add: buildIptables_def st_def [symmetric] w2_def [symmetric] X_def [symmetric] Let_def)
      have m3: "members w3 ipsetName = Some M" "inv w3" using l m2 by simp_all
      obtain M' where M': "inv w4" "members w4 = (members w3)(ipsetName \<mapsto> M')" "M' \<subseteq> M" "M - (set es - fst ` set X) \<subseteq> M'"
          "sure \<longrightarrow> M' = M - (set es - fst ` set X)" "gmap_ok X'" "fst ` set X' = fst ` set X - set es"
        using prune_result [OF m3(2,1) es(1) equalityD1 [OF es(2)] gx prune] by (elim exE conjE) (rule that)
      have keys: "fst ` set X = ?W" unfolding X_def by (rule expect_entries_correct(2))
      have new: "set (sets_List X') = ?W - M" using M'(7) keys es(2) by (simp add: sets_List_def)
      have ok: "\<forall>e \<in> set (sets_List X'). entry_ok e" unfolding new using assms(4) by blast
      have m4: "members w4 (isName st') = Some M'" using M'(2) m1(3) by simp
      obtain N where N: "inv w'" "members w' = (members w4)(ipsetName \<mapsto> N)" "M' \<subseteq> N" "N \<subseteq> M' \<union> (?W - M)"
          "sure \<longrightarrow> N = M' \<union> (?W - M)"
        using add_result [OF M'(1) m4 ok w'] unfolding new m1(3) by (elim exE conjE) (rule that)
      have bounds: "M \<inter> ?W \<subseteq> N" "N \<subseteq> M \<union> ?W" "sure \<longrightarrow> N = ?W"
        using N(3-5) M'(3-5) es(2) unfolding keys by auto
      have "rules w4 = rules w3" using prune_rules [OF m3(2,1) es(1), of X] es(2) prune by simp
      moreover have "rules w' = rules w4" unfolding w' by (rule add_rules_list [OF M'(1) m4 ok])
      ultimately have "rules_outcome sure constRules (rules w) (rules w')" using rules2 r3 by (simp add: rules_outcome_def)
      moreover have "members w' = (members w)(ipsetName \<mapsto> N)" using N(2) M'(2) l e m1(2) by simp
      ultimately show ?thesis
        using N(1) bounds by (auto simp: set_outcome_def M_def split: option.splits)
    qed
  qed
qed

end

lemma want_entries_ok:
  assumes "inputs_ok addr lbSvcs eps" "length (To4 addr) = 4"
  shows "\<forall>e \<in> want_entries addr lbSvcs. entry_ok e"
proof
  fix e assume "e \<in> want_entries addr lbSvcs"
  then obtain i port svc where e: "e = ipport_text (IP_String addr) (if i = 1 then ''udp'' else ''tcp'') (sint port)"
      and svc: "svc \<in> set lbSvcs" "serves svc i port"
    by (auto simp: want_entries_def)
  have "unat port < 65536" using assms(1) svc by (auto simp: inputs_ok_def serves_def)
  then have "sint port = int (unat port)" by (intro sint_small) simp
  then have range: "0 \<le> sint port \<and> sint port < 65536" using \<open>unat port < 65536\<close> by linarith
  obtain a b c d where "To4 addr = [a, b, c, d]"
    using assms(2) by (auto simp: length_Suc_conv eval_nat_numeral)
  then have ip: "IP_String addr = show_v4 [a, b, c, d]" using assms(2) by (auto simp: IP_String_def To4_def)
  show "entry_ok e"
    unfolding entry_ok_def e ip
    by (rule exI [of _ a], rule exI [of _ b], rule exI [of _ c], rule exI [of _ d],
        rule exI [of _ "if i = 1 then ''udp'' else ''tcp''"], rule exI [of _ "sint port"]) (use range in simp)
qed

end
