(* ===== verification/LvsSyncCorrect.thy ===== *)
theory LvsSyncCorrect
  imports LvsSyncSpec
begin

text \<open>
  Correctness of the two synchronising loops over any lvs interface that meets its contract.
  One proof covers both cases: \<open>sure\<close> says whether operations with satisfied preconditions are
  known to succeed. If they are, the table after the run is the intended one; if any of them
  may fail, the run never removes an intended server and never adds one that is not intended.
\<close>

subsection \<open>What a run may do to one entry of the table\<close>

definition outcome :: "bool \<Rightarrow> rs_id set option \<Rightarrow> rs_id set option \<Rightarrow> rs_id set option \<Rightarrow> bool" where
  "outcome sure wanted old new =
     (if sure then new = wanted
      else case wanted of
             None \<Rightarrow> new = None \<or> new = old
           | Some W \<Rightarrow>
               (case old of
                  None \<Rightarrow> (case new of None \<Rightarrow> True | Some N \<Rightarrow> N \<subseteq> W)
                | Some R \<Rightarrow> (case new of None \<Rightarrow> False | Some N \<Rightarrow> R \<inter> W \<subseteq> N \<and> N \<subseteq> R \<union> W)))"

lemma outcome_unchanged: "\<not> sure \<Longrightarrow> outcome sure w x x"
  by (auto simp: outcome_def split: option.splits)

subsection \<open>Maps of expected servers by identity\<close>

definition rs_id_text :: "rs_id \<Rightarrow> string" where
  "rs_id_text i = fst i @ '':'' @ Itoa (uint (snd i))"

definition rs_ids :: "rs_map \<Rightarrow> rs_id set" where
  "rs_ids m = (rs_key \<circ> snd) ` set m"

definition rs_map_ok :: "rs_map \<Rightarrow> bool" where
  "rs_map_ok m \<longleftrightarrow> gmap_ok m \<and> (\<forall>x \<in> set m. fst x = rs_id_text (rs_key (snd x)) \<and> rs_valid (snd x))"

lemma rs_id_text_inj: "rs_id_text a = rs_id_text b \<longleftrightarrow> a = b"
  by (cases a; cases b) (auto simp: rs_id_text_def append_sep_inj Itoa_no_sep dest!: Itoa_inj unsigned_word_eqI)

lemma rs_map_ok_keys: "rs_map_ok m \<Longrightarrow> fst ` set m = rs_id_text ` rs_ids m"
  by (force simp: rs_map_ok_def rs_ids_def)

lemma rs_map_ok_lookup: "rs_map_ok m \<Longrightarrow> map_of m (rs_id_text i) = None \<longleftrightarrow> i \<notin> rs_ids m"
  by (auto simp: map_of_eq_None_iff rs_map_ok_keys rs_id_text_inj)

lemma rs_map_ok_delete:
  assumes "rs_map_ok m"
  shows "rs_map_ok (AList.delete (rs_id_text i) m)" "rs_ids (AList.delete (rs_id_text i) m) = rs_ids m - {i}"
proof -
  have *: "set (AList.delete (rs_id_text i) m) = {x \<in> set m. rs_key (snd x) \<noteq> i}"
    using assms by (auto simp: AList.delete_eq rs_map_ok_def rs_id_text_inj)
  then show "rs_map_ok (AList.delete (rs_id_text i) m)"
    using assms by (simp add: rs_map_ok_def)
  show "rs_ids (AList.delete (rs_id_text i) m) = rs_ids m - {i}"
    by (auto simp: rs_ids_def *)
qed

lemma rs_map_ok_distinct: "rs_map_ok m \<Longrightarrow> distinct (map (rs_key \<circ> snd) (range_map f m))"
proof -
  assume ok: "rs_map_ok m"
  then have "map fst (range_map f m) = map rs_id_text (map (rs_key \<circ> snd) (range_map f m))"
    by (auto simp: rs_map_ok_def)
  moreover have "distinct (map fst (range_map f m))"
    using ok by (simp add: rs_map_ok_def)
  ultimately show ?thesis by (metis distinct_map)
qed

lemma rs_map_of_ok:
  assumes "rs_map_of m X"
    and X: "\<And>ip p. (ip, p) \<in> X \<Longrightarrow> ip_valid (ParseIP ip) \<and> IP_String (ParseIP ip) = ip \<and> p \<noteq> 0 \<and> unat p < 65536"
  shows "rs_map_ok m" "rs_ids m = backend_id ` X"
proof -
  have key: "rs_key (mk_rs b) = backend_id b" if "b \<in> X" for b
    using X [of "fst b" "snd b"] that by (simp add: rs_key_def mk_rs_def backend_id_def)
  have "rs_valid (mk_rs b) \<and> rs_text b = rs_id_text (rs_key (mk_rs b))" if "b \<in> X" for b
  proof -
    have v: "ip_valid (ParseIP (fst b))" "IP_String (ParseIP (fst b)) = fst b" "snd b \<noteq> 0" "unat (snd b) < 65536"
      using X [of "fst b" "snd b"] that by auto
    have "ucast (snd b) \<noteq> (0 :: u16)"
      using v(3) ucast_16_32 [OF v(4)] by (metis unsigned_0)
    then show ?thesis
      using v by (simp add: rs_valid_def mk_rs_def rs_text_def rs_id_text_def rs_key_def uint_ucast_16)
  qed
  then show "rs_map_ok m"
    using assms(1) by (auto simp: rs_map_of_def rs_map_ok_def)
  show "rs_ids m = backend_id ` X"
    using assms(1) key by (simp add: rs_map_of_def rs_ids_def image_image)
qed

subsection \<open>A client of the interface\<close>

locale lvs_client = lvs_contract +
  fixes sure :: bool
  assumes sure_list_vs: "sure \<Longrightarrow> inv s \<Longrightarrow> \<exists>vss. fst (GetVirtualServers L s) = Inr vss"
    and sure_add_vs: "sure \<Longrightarrow> inv s \<Longrightarrow> vs_valid vs \<Longrightarrow> vs_key vs \<notin> dom (tab s) \<Longrightarrow>
      fst (AddVirtualServer L (Some vs) s) = None"
    and sure_del_vs: "sure \<Longrightarrow> inv s \<Longrightarrow> vs_key vs \<in> dom (tab s) \<Longrightarrow>
      fst (DeleteVirtualServer L (Some vs) s) = None"
    and sure_list_rs: "sure \<Longrightarrow> inv s \<Longrightarrow> vs_key vs \<in> dom (tab s) \<Longrightarrow>
      \<exists>rss. fst (GetRealServers L (Some vs) s) = Inr rss"
    and sure_add_rs: "sure \<Longrightarrow> inv s \<Longrightarrow> rs_valid rs \<Longrightarrow> tab s (vs_key vs) = Some R \<Longrightarrow> rs_key rs \<notin> R \<Longrightarrow>
      fst (AddRealServer L (Some vs) (Some rs) s) = None"
    and sure_del_rs: "sure \<Longrightarrow> inv s \<Longrightarrow> tab s (vs_key vs) = Some R \<Longrightarrow> rs_key rs \<in> R \<Longrightarrow>
      fst (DeleteRealServer L (Some vs) (Some rs) s) = None"
begin

lemma addRS_loop_result:
  assumes "inv s" "tab s (vs_key vs) = Some R" "distinct (map (rs_key \<circ> snd) l)"
    and "(rs_key \<circ> snd) ` set l \<inter> R = {}" "\<And>x. x \<in> set l \<Longrightarrow> rs_valid (snd x)"
  shows "\<exists>R'. inv (addRS_loop L vs l s) \<and> tab (addRS_loop L vs l s) = (tab s)(vs_key vs \<mapsto> R') \<and>
    R \<subseteq> R' \<and> R' \<subseteq> R \<union> (rs_key \<circ> snd) ` set l \<and> (sure \<longrightarrow> R' = R \<union> (rs_key \<circ> snd) ` set l)"
  using assms
proof (induction l arbitrary: s R)
  case Nil
  then show ?case by (auto intro!: exI [of _ R] simp: fun_upd_idem)
next
  case (Cons x l)
  obtain str rs where x: "x = (str, rs)" by force
  obtain e s1 where op: "AddRealServer L (Some vs) (Some rs) s = (e, s1)" by force
  define R1 where "R1 = (if e = None then insert (rs_key rs) R else R)"
  have law: "inv s1 \<and> tab s1 = (tab s)(vs_key vs \<mapsto> R1)"
    using add_rs [OF Cons.prems(1,2) _ op] Cons.prems(2,4) x by (auto simp: R1_def fun_upd_idem)
  have v: "rs_valid rs" using Cons.prems(5) [of x] x by simp
  have ok: "sure \<longrightarrow> R1 = insert (rs_key rs) R"
    using sure_add_rs [OF _ Cons.prems(1) v Cons.prems(2)] Cons.prems(4) x op
    by (auto simp: R1_def)
  have "\<exists>R'. inv (addRS_loop L vs l s1) \<and> tab (addRS_loop L vs l s1) = (tab s1)(vs_key vs \<mapsto> R') \<and>
      R1 \<subseteq> R' \<and> R' \<subseteq> R1 \<union> (rs_key \<circ> snd) ` set l \<and> (sure \<longrightarrow> R' = R1 \<union> (rs_key \<circ> snd) ` set l)"
    using law Cons.prems(3,4,5) x by (intro Cons.IH) (auto simp: R1_def)
  then obtain R' where "inv (addRS_loop L vs l s1)" "tab (addRS_loop L vs l s1) = (tab s)(vs_key vs \<mapsto> R')"
      "R1 \<subseteq> R'" "R' \<subseteq> R1 \<union> (rs_key \<circ> snd) ` set l" "sure \<longrightarrow> R' = R1 \<union> (rs_key \<circ> snd) ` set l"
    using law by auto
  then show ?case
    using ok x op by (intro exI [of _ R']) (auto simp: R1_def split: if_splits)
qed

lemma addRealServers_result:
  assumes "inv s" "tab s (vs_key vs) = Some R" "rs_map_ok m" "rs_ids m \<inter> R = {}"
  shows "\<exists>R'. inv (addRealServers L ord vs m s) \<and> tab (addRealServers L ord vs m s) = (tab s)(vs_key vs \<mapsto> R') \<and>
    R \<subseteq> R' \<and> R' \<subseteq> R \<union> rs_ids m \<and> (sure \<longrightarrow> R' = R \<union> rs_ids m)"
  using addRS_loop_result [OF assms(1,2) rs_map_ok_distinct [OF assms(3)], of "rank_rs ord vs"] assms(3,4)
  by (auto simp: addRealServers_def rs_ids_def rs_map_ok_def)

lemma prune_RSs_result:
  assumes "inv s" "tab s (vs_key vs) = Some R" "distinct (map rs_key rss)" "rs_key ` set rss \<subseteq> R" "rs_map_ok m"
    and "prune_RSs L vs rss m s = (m', s')"
  shows "inv s' \<and> rs_map_ok m' \<and> rs_ids m' = rs_ids m - rs_key ` set rss \<and>
    (\<exists>R'. tab s' = (tab s)(vs_key vs \<mapsto> R') \<and> R - (rs_key ` set rss - rs_ids m) \<subseteq> R' \<and> R' \<subseteq> R \<and>
       (sure \<longrightarrow> R' = R - (rs_key ` set rss - rs_ids m)))"
  using assms
proof (induction rss arbitrary: s R m)
  case Nil
  then show ?case by (auto intro!: exI [of _ R] simp: fun_upd_idem)
next
  case (Cons rs rss)
  have d: "distinct (map rs_key rss)" and sub: "rs_key ` set rss \<subseteq> R" using Cons.prems(3,4) by auto
  have rstr: "IP_String (rsAddress rs) @ '':'' @ Itoa (uint (rsPort rs)) = rs_id_text (rs_key rs)"
    by (simp add: rs_id_text_def rs_key_def)
  show ?case
  proof (cases "rs_key rs \<in> rs_ids m")
    case True
    define m1 where "m1 = AList.delete (rs_id_text (rs_key rs)) m"
    have m1: "rs_map_ok m1" "rs_ids m1 = rs_ids m - {rs_key rs}"
      using rs_map_ok_delete [OF Cons.prems(5)] by (auto simp: m1_def)
    have "prune_RSs L vs rss m1 s = (m', s')"
      using Cons.prems(6) True rs_map_ok_lookup [OF Cons.prems(5)] rstr by (simp add: m1_def Let_def)
    from Cons.IH [OF Cons.prems(1,2) d sub m1(1) this] obtain R' where
      "inv s'" "rs_map_ok m'" "rs_ids m' = rs_ids m1 - rs_key ` set rss"
      "tab s' = (tab s)(vs_key vs \<mapsto> R')" "R - (rs_key ` set rss - rs_ids m1) \<subseteq> R'" "R' \<subseteq> R"
      "sure \<longrightarrow> R' = R - (rs_key ` set rss - rs_ids m1)" by blast
    moreover have "rs_key ` set (rs # rss) - rs_ids m = rs_key ` set rss - rs_ids m1"
      using True m1(2) Cons.prems(3) by auto
    ultimately show ?thesis using m1(2) by auto
  next
    case False
    obtain e s1 where op: "DeleteRealServer L (Some vs) (Some rs) s = (e, s1)" by force
    define R1 where "R1 = (if e = None then R - {rs_key rs} else R)"
    have law: "inv s1" "tab s1 = (tab s)(vs_key vs \<mapsto> R1)"
      using del_rs [OF Cons.prems(1,2) _ op] Cons.prems(2,4) by (auto simp: R1_def fun_upd_idem)
    have ok: "sure \<longrightarrow> R1 = R - {rs_key rs}"
      using sure_del_rs [OF _ Cons.prems(1,2), of rs] Cons.prems(4) op by (auto simp: R1_def)
    have run: "prune_RSs L vs rss m s1 = (m', s')"
      using Cons.prems(6) False rs_map_ok_lookup [OF Cons.prems(5)] rstr op by (simp add: Let_def)
    have sub1: "rs_key ` set rss \<subseteq> R1" using Cons.prems(3,4) by (auto simp: R1_def)
    have "tab s1 (vs_key vs) = Some R1" using law(2) by simp
    from Cons.IH [OF law(1) this d sub1 Cons.prems(5) run] obtain R' where
      "inv s'" "rs_map_ok m'" "rs_ids m' = rs_ids m - rs_key ` set rss"
      "tab s' = (tab s1)(vs_key vs \<mapsto> R')" "R1 - (rs_key ` set rss - rs_ids m) \<subseteq> R'" "R' \<subseteq> R1"
      "sure \<longrightarrow> R' = R1 - (rs_key ` set rss - rs_ids m)" by blast
    moreover from this(4) have "tab s' = (tab s)(vs_key vs \<mapsto> R')" using law(2) by simp
    ultimately show ?thesis
      using False ok by (intro conjI exI [of _ R']) (auto simp: R1_def split: if_splits)
  qed
qed

end

end
