(* ===== verification/LvsSyncLoops.thy ===== *)
theory LvsSyncLoops
  imports LvsSyncCorrect
begin

text \<open>
  The outer loops of \<open>Build\<close>: over the existing virtual servers and over the ports left in
  \<open>portServiceMap\<close>. The result is \<open>sync_lvs_outcome\<close>: each entry of the table ends as
  \<open>outcome\<close> allows.
\<close>

definition pidx :: "VirtualServer \<Rightarrow> nat" where
  "pidx vs = (if vsProtocol vs = ''UDP'' then 1 else 0)"

definition eps_map :: "Service list \<Rightarrow> Endpoints list \<Rightarrow> endpoints_map" where
  "eps_map lbSvcs eps = fold epm_add eps (fold epm_init lbSvcs [])"

lemma find_mem: "find P xs = Some x \<Longrightarrow> x \<in> set xs"
  by (induction xs) (auto split: if_splits)

lemma pidx_less [simp]: "pidx vs < 2"
  by (simp add: pidx_def)

lemma proto_index_known: "known_proto vs \<Longrightarrow> proto_index (stringToProtocolNumber (vsProtocol vs)) = pidx vs"
  by (auto simp: known_proto_def proto_index_def pidx_def)

lemma want_vs_key:
  assumes "known_proto vs"
  shows "want addr lbSvcs eps (vs_key vs) =
    (if IP_Equal (vsAddress vs) addr \<and> map_of (port_service_map lbSvcs ! pidx vs) (ucast (vsPort vs)) \<noteq> None
     then Some (backend_id ` backends lbSvcs eps (pidx vs) (ucast (vsPort vs))) else None)"
proof -
  have "stringToProtocolNumber (vsProtocol vs) = IPPROTO_TCP \<or> stringToProtocolNumber (vsProtocol vs) = IPPROTO_UDP"
    using assms by (auto simp: known_proto_def)
  then show ?thesis
    unfolding want_def vs_key_def
    by (simp add: proto_index_known [OF assms] port_service_map_lookup(1) IP_Equal_canon)
qed

text \<open>Under valid inputs the map of expected servers holds exactly the backends of the port.\<close>

lemma getExpectRSs_ok:
  assumes "inputs_ok addr lbSvcs eps" "i < 2"
    and "map_of (port_service_map lbSvcs ! i) (ucast (vsPort vs)) = Some svcs"
  shows "rs_map_ok (getExpectRSs svcs (eps_map lbSvcs eps) vs)"
    and "rs_ids (getExpectRSs svcs (eps_map lbSvcs eps) vs) = backend_id ` backends lbSvcs eps i (ucast (vsPort vs))"
proof -
  let ?p = "ucast (vsPort vs) :: int32"
  have svcs: "set svcs = {svc \<in> set lbSvcs. serves svc i ?p}"
    using port_service_map_lookup(2) [OF assms(2,3)] .
  have "rs_map_of (getExpectRSs svcs (eps_map lbSvcs eps) vs) (\<Union>svc \<in> set svcs. svc_backends eps ?p svc)"
    using svcs by (intro getExpectRSs_backends) (auto simp: eps_map_def intro!: endpoints_map_correct)
  then have of: "rs_map_of (getExpectRSs svcs (eps_map lbSvcs eps) vs) (backends lbSvcs eps i ?p)"
    by (simp add: backends_def svcs)
  have valid: "ip_valid (ParseIP ip) \<and> IP_String (ParseIP ip) = ip \<and> p \<noteq> 0 \<and> unat p < 65536"
    if "(ip, p) \<in> backends lbSvcs eps i ?p" for ip p
  proof -
    from that obtain e ss q where "e \<in> set eps" "ss \<in> set (epsSubsets e)" "q \<in> set (essPorts ss)"
        "p = epPort q" "p \<noteq> 0" "ip \<in> set (essAddresses ss)"
      by (auto simp: backends_def svc_backends_def endpoints_of_def dest!: find_mem)
    then show ?thesis using assms(1) by (auto simp: inputs_ok_def)
  qed
  show "rs_map_ok (getExpectRSs svcs (eps_map lbSvcs eps) vs)"
    by (rule rs_map_of_ok(1) [OF of valid])
  show "rs_ids (getExpectRSs svcs (eps_map lbSvcs eps) vs) = backend_id ` backends lbSvcs eps i ?p"
    by (rule rs_map_of_ok(2) [OF of valid])
qed

definition drop_port :: "IP \<Rightarrow> VirtualServer \<Rightarrow> port_services list \<Rightarrow> port_services list" where
  "drop_port addr vs psm =
     (if IP_Equal (vsAddress vs) addr
      then psm[pidx vs := AList.delete (ucast (vsPort vs)) (psm ! pidx vs)] else psm)"

lemma length_drop_port [simp]: "length (drop_port addr vs psm) = length psm"
  by (simp add: drop_port_def)

lemma drop_port_lookup:
  assumes "length psm = 2" "i < 2"
  shows "map_of (drop_port addr vs psm ! i) port =
    (if IP_Equal (vsAddress vs) addr \<and> i = pidx vs \<and> port = ucast (vsPort vs) then None else map_of (psm ! i) port)"
  using assms by (auto simp: drop_port_def nth_list_update delete_conv')

lemma vs_key_eq_iff:
  assumes "known_proto vs" "known_proto vs'"
  shows "vs_key vs = vs_key vs' \<longleftrightarrow>
    IP_Equal (vsAddress vs) (vsAddress vs') \<and> pidx vs = pidx vs' \<and> vsPort vs = vsPort vs'"
  using assms by (auto simp: vs_key_def IP_Equal_canon known_proto_number pidx_def split: if_splits)

lemma ucast_port_inj: "(ucast (p :: u16) :: int32) = ucast q \<Longrightarrow> p = q"
  by (metis ucast_32_16)

lemma new_vs_port:
  assumes "inputs_ok addr lbSvcs eps" "i < 2" "map_of (port_service_map lbSvcs ! i) port = Some svcs"
  shows "vs_valid (new_vs addr i port)" "pidx (new_vs addr i port) = i"
    "ucast (vsPort (new_vs addr i port)) = port" "vsAddress (new_vs addr i port) = addr"
proof -
  have "map_of (port_service_map lbSvcs ! i) port \<noteq> None" using assms(3) by simp
  then obtain svc where "svc \<in> set lbSvcs" "serves svc i port"
    using port_service_map_lookup(1) [OF assms(2), of lbSvcs port] by auto
  then have "port \<noteq> 0" "unat port < 65536" "ip_valid addr"
    using assms(1) by (auto simp: inputs_ok_def serves_def)
  moreover from this have "ucast (ucast port :: u16) = port" by (intro ucast_16_32)
  moreover have "ucast port \<noteq> (0 :: u16)" using calculation by (metis unsigned_0)
  ultimately show "vs_valid (new_vs addr i port)" "pidx (new_vs addr i port) = i"
    "ucast (vsPort (new_vs addr i port)) = port" "vsAddress (new_vs addr i port) = addr"
    using assms(2) by (auto simp: new_vs_def vs_valid_def known_proto_def pidx_def)
qed

context lvs_client
begin

lemma sync_vs_result:
  assumes ok: "inputs_ok addr lbSvcs eps" and "inv s" "known_proto vs" and R: "tab s (vs_key vs) = Some R"
    and psm: "length psm = 2"
      "IP_Equal (vsAddress vs) addr \<Longrightarrow> map_of (psm ! pidx vs) (ucast (vsPort vs)) =
         map_of (port_service_map lbSvcs ! pidx vs) (ucast (vsPort vs))"
    and run: "sync_vs L ord addr (eps_map lbSvcs eps) vs (psm, s) = (psm', s')"
  shows "inv s' \<and> psm' = drop_port addr vs psm \<and>
    (\<exists>x. tab s' = (tab s)(vs_key vs := x) \<and> outcome sure (want addr lbSvcs eps (vs_key vs)) (Some R) x)"
proof (cases "IP_Equal (vsAddress vs) addr \<and> map_of (psm ! pidx vs) (ucast (vsPort vs)) \<noteq> None")
  case False
  obtain e where op: "DeleteVirtualServer L (Some vs) s = (e, s')" and "psm' = psm"
    using run False by (cases "DeleteVirtualServer L (Some vs) s")
      (auto simp: sync_vs_def Let_def pidx_def split: if_splits option.splits)
  moreover have "drop_port addr vs psm = psm"
    using False by (auto simp: drop_port_def map_of_eq_None_iff)
  moreover have "want addr lbSvcs eps (vs_key vs) = None"
    using False psm(2) by (auto simp: want_vs_key [OF assms(3)])
  moreover have "inv s' \<and> tab s' = (if e = None then (tab s)(vs_key vs := None) else tab s)"
    using del_vs [OF assms(2) _ op] R by blast
  moreover have "sure \<longrightarrow> e = None"
    using sure_del_vs [OF _ assms(2), of vs] R op by (auto simp: domI)
  ultimately show ?thesis
    using R by (auto simp: outcome_def intro!: exI [of _ "if e = None then None else Some R"])
next
  case True
  then obtain svcs where svcs: "map_of (psm ! pidx vs) (ucast (vsPort vs)) = Some svcs" by auto
  let ?E = "getExpectRSs svcs (eps_map lbSvcs eps) vs"
  let ?W = "backend_id ` backends lbSvcs eps (pidx vs) (ucast (vsPort vs))"
  have svcs0: "map_of (port_service_map lbSvcs ! pidx vs) (ucast (vsPort vs)) = Some svcs"
    using svcs psm(2) True by simp
  note E = getExpectRSs_ok [OF ok pidx_less svcs0]
  have W: "want addr lbSvcs eps (vs_key vs) = Some ?W"
    using True svcs0 by (simp add: want_vs_key [OF assms(3)])
  obtain q s1 where op: "GetRealServers L (Some vs) s = (q, s1)" by force
  note law = list_rs [OF assms(2) R op]
  show ?thesis
  proof (cases q)
    case (Inl err)
    then have "\<not> sure" using sure_list_rs [OF _ assms(2), of vs] R op by (auto simp: domI)
    moreover have "s' = s1" "psm' = drop_port addr vs psm"
      using run True svcs op Inl by (auto simp: sync_vs_def drop_port_def pidx_def Let_def)
    ultimately show ?thesis
      using law R by (auto simp: outcome_unchanged intro!: exI [of _ "Some R"])
  next
    case (Inr rss)
    obtain m s2 where prune: "prune_RSs L vs rss ?E s1 = (m, s2)" by force
    have s1: "inv s1" "tab s1 (vs_key vs) = Some R" "distinct (map rs_key rss)" "rs_key ` set rss = R"
      using law Inr R by auto
    from prune_RSs_result [OF s1(1-3) _ E(1) prune] s1(4) obtain R1 where
      R1: "inv s2" "rs_map_ok m" "rs_ids m = ?W - R" "tab s2 = (tab s1)(vs_key vs \<mapsto> R1)"
        "R - (R - ?W) \<subseteq> R1" "R1 \<subseteq> R" "sure \<longrightarrow> R1 = R - (R - ?W)"
      unfolding E(2) by auto
    have disj: "rs_ids m \<inter> R1 = {}" using R1(3,6) by auto
    have "tab s2 (vs_key vs) = Some R1" using R1(4) by simp
    from addRealServers_result [OF R1(1) this R1(2) disj, of ord] obtain R2 where
      R2: "inv (addRealServers L ord vs m s2)" "tab (addRealServers L ord vs m s2) = (tab s2)(vs_key vs \<mapsto> R2)"
        "R1 \<subseteq> R2" "R2 \<subseteq> R1 \<union> rs_ids m" "sure \<longrightarrow> R2 = R1 \<union> rs_ids m" by blast
    have "s' = addRealServers L ord vs m s2" "psm' = drop_port addr vs psm"
      using run True svcs op Inr prune by (auto simp: sync_vs_def drop_port_def pidx_def Let_def)
    moreover have "outcome sure (Some ?W) (Some R) (Some R2)"
      using R1 R2 by (auto simp: outcome_def)
    ultimately show ?thesis
      using R2(1,2) R1(4) law W by (auto intro!: exI [of _ "Some R2"])
  qed
qed

lemma sync_vss_result:
  assumes ok: "inputs_ok addr lbSvcs eps"
    and "inv s" "distinct (map vs_key vss)" "vs_key ` set vss \<subseteq> dom (tab s)" "list_all known_proto vss"
    and "length psm = 2"
    and "\<And>vs. vs \<in> set vss \<Longrightarrow> IP_Equal (vsAddress vs) addr \<Longrightarrow>
       map_of (psm ! pidx vs) (ucast (vsPort vs)) = map_of (port_service_map lbSvcs ! pidx vs) (ucast (vsPort vs))"
    and "fold (sync_vs L ord addr (eps_map lbSvcs eps)) vss (psm, s) = (psm', s')"
  shows "inv s' \<and> psm' = fold (drop_port addr) vss psm \<and>
    (\<forall>k. k \<notin> vs_key ` set vss \<longrightarrow> tab s' k = tab s k) \<and>
    (\<forall>k \<in> vs_key ` set vss. outcome sure (want addr lbSvcs eps k) (tab s k) (tab s' k))"
  using assms(2-)
proof (induction vss arbitrary: psm s)
  case Nil
  then show ?case by simp
next
  case (Cons vs vss)
  obtain R where R: "tab s (vs_key vs) = Some R" using Cons.prems(3) by auto
  obtain psm1 s1 where step: "sync_vs L ord addr (eps_map lbSvcs eps) vs (psm, s) = (psm1, s1)" by force
  have kp: "known_proto vs" "list_all known_proto vss" using Cons.prems(4) by auto
  from sync_vs_result [OF ok Cons.prems(1) kp(1) R Cons.prems(5) _ step] Cons.prems(6) [of vs]
  obtain x where s1: "inv s1" "psm1 = drop_port addr vs psm" "tab s1 = (tab s)(vs_key vs := x)"
    "outcome sure (want addr lbSvcs eps (vs_key vs)) (Some R) x" by auto
  have fresh: "vs_key vs \<notin> vs_key ` set vss" "distinct (map vs_key vss)" using Cons.prems(2) by auto
  have look: "map_of (psm1 ! pidx v) (ucast (vsPort v)) =
      map_of (port_service_map lbSvcs ! pidx v) (ucast (vsPort v))"
    if v: "v \<in> set vss" "IP_Equal (vsAddress v) addr" for v
  proof -
    have "vs_key v \<noteq> vs_key vs" using fresh(1) v(1) by (metis imageI)
    then have "\<not> (IP_Equal (vsAddress vs) addr \<and> pidx v = pidx vs \<and> (ucast (vsPort v) :: int32) = ucast (vsPort vs))"
      using v kp by (auto simp: vs_key_eq_iff list_all_iff IP_Equal_canon dest: ucast_port_inj)
    then show ?thesis
      using Cons.prems(6) [of v] v by (auto simp: s1(2) drop_port_lookup [OF Cons.prems(5)])
  qed
  have dom: "vs_key ` set vss \<subseteq> dom (tab s1)" using Cons.prems(3) s1(3) fresh by auto
  have rest: "fold (sync_vs L ord addr (eps_map lbSvcs eps)) vss (psm1, s1) = (psm', s')"
    using Cons.prems(7) step by simp
  have len: "length psm1 = 2" using s1(2) Cons.prems(5) by simp
  from Cons.IH [OF s1(1) fresh(2) dom kp(2) len look rest]
  have IH: "inv s'" "psm' = fold (drop_port addr) vss psm1" "\<forall>k. k \<notin> vs_key ` set vss \<longrightarrow> tab s' k = tab s1 k"
    "\<forall>k \<in> vs_key ` set vss. outcome sure (want addr lbSvcs eps k) (tab s1 k) (tab s' k)" by auto
  have old: "tab s1 k = (if k = vs_key vs then x else tab s k)" for k using s1(3) by simp
  have "outcome sure (want addr lbSvcs eps k) (tab s k) (tab s' k)" if "k \<in> vs_key ` set (vs # vss)" for k
  proof (cases "k = vs_key vs")
    case True
    then have "tab s' k = x" using IH(3) [rule_format, OF fresh(1)] old by simp
    then show ?thesis using True s1(4) R by simp
  next
    case False
    then have "k \<in> vs_key ` set vss" using that by auto
    then show ?thesis using IH(4) old [of k] False by auto
  qed
  moreover have "tab s' k = tab s k" if "k \<notin> vs_key ` set (vs # vss)" for k
    using that IH(3) [rule_format, of k] old [of k] by auto
  ultimately show ?case using IH(1,2) s1(2) by auto
qed

lemma create_one_result:
  assumes ok: "inputs_ok addr lbSvcs eps" "i < 2" "map_of (port_service_map lbSvcs ! i) port = Some svcs"
    and "inv s" and fresh: "vs_key (new_vs addr i port) \<notin> dom (tab s)"
    and op: "AddVirtualServer L (Some (new_vs addr i port)) s = (e, s1)"
    and s2: "s2 = (if e = None then addRealServers L ord (new_vs addr i port)
        (getExpectRSs svcs (eps_map lbSvcs eps) (new_vs addr i port)) s1 else s1)"
  shows "inv s2 \<and> (\<exists>x. tab s2 = (tab s)(vs_key (new_vs addr i port) := x) \<and>
    outcome sure (want addr lbSvcs eps (vs_key (new_vs addr i port))) None x)"
proof -
  let ?vs = "new_vs addr i port"
  note nv = new_vs_port [OF ok]
  have kp: "known_proto ?vs" using nv(1) by (simp add: vs_valid_def)
  note law = add_vs [OF assms(4) kp op]
  have W: "want addr lbSvcs eps (vs_key ?vs) = Some (backend_id ` backends lbSvcs eps i port)"
    unfolding want_vs_key [OF kp] nv(2,3,4) using ok(3) by (simp add: IP_Equal_canon)
  have sure_ok: "sure \<Longrightarrow> e = None" using sure_add_vs [OF _ assms(4) nv(1) fresh] op by simp
  show ?thesis
  proof (cases e)
    case None
    have s1: "inv s1" "tab s1 = (tab s)(vs_key ?vs \<mapsto> {})" using law None by auto
    have lk: "map_of (port_service_map lbSvcs ! i) (ucast (vsPort ?vs)) = Some svcs" using ok(3) nv(3) by simp
    note E = getExpectRSs_ok [OF ok(1,2) lk]
    have "tab s1 (vs_key ?vs) = Some {}" using s1(2) by simp
    from addRealServers_result [OF s1(1) this E(1), of ord] obtain R where
      "inv s2" "tab s2 = (tab s1)(vs_key ?vs \<mapsto> R)" "R \<subseteq> backend_id ` backends lbSvcs eps i port"
      "sure \<longrightarrow> R = backend_id ` backends lbSvcs eps i port"
      unfolding E(2) nv(3) using s2 None by auto
    then show ?thesis using W s1(2) by (auto simp: outcome_def intro!: exI [of _ "Some R"])
  next
    case (Some err)
    then show ?thesis
      using law s2 sure_ok fresh by (auto simp: fun_upd_idem intro!: exI [of _ None] outcome_unchanged)
  qed
qed

lemma create_loop_result:
  assumes ok: "inputs_ok addr lbSvcs eps" and "i < 2"
    and "inv s" "distinct (map fst l)"
    and "\<And>port svcs. (port, svcs) \<in> set l \<Longrightarrow> map_of (port_service_map lbSvcs ! i) port = Some svcs \<and>
       vs_key (new_vs addr i port) \<notin> dom (tab s)"
  shows "inv (create_loop L ord addr (eps_map lbSvcs eps) i l s) \<and>
    (\<forall>k. k \<notin> (\<lambda>x. vs_key (new_vs addr i (fst x))) ` set l \<longrightarrow>
       tab (create_loop L ord addr (eps_map lbSvcs eps) i l s) k = tab s k) \<and>
    (\<forall>k \<in> (\<lambda>x. vs_key (new_vs addr i (fst x))) ` set l.
       outcome sure (want addr lbSvcs eps k) None (tab (create_loop L ord addr (eps_map lbSvcs eps) i l s) k))"
  using assms(3-)
proof (induction l arbitrary: s)
  case Nil
  then show ?case by simp
next
  case (Cons x l)
  obtain port svcs where x: "x = (port, svcs)" by force
  let ?key = "\<lambda>p. vs_key (new_vs addr i p)" and ?C = "create_loop L ord addr (eps_map lbSvcs eps) i"
  obtain e s1 where op: "AddVirtualServer L (Some (new_vs addr i port)) s = (e, s1)" by force
  define s2 where "s2 = (if e = None then addRealServers L ord (new_vs addr i port)
        (getExpectRSs svcs (eps_map lbSvcs eps) (new_vs addr i port)) s1 else s1)"
  have run: "?C (x # l) s = ?C l s2"
    using op by (cases e) (simp_all add: s2_def x Let_def)
  have mo: "map_of (port_service_map lbSvcs ! i) port = Some svcs" "?key port \<notin> dom (tab s)"
    using Cons.prems(3) [of port svcs] x by auto
  from create_one_result [OF ok assms(2) mo(1) Cons.prems(1) mo(2) op s2_def] obtain y where
    s2: "inv s2" "tab s2 = (tab s)(?key port := y)" "outcome sure (want addr lbSvcs eps (?key port)) None y"
    by auto
  have inj: "?key p \<noteq> ?key port" if "(p, v) \<in> set l" for p v
  proof -
    have "p \<noteq> port" using Cons.prems(2) that x by (auto simp: rev_image_eqI)
    moreover have "map_of (port_service_map lbSvcs ! i) p = Some v" using Cons.prems(3) that by auto
    ultimately show ?thesis
      using new_vs_port(3) [OF ok assms(2)] mo(1) by (metis vs_key_def prod.inject)
  qed
  have later: "map_of (port_service_map lbSvcs ! i) p = Some v \<and> ?key p \<notin> dom (tab s)" if "(p, v) \<in> set l" for p v
    using Cons.prems(3) [of p v] that by simp
  have "inv (?C l s2) \<and> (\<forall>k. k \<notin> (\<lambda>x. ?key (fst x)) ` set l \<longrightarrow> tab (?C l s2) k = tab s2 k) \<and>
    (\<forall>k \<in> (\<lambda>x. ?key (fst x)) ` set l. outcome sure (want addr lbSvcs eps k) None (tab (?C l s2) k))"
    using Cons.prems(2) s2(1) later by (intro Cons.IH) (auto simp: s2(2) inj domIff)
  moreover have "?key port \<notin> (\<lambda>x. ?key (fst x)) ` set l" using inj by force
  ultimately show ?case
    unfolding run using s2 by (auto simp: x simp del: split_paired_All)
qed

end

end
