(* ===== verification/LvsConverge.thy ===== *)
theory LvsConverge
  imports LvsSyncLoops
begin

text \<open>
  The whole of the lvs part of \<open>Build\<close>, \<open>sync_lvs\<close>: what one run does to each entry of the
  table of virtual servers.
\<close>

lemma fold_drop_port:
  assumes "length psm = 2" "i < 2"
  shows "map_of (fold (drop_port addr) vss psm ! i) port =
    (if \<exists>vs \<in> set vss. IP_Equal (vsAddress vs) addr \<and> i = pidx vs \<and> port = ucast (vsPort vs)
     then None else map_of (psm ! i) port)"
    and "length (fold (drop_port addr) vss psm) = 2"
  using assms by (induction vss arbitrary: psm) (auto simp: drop_port_lookup)

lemma fold_drop_port_ok:
  "length psm = 2 \<Longrightarrow> i < 2 \<Longrightarrow> gmap_ok (psm ! i) \<Longrightarrow> gmap_ok (fold (drop_port addr) vss psm ! i)"
proof (induction vss arbitrary: psm)
  case (Cons vs vss)
  have "gmap_ok (drop_port addr vs psm ! i)"
    using Cons.prems by (auto simp: drop_port_def nth_list_update)
  then show ?case using Cons.IH [of "drop_port addr vs psm"] Cons.prems by simp
qed simp

definition to_create :: "IP \<Rightarrow> port_services list \<Rightarrow> vs_id set" where
  "to_create addr psm = {vs_key (new_vs addr i port) | i port. i < 2 \<and> map_of (psm ! i) port \<noteq> None}"

lemma range_map_mem: "gmap_ok m \<Longrightarrow> (k, v) \<in> set (range_map f m) \<longleftrightarrow> map_of m k = Some v"
  by (simp add: set_map_of)

lemma to_create_split:
  assumes "gmap_ok (psm ! 0)" "gmap_ok (psm ! 1)"
  shows "to_create addr psm = (\<lambda>x. vs_key (new_vs addr 0 (fst x))) ` set (range_map f (psm ! 0)) \<union>
    (\<lambda>x. vs_key (new_vs addr 1 (fst x))) ` set (range_map g (psm ! 1))"
  using assms by (force simp: to_create_def less_2_cases_iff set_map_of image_iff)

lemma new_vs_index: "vs_key (new_vs addr 0 p) \<noteq> vs_key (new_vs addr 1 q)"
  by (simp add: vs_key_def new_vs_def)

context lvs_client
begin

lemma create_vss_result:
  assumes ok: "inputs_ok addr lbSvcs eps" and "inv s" and len: "length psm = 2"
    and maps: "\<And>i. i < 2 \<Longrightarrow> gmap_ok (psm ! i)"
    and look: "\<And>i port svcs. i < 2 \<Longrightarrow> map_of (psm ! i) port = Some svcs \<Longrightarrow>
       map_of (port_service_map lbSvcs ! i) port = Some svcs \<and> vs_key (new_vs addr i port) \<notin> dom (tab s)"
  shows "inv (create_vss L ord addr (eps_map lbSvcs eps) psm s) \<and>
    (\<forall>k. if k \<in> to_create addr psm
         then outcome sure (want addr lbSvcs eps k) None (tab (create_vss L ord addr (eps_map lbSvcs eps) psm s) k)
         else tab (create_vss L ord addr (eps_map lbSvcs eps) psm s) k = tab s k)"
proof -
  let ?l = "\<lambda>i. range_map (rank_port ord i) (psm ! i)"
  let ?C = "\<lambda>i. create_loop L ord addr (eps_map lbSvcs eps) i (?l i)"
  let ?K = "\<lambda>i. (\<lambda>x. vs_key (new_vs addr i (fst x))) ` set (?l i)"
  have g: "gmap_ok (psm ! 0)" "gmap_ok (psm ! 1)" using maps by auto
  have run: "create_vss L ord addr (eps_map lbSvcs eps) psm s = ?C 1 (?C 0 s)"
    by (simp add: create_vss_def len numeral_2_eq_2)
  have "inv (?C 0 s) \<and> (\<forall>k. k \<notin> ?K 0 \<longrightarrow> tab (?C 0 s) k = tab s k) \<and>
      (\<forall>k \<in> ?K 0. outcome sure (want addr lbSvcs eps k) None (tab (?C 0 s) k))"
    using g look [of 0] by (intro create_loop_result [OF ok _ assms(2)]) (simp_all add: range_map_mem del: set_range_map)
  then have A: "inv (?C 0 s)" "\<And>k. k \<notin> ?K 0 \<Longrightarrow> tab (?C 0 s) k = tab s k"
      "\<And>k. k \<in> ?K 0 \<Longrightarrow> outcome sure (want addr lbSvcs eps k) None (tab (?C 0 s) k)" by blast+
  have "vs_key (new_vs addr 1 p) \<notin> ?K 0" for p
    using new_vs_index [of addr] by (metis (no_types, lifting) imageE)
  note keep = A(2) [OF this]
  have "inv (?C 1 (?C 0 s)) \<and> (\<forall>k. k \<notin> ?K 1 \<longrightarrow> tab (?C 1 (?C 0 s)) k = tab (?C 0 s) k) \<and>
      (\<forall>k \<in> ?K 1. outcome sure (want addr lbSvcs eps k) None (tab (?C 1 (?C 0 s)) k))"
  proof (intro create_loop_result [OF ok _ A(1)])
    show "map_of (port_service_map lbSvcs ! 1) port = Some svcs \<and> vs_key (new_vs addr 1 port) \<notin> dom (tab (?C 0 s))"
      if "(port, svcs) \<in> set (?l 1)" for port svcs
      using look [of 1 port svcs] that keep [of port] range_map_mem [OF g(2)] by (simp add: domIff del: set_range_map)
  qed (use g in simp_all)
  then have B: "inv (?C 1 (?C 0 s))" "\<And>k. k \<notin> ?K 1 \<Longrightarrow> tab (?C 1 (?C 0 s)) k = tab (?C 0 s) k"
      "\<And>k. k \<in> ?K 1 \<Longrightarrow> outcome sure (want addr lbSvcs eps k) None (tab (?C 1 (?C 0 s)) k)" by blast+
  show ?thesis
    unfolding run to_create_split [OF g, of addr "rank_port ord 0" "rank_port ord 1"]
    using A(2,3) B by (simp (no_asm_use)) (metis UnE)
qed

end

lemma length_fold_drop_port [simp]: "length (fold (drop_port addr) vss psm) = length psm"
  by (induction vss arbitrary: psm) auto

lemma to_create_fresh:
  assumes ok: "inputs_ok addr lbSvcs eps" and keys: "vs_key ` set vss = D" and kp: "list_all known_proto vss"
    and i: "i < 2" and mo: "map_of (fold (drop_port addr) vss (port_service_map lbSvcs) ! i) port = Some svcs"
  shows "map_of (port_service_map lbSvcs ! i) port = Some svcs \<and> vs_key (new_vs addr i port) \<notin> D"
proof -
  have len: "length (port_service_map lbSvcs) = 2" using port_service_map_ok by (auto simp: psm_ok_def)
  have mo': "map_of (port_service_map lbSvcs ! i) port = Some svcs"
    and no: "\<not> (\<exists>vs \<in> set vss. IP_Equal (vsAddress vs) addr \<and> i = pidx vs \<and> port = ucast (vsPort vs))"
    using mo by (auto simp: fold_drop_port(1) [OF len i] split: if_splits)
  note nv = new_vs_port [OF ok i mo']
  have "vs_key (new_vs addr i port) \<noteq> vs_key vs" if "vs \<in> set vss" for vs
  proof
    assume "vs_key (new_vs addr i port) = vs_key vs"
    then have "IP_Equal (vsAddress (new_vs addr i port)) (vsAddress vs)" "pidx (new_vs addr i port) = pidx vs"
        "vsPort (new_vs addr i port) = vsPort vs"
      using nv(1) kp that by (auto simp: vs_key_eq_iff vs_valid_def list_all_iff)
    then show False using no that nv by (auto simp: IP_Equal_canon)
  qed
  then show ?thesis using mo' keys by auto
qed

lemma not_wanted:
  assumes ok: "inputs_ok addr lbSvcs eps" and keys: "vs_key ` set vss = D" "k \<notin> D"
    and nc: "k \<notin> to_create addr (fold (drop_port addr) vss (port_service_map lbSvcs))"
    and kp: "list_all known_proto vss"
  shows "want addr lbSvcs eps k = None"
proof (rule ccontr)
  assume w: "want addr lbSvcs eps k \<noteq> None"
  obtain a pr p where k: "k = (a, pr, p)" by (cases k)
  let ?i = "proto_index pr" and ?P = "ucast p :: int32"
  have len: "length (port_service_map lbSvcs) = 2" using port_service_map_ok by (auto simp: psm_ok_def)
  have i: "?i < 2" by (simp add: proto_index_def)
  have a: "a = canonIP addr" "pr = IPPROTO_TCP \<or> pr = IPPROTO_UDP" "\<exists>svc \<in> set lbSvcs. serves svc ?i ?P"
    using w unfolding want_def k by (simp_all split: if_splits)
  have key: "vs_key (new_vs addr ?i ?P) = k"
    using a(1,2) by (auto simp: vs_key_def new_vs_def k proto_index_def ucast_32_16)
  have "map_of (port_service_map lbSvcs ! ?i) ?P \<noteq> None"
    using a(3) port_service_map_lookup(1) [OF i, of lbSvcs ?P] by blast
  moreover have "map_of (fold (drop_port addr) vss (port_service_map lbSvcs) ! ?i) ?P = None"
    using nc key i unfolding to_create_def by blast
  ultimately obtain vs where vs: "vs \<in> set vss" "IP_Equal (vsAddress vs) addr" "?i = pidx vs" "?P = ucast (vsPort vs)"
    by (auto simp: fold_drop_port(1) [OF len i] split: if_splits)
  have "known_proto vs" using kp vs(1) by (simp add: list_all_iff)
  then have "vs_key vs = k"
    using vs(2,3) a(1,2) ucast_port_inj [OF vs(4)]
    by (auto simp: vs_key_def k IP_Equal_canon known_proto_number pidx_def proto_index_def split: if_splits)
  then show False using keys vs(1) by blast
qed

context lvs_client
begin

theorem sync_lvs_outcome:
  assumes ok: "inputs_ok addr lbSvcs eps" and "inv s"
    and s': "s' = sync_lvs L ord addr (eps_map lbSvcs eps) (port_service_map lbSvcs) s"
  shows "inv s' \<and> (\<forall>k. outcome sure (want addr lbSvcs eps k) (tab s k) (tab s' k))"
proof -
  obtain q s1 where op: "GetVirtualServers L s = (q, s1)" by force
  note law = list_vs [OF assms(2) op]
  have psm: "length (port_service_map lbSvcs) = 2" "\<And>i. i < 2 \<Longrightarrow> gmap_ok (port_service_map lbSvcs ! i)"
    using port_service_map_ok by (auto simp: psm_ok_def)
  show ?thesis
  proof (cases q)
    case (Inl err)
    then have "\<not> sure" using sure_list_vs [OF _ assms(2)] op by auto
    then show ?thesis using law s' op Inl by (simp add: sync_lvs_def outcome_unchanged)
  next
    case (Inr vss)
    then have v: "inv s1" "tab s1 = tab s" "distinct (map vs_key vss)" "vs_key ` set vss = dom (tab s)"
      "list_all known_proto vss" using law by auto
    obtain psm2 s2 where step: "fold (sync_vs L ord addr (eps_map lbSvcs eps)) vss (port_service_map lbSvcs, s1) = (psm2, s2)"
      by force
    have "inv s2 \<and> psm2 = fold (drop_port addr) vss (port_service_map lbSvcs) \<and>
      (\<forall>k. k \<notin> vs_key ` set vss \<longrightarrow> tab s2 k = tab s1 k) \<and>
      (\<forall>k \<in> vs_key ` set vss. outcome sure (want addr lbSvcs eps k) (tab s1 k) (tab s2 k))"
      using v by (intro sync_vss_result [OF ok v(1,3) _ v(5) psm(1) _ step]) auto
    then have s2: "inv s2" "psm2 = fold (drop_port addr) vss (port_service_map lbSvcs)"
      "\<And>k. k \<notin> dom (tab s) \<Longrightarrow> tab s2 k = None"
      "\<And>k. k \<in> dom (tab s) \<Longrightarrow> outcome sure (want addr lbSvcs eps k) (tab s k) (tab s2 k)"
      using v(2,4) by (auto simp: domIff)
    note fresh = to_create_fresh [OF ok v(4,5)]
    have new: "map_of (port_service_map lbSvcs ! i) port = Some svcs \<and> vs_key (new_vs addr i port) \<notin> dom (tab s2)"
      if "i < 2" "map_of (psm2 ! i) port = Some svcs" for i port svcs
      using fresh [OF that(1), of port svcs] that(2) s2(2,3) by (simp add: domIff)
    have run: "s' = create_vss L ord addr (eps_map lbSvcs eps) psm2 s2"
      using s' op Inr step by (simp add: sync_lvs_def)
    have len2: "length psm2 = 2" and ok2: "\<And>i. i < 2 \<Longrightarrow> gmap_ok (psm2 ! i)"
      using psm by (simp_all add: s2(2) fold_drop_port_ok)
    have c: "inv s'" "\<And>k. if k \<in> to_create addr psm2 then outcome sure (want addr lbSvcs eps k) None (tab s' k)
        else tab s' k = tab s2 k"
      using create_vss_result [OF ok s2(1) len2 ok2 new, of ord] unfolding run by blast+
    have "outcome sure (want addr lbSvcs eps k) (tab s k) (tab s' k)" for k
    proof (cases "k \<in> to_create addr psm2")
      case True
      then have "tab s2 k = None"
        using new by (auto simp: to_create_def)
      moreover have "k \<notin> dom (tab s)"
        using True fresh s2(2) by (auto simp: to_create_def)
      ultimately show ?thesis using c(2) [of k] True by (simp add: domIff)
    next
      case False
      then have same: "tab s' k = tab s2 k" using c(2) [of k] by simp
      show ?thesis
      proof (cases "k \<in> dom (tab s)")
        case out: False
        then have "want addr lbSvcs eps k = None"
          using not_wanted [OF ok v(4) out _ v(5)] False s2(2) by blast
        then show ?thesis using same s2(3) [OF out] out by (simp add: outcome_def domIff)
      qed (use same s2(4) in simp)
    qed
    then show ?thesis using c(1) by blast
  qed
qed

end

end
