(* ===== verification/LvsSteady.thy ===== *)
theory LvsSteady
  imports LvsConverge
begin

text \<open>
  The steady state: when the table already is the intended one, a run of \<open>sync_lvs\<close> only asks,
  it changes nothing. \<open>reads\<close> relates two states between which only the two queries of the
  interface were called.
\<close>

inductive reads :: "'l lvs_Interface \<Rightarrow> 'l \<Rightarrow> 'l \<Rightarrow> bool" for L where
  reads_refl: "reads L s s"
| reads_vss: "reads L s s' \<Longrightarrow> reads L s (snd (GetVirtualServers L s'))"
| reads_rss: "reads L s s' \<Longrightarrow> reads L s (snd (GetRealServers L (Some vs) s'))"

lemma reads_trans:
  assumes "reads L s1 s2" "reads L s0 s1"
  shows "reads L s0 s2"
  using assms by induction (auto intro: reads.intros)

lemma rs_ids_empty: "rs_ids m = {} \<longleftrightarrow> m = []"
  by (auto simp: rs_ids_def)

lemma prune_RSs_keep:
  "rs_map_ok m \<Longrightarrow> distinct (map rs_key rss) \<Longrightarrow> rs_key ` set rss \<subseteq> rs_ids m \<Longrightarrow>
     \<exists>m'. prune_RSs L vs rss m s = (m', s) \<and> rs_map_ok m' \<and> rs_ids m' = rs_ids m - rs_key ` set rss"
proof (induction rss arbitrary: m)
  case (Cons rs rss)
  define m1 where "m1 = AList.delete (rs_id_text (rs_key rs)) m"
  have m1: "rs_map_ok m1" "rs_ids m1 = rs_ids m - {rs_key rs}"
    using rs_map_ok_delete [OF Cons.prems(1)] by (auto simp: m1_def)
  have "rs_key ` set rss \<subseteq> rs_ids m1" using Cons.prems(2,3) m1(2) by auto
  from Cons.IH [OF m1(1) _ this] Cons.prems(2) obtain m' where
    "prune_RSs L vs rss m1 s = (m', s)" "rs_map_ok m'" "rs_ids m' = rs_ids m1 - rs_key ` set rss" by auto
  moreover have "map_of m (rs_id_text (rs_key rs)) \<noteq> None"
    using rs_map_ok_lookup [OF Cons.prems(1)] Cons.prems(3) by auto
  ultimately show ?case
    using m1(2) by (auto simp: m1_def rs_id_text_def rs_key_def Let_def)
qed auto

lemma addRealServers_none [simp]: "addRealServers L ord vs [] s = s"
  by (simp add: addRealServers_def range_map_def)

context lvs_contract
begin

lemma sync_vs_steady:
  assumes ok: "inputs_ok addr lbSvcs eps" and "inv s" and kp: "known_proto vs"
    and R: "tab s (vs_key vs) = Some R" "want addr lbSvcs eps (vs_key vs) = Some R"
    and psm: "map_of (psm ! pidx vs) (ucast (vsPort vs)) =
         map_of (port_service_map lbSvcs ! pidx vs) (ucast (vsPort vs))"
  shows "\<exists>s'. sync_vs L ord addr (eps_map lbSvcs eps) vs (psm, s) = (drop_port addr vs psm, s') \<and>
    reads L s s' \<and> inv s' \<and> tab s' = tab s"
proof -
  have eq: "IP_Equal (vsAddress vs) addr"
    and "map_of (port_service_map lbSvcs ! pidx vs) (ucast (vsPort vs)) \<noteq> None"
    and W: "R = backend_id ` backends lbSvcs eps (pidx vs) (ucast (vsPort vs))"
    using R(2) by (auto simp: want_vs_key [OF kp] split: if_splits)
  then obtain svcs where svcs: "map_of (port_service_map lbSvcs ! pidx vs) (ucast (vsPort vs)) = Some svcs"
    by auto
  note E = getExpectRSs_ok [OF ok pidx_less svcs]
  let ?E = "getExpectRSs svcs (eps_map lbSvcs eps) vs"
  obtain q s1 where op: "GetRealServers L (Some vs) s = (q, s1)" by force
  note law = list_rs [OF assms(2) R(1) op]
  have rd: "reads L s s1" using reads_rss [OF reads_refl, of L s vs] op by simp
  show ?thesis
  proof (cases q)
    case (Inl err)
    then show ?thesis
      using eq svcs psm op law rd by (auto simp: sync_vs_def drop_port_def pidx_def Let_def)
  next
    case (Inr rss)
    then have "distinct (map rs_key rss)" "rs_key ` set rss = R" using law by auto
    with prune_RSs_keep [OF E(1), of rss L vs s1] E(2) W obtain m where
      "prune_RSs L vs rss ?E s1 = (m, s1)" "rs_ids m = {}" by auto
    then have "prune_RSs L vs rss ?E s1 = ([], s1)" by (simp add: rs_ids_empty)
    then show ?thesis
      using eq svcs psm op law rd Inr by (auto simp: sync_vs_def drop_port_def pidx_def Let_def)
  qed
qed

lemma sync_vss_steady:
  assumes ok: "inputs_ok addr lbSvcs eps"
    and "inv s" "tab s = want addr lbSvcs eps" "distinct (map vs_key vss)"
      "vs_key ` set vss \<subseteq> dom (tab s)" "list_all known_proto vss" "length psm = 2"
    and "\<And>vs. vs \<in> set vss \<Longrightarrow>
       map_of (psm ! pidx vs) (ucast (vsPort vs)) = map_of (port_service_map lbSvcs ! pidx vs) (ucast (vsPort vs))"
  shows "\<exists>s'. fold (sync_vs L ord addr (eps_map lbSvcs eps)) vss (psm, s) = (fold (drop_port addr) vss psm, s') \<and>
    reads L s s'"
  using assms(2-)
proof (induction vss arbitrary: psm s)
  case Nil
  then show ?case by (auto intro: reads_refl)
next
  case (Cons vs vss)
  obtain R where R: "tab s (vs_key vs) = Some R" using Cons.prems(4) by auto
  have R': "want addr lbSvcs eps (vs_key vs) = Some R" using R Cons.prems(2) by simp
  have kp: "known_proto vs" using Cons.prems(5) by simp
  from sync_vs_steady [OF ok Cons.prems(1) kp R R' Cons.prems(7)] obtain s1 where
    s1: "sync_vs L ord addr (eps_map lbSvcs eps) vs (psm, s) = (drop_port addr vs psm, s1)"
      "reads L s s1" "inv s1" "tab s1 = tab s" by auto
  have look: "map_of (drop_port addr vs psm ! pidx v) (ucast (vsPort v)) =
      map_of (port_service_map lbSvcs ! pidx v) (ucast (vsPort v))" if v: "v \<in> set vss" for v
  proof -
    have kv: "known_proto v" using Cons.prems(5) v by (simp add: list_all_iff)
    have "vs_key v \<noteq> vs_key vs" using Cons.prems(3) v by (metis distinct.simps(2) image_eqI list.set_map list.simps(9))
    moreover have "IP_Equal (vsAddress v) addr"
    proof -
      have "vs_key v \<in> dom (tab s)" using Cons.prems(4) v by auto
      then show ?thesis using Cons.prems(2) by (auto simp: want_vs_key [OF kv] domIff split: if_splits)
    qed
    ultimately have "\<not> (IP_Equal (vsAddress vs) addr \<and> pidx v = pidx vs \<and> (ucast (vsPort v) :: int32) = ucast (vsPort vs))"
      using kp kv by (auto simp: vs_key_eq_iff IP_Equal_canon dest: ucast_port_inj)
    then show ?thesis
      using Cons.prems(7) [of v] v by (auto simp: drop_port_lookup [OF Cons.prems(6)])
  qed
  have "\<exists>s'. fold (sync_vs L ord addr (eps_map lbSvcs eps)) vss (drop_port addr vs psm, s1) =
      (fold (drop_port addr) vss (drop_port addr vs psm), s') \<and> reads L s1 s'"
    using Cons.prems s1 look by (intro Cons.IH) auto
  then show ?case using s1 by (auto intro: reads_trans)
qed

lemma sync_lvs_steady:
  assumes ok: "inputs_ok addr lbSvcs eps" and "inv s" and tab: "tab s = want addr lbSvcs eps"
  shows "reads L s (sync_lvs L ord addr (eps_map lbSvcs eps) (port_service_map lbSvcs) s)"
proof -
  obtain q s1 where op: "GetVirtualServers L s = (q, s1)" by force
  note law = list_vs [OF assms(2) op]
  have rd: "reads L s s1" using reads_vss [OF reads_refl, of L s] op by simp
  have psm: "length (port_service_map lbSvcs) = 2" "\<And>i. i < 2 \<Longrightarrow> gmap_ok (port_service_map lbSvcs ! i)"
    using port_service_map_ok by (auto simp: psm_ok_def)
  show ?thesis
  proof (cases q)
    case (Inl err)
    then show ?thesis using op rd by (simp add: sync_lvs_def)
  next
    case (Inr vss)
    then have v: "inv s1" "tab s1 = tab s" "distinct (map vs_key vss)" "vs_key ` set vss = dom (tab s)"
      "list_all known_proto vss" using law by auto
    let ?psm = "fold (drop_port addr) vss (port_service_map lbSvcs)"
    obtain s2 where s2: "fold (sync_vs L ord addr (eps_map lbSvcs eps)) vss (port_service_map lbSvcs, s1) = (?psm, s2)"
      "reads L s1 s2"
      using sync_vss_steady [OF ok v(1) _ v(3) _ v(5) psm(1), of ord] v(2,4) tab by auto
    have none: "map_of (?psm ! i) port = None" if "i < 2" for i port
    proof (rule ccontr)
      assume "map_of (?psm ! i) port \<noteq> None"
      then obtain svcs where mo: "map_of (?psm ! i) port = Some svcs" by auto
      note fresh = to_create_fresh [OF ok v(4,5) that mo]
      note nv = new_vs_port [OF ok that conjunct1 [OF fresh]]
      have "known_proto (new_vs addr i port)" using nv(1) by (simp add: vs_valid_def)
      then have "want addr lbSvcs eps (vs_key (new_vs addr i port)) \<noteq> None"
        using fresh nv by (simp add: want_vs_key IP_Equal_canon)
      then show False using fresh tab by (simp add: domIff)
    qed
    have "?psm ! i = []" if "i < 2" for i
      using none [OF that] by (cases "?psm ! i") (force split: if_splits)+
    then have "create_vss L ord addr (eps_map lbSvcs eps) ?psm s2 = s2"
      using psm(1) by (simp add: create_vss_def numeral_2_eq_2 range_map_def)
    then show ?thesis using op Inr s2 rd by (auto simp: sync_lvs_def intro: reads_trans)
  qed
qed

end

sublocale lvs_contract \<subseteq> may_fail: lvs_client L inv tab False
  by unfold_locales auto

sublocale lvs_reliable \<subseteq> no_fail: lvs_client L inv tab True
  by unfold_locales (auto simp: list_vs_ok add_vs_ok del_vs_ok list_rs_ok add_rs_ok del_rs_ok)

end
