(* ===== verification/IpvsKernel.thy ===== *)
theory IpvsKernel
  imports LvsContract
begin

text \<open>
  A concrete ipvs kernel, kept as an association list from service identity to the service and
  its destinations. It is no part of the program: it shows that the laws of
  \<open>ipvs_kernel_reliable\<close> can hold together, and runs the adaptor in the witnesses. Through it
  the runner of \<^verbatim>\<open>lvs/lvs.go\<close> is an instance of both client contracts.
\<close>

type_synonym kernel = "(vs_id, ipvs_Service \<times> ipvs_Destination list) gomap"

definition k_NewService :: "ipvs_Service \<Rightarrow> kernel \<Rightarrow> gerror option \<times> kernel" where
  "k_NewService s k =
     (if map_of k (svc_key s) \<noteq> None then (Some ''file exists'', k)
      else if \<not> svc_valid s then (Some ''invalid argument'', k)
      else (None, AList.update (svc_key s) (s\<lparr>isFlags := isFlags s OR FlagHashed\<rparr>, []) k))"

definition k_UpdateService :: "ipvs_Service \<Rightarrow> kernel \<Rightarrow> gerror option \<times> kernel" where
  "k_UpdateService s k =
     (case map_of k (svc_key s) of
        None \<Rightarrow> (Some ''no such process'', k)
      | Some (_, ds) \<Rightarrow>
          if svc_valid s
          then (None, AList.update (svc_key s) (s\<lparr>isFlags := isFlags s OR FlagHashed\<rparr>, ds) k)
          else (Some ''invalid argument'', k))"

definition k_DelService :: "ipvs_Service \<Rightarrow> kernel \<Rightarrow> gerror option \<times> kernel" where
  "k_DelService s k =
     (if map_of k (svc_key s) = None then (Some ''no such process'', k)
      else (None, AList.delete (svc_key s) k))"

definition k_GetService :: "ipvs_Service \<Rightarrow> kernel \<Rightarrow> (gerror + ipvs_Service) \<times> kernel" where
  "k_GetService s k =
     (case map_of k (svc_key s) of
        None \<Rightarrow> (Inl ''no such process'', k) | Some (t, _) \<Rightarrow> (Inr t, k))"

definition k_GetServices :: "kernel \<Rightarrow> (gerror + ipvs_Service list) \<times> kernel" where
  "k_GetServices k = (Inr (map (\<lambda>(_, t, _). t) k), k)"

definition k_NewDestination ::
    "ipvs_Service \<Rightarrow> ipvs_Destination \<Rightarrow> kernel \<Rightarrow> gerror option \<times> kernel" where
  "k_NewDestination s d k =
     (case map_of k (svc_key s) of
        None \<Rightarrow> (Some ''no such process'', k)
      | Some (t, ds) \<Rightarrow>
          if dst_key d \<in> set (map dst_key ds) then (Some ''file exists'', k)
          else if \<not> dst_valid d then (Some ''invalid argument'', k)
          else (None, AList.update (svc_key s) (t, ds @ [d]) k))"

definition k_DelDestination ::
    "ipvs_Service \<Rightarrow> ipvs_Destination \<Rightarrow> kernel \<Rightarrow> gerror option \<times> kernel" where
  "k_DelDestination s d k =
     (case map_of k (svc_key s) of
        None \<Rightarrow> (Some ''no such process'', k)
      | Some (t, ds) \<Rightarrow>
          if dst_key d \<notin> set (map dst_key ds) then (Some ''no such file or directory'', k)
          else (None, AList.update (svc_key s) (t, filter (\<lambda>x. dst_key x \<noteq> dst_key d) ds) k))"

definition k_GetDestinations :: "ipvs_Service \<Rightarrow> kernel \<Rightarrow> (gerror + ipvs_Destination list) \<times> kernel" where
  "k_GetDestinations s k =
     (case map_of k (svc_key s) of
        None \<Rightarrow> (Inl ''no such process'', k) | Some (_, ds) \<Rightarrow> (Inr ds, k))"

definition kernel_handle :: "kernel ipvs_Handle" where
  "kernel_handle =
     \<lparr>NewService = k_NewService, UpdateService = k_UpdateService, DelService = k_DelService,
      GetService = k_GetService, GetServices = k_GetServices, HandleFlush = (\<lambda>_. (None, [])),
      NewDestination = k_NewDestination, DelDestination = k_DelDestination,
      GetDestinations = k_GetDestinations\<rparr>"

definition kernel_inv :: "kernel \<Rightarrow> bool" where
  "kernel_inv k \<longleftrightarrow> gmap_ok k \<and>
     (\<forall>i t ds. (i, t, ds) \<in> set k \<longrightarrow> i = svc_key t \<and> svc_listed t \<and> distinct (map dst_key ds))"

definition kernel_tab :: "kernel \<Rightarrow> lvs_table" where
  "kernel_tab k i = map_option (\<lambda>(_, ds). dst_key ` set ds) (map_of k i)"

lemmas kernel_defs = kernel_handle_def k_NewService_def k_UpdateService_def k_DelService_def
  k_GetService_def k_GetServices_def k_NewDestination_def k_DelDestination_def k_GetDestinations_def

lemma dom_kernel_tab: "dom (kernel_tab k) = fst ` set k"
  by (auto simp: kernel_tab_def dom_map_of_conv_image_fst [symmetric])

lemma kernel_tab_Some:
  "kernel_tab k i = Some R \<longleftrightarrow> (\<exists>t ds. map_of k i = Some (t, ds) \<and> R = dst_key ` set ds)"
  by (auto simp: kernel_tab_def)

lemma kernel_tab_update:
  "kernel_tab (AList.update i (t, ds) k) = (kernel_tab k)(i \<mapsto> dst_key ` set ds)"
  by (auto simp: kernel_tab_def update_conv')

lemma kernel_tab_delete: "kernel_tab (AList.delete i k) = (kernel_tab k)(i := None)"
  by (auto simp: kernel_tab_def delete_conv')

lemma kernel_inv_lookup:
  "kernel_inv k \<Longrightarrow> map_of k i = Some (t, ds) \<Longrightarrow> i = svc_key t \<and> svc_listed t \<and> distinct (map dst_key ds)"
  unfolding kernel_inv_def by (meson map_of_SomeD)

lemma kernel_inv_update:
  assumes "kernel_inv k" "i = svc_key t" "svc_listed t" "distinct (map dst_key ds)"
  shows "kernel_inv (AList.update i (t, ds) k)"
proof -
  have ok: "gmap_ok (AList.update i (t, ds) k)" using assms by (simp add: kernel_inv_def)
  have "j = svc_key t' \<and> svc_listed t' \<and> distinct (map dst_key ds')"
    if "(j, t', ds') \<in> set (AList.update i (t, ds) k)" for j t' ds'
  proof -
    have "map_of (AList.update i (t, ds) k) j = Some (t', ds')"
      using that ok by (simp add: gmap_ok_def)
    then show ?thesis
      using assms kernel_inv_lookup [OF assms(1)] by (auto simp: update_conv' split: if_splits)
  qed
  with ok show ?thesis by (simp add: kernel_inv_def)
qed

lemma kernel_inv_dests:
  assumes "kernel_inv k" "map_of k i = Some (t, ds)"
  shows "distinct (map dst_key ds)"
    and "distinct (map dst_key ds') \<Longrightarrow> kernel_inv (AList.update i (t, ds') k)"
  using kernel_inv_lookup [OF assms] assms(1) by (auto intro: kernel_inv_update)

lemma kernel_inv_delete: "kernel_inv k \<Longrightarrow> kernel_inv (AList.delete i k)"
  using gmap_ok_delete [of k i] unfolding kernel_inv_def by (auto simp: AList.delete_eq)

lemma svc_listed_hashed:
  "svc_valid s \<Longrightarrow> svc_listed (s\<lparr>isFlags := isFlags s OR FlagHashed\<rparr>)"
proof -
  have "(isFlags s OR FlagHashed) AND FlagHashed = FlagHashed"
    by (simp add: bit_eq_iff bit_or_iff bit_and_iff) 
  then show "svc_valid s \<Longrightarrow> ?thesis"
    by (auto simp: svc_valid_def svc_listed_def ip_valid_def FlagHashed_def)
qed

lemma svc_key_flags [simp]: "svc_key (s\<lparr>isFlags := f\<rparr>) = svc_key s"
  by (simp add: svc_key_def)

lemma image_filter_neq: "f ` {x \<in> A. f x \<noteq> y} = f ` A - {y}"
  by auto

interpretation kern: ipvs_kernel_reliable kernel_handle kernel_inv kernel_tab
proof
  fix k r k' assume *: "kernel_inv k" "GetServices kernel_handle k = (r, k')"
  define ss where "ss = map (\<lambda>(_, t, _). t) k"
  have keys: "map svc_key ss = map fst k"
    using *(1) by (auto simp: kernel_inv_def ss_def)
  have "distinct (map svc_key ss)"
    using *(1) unfolding keys by (simp add: kernel_inv_def gmap_ok_def)
  moreover have "svc_key ` set ss = dom (kernel_tab k)"
    using arg_cong [OF keys, of set] by (simp add: dom_kernel_tab)
  moreover have "list_all svc_listed ss"
    using *(1) by (auto simp: kernel_inv_def ss_def list_all_iff)
  moreover have "r = Inr ss" "k' = k"
    using *(2) by (auto simp: kernel_defs ss_def)
  ultimately show "kernel_inv k' \<and> kernel_tab k' = kernel_tab k \<and>
      (\<forall>ss. r = Inr ss \<longrightarrow> distinct (map svc_key ss) \<and> svc_key ` set ss = dom (kernel_tab k) \<and>
         list_all svc_listed ss)"
    using *(1) by simp
next
  fix k s e k'
  assume "kernel_inv k" "isProtocol s = IPPROTO_TCP \<or> isProtocol s = IPPROTO_UDP"
    "NewService kernel_handle s k = (e, k')"
  then show "kernel_inv k' \<and> (e = None \<longrightarrow> svc_key s \<notin> dom (kernel_tab k)) \<and>
      kernel_tab k' = (if e = None then (kernel_tab k)(svc_key s \<mapsto> {}) else kernel_tab k)"
    by (auto simp: kernel_defs kernel_tab_update kernel_inv_update svc_listed_hashed kernel_tab_def
        split: if_splits)
next
  fix k s e k' assume "kernel_inv k" "svc_key s \<in> dom (kernel_tab k)" "DelService kernel_handle s k = (e, k')"
  then show "kernel_inv k' \<and> kernel_tab k' = (if e = None then (kernel_tab k)(svc_key s := None) else kernel_tab k)"
    by (auto simp: kernel_defs kernel_tab_delete kernel_inv_delete split: if_splits)
next
  fix k s R r k'
  assume "kernel_inv k" "kernel_tab k (svc_key s) = Some R" "GetDestinations kernel_handle s k = (r, k')"
  then show "kernel_inv k' \<and> kernel_tab k' = kernel_tab k \<and>
      (\<forall>ds. r = Inr ds \<longrightarrow> distinct (map dst_key ds) \<and> dst_key ` set ds = R)"
    by (auto simp: kernel_defs kernel_tab_Some dest: kernel_inv_lookup)
next
  fix k s R d e k'
  assume "kernel_inv k" "kernel_tab k (svc_key s) = Some R" "dst_key d \<notin> R"
    "NewDestination kernel_handle s d k = (e, k')"
  then show "kernel_inv k' \<and>
      kernel_tab k' = (if e = None then (kernel_tab k)(svc_key s \<mapsto> insert (dst_key d) R) else kernel_tab k)"
    using kernel_inv_dests [of k "svc_key s"]
    by (auto simp: kernel_defs kernel_tab_Some kernel_tab_update split: if_splits)
next
  fix k s R d e k'
  assume "kernel_inv k" "kernel_tab k (svc_key s) = Some R" "dst_key d \<in> R"
    "DelDestination kernel_handle s d k = (e, k')"
  then show "kernel_inv k' \<and>
      kernel_tab k' = (if e = None then (kernel_tab k)(svc_key s \<mapsto> R - {dst_key d}) else kernel_tab k)"
    using kernel_inv_dests [of k "svc_key s"]
    by (auto simp: kernel_defs kernel_tab_Some kernel_tab_update distinct_map_filter image_filter_neq
        split: if_splits)
qed (auto simp: kernel_defs kernel_tab_Some kernel_tab_def)

end
