(* ===== verification/LvsProps.thy ===== *)
theory LvsProps
  imports LvsSteady IpvsKernel
begin

text \<open>
  The properties of the lvs part of \<open>Build\<close> over the runner of \<^verbatim>\<open>lvs/lvs.go\<close>, for every ipvs
  kernel that keeps its promises, with a concrete run as witness.
\<close>

context lvs_contract
begin

lemma sync_lvs_safe:
  assumes "inputs_ok addr lbSvcs eps" "inv s"
  shows "outcome False (want addr lbSvcs eps i) (tab s i)
    (tab (sync_lvs L ord addr (eps_map lbSvcs eps) (port_service_map lbSvcs) s) i)"
  using may_fail.sync_lvs_outcome [OF assms refl] by blast

end

context lvs_reliable
begin

lemma sync_lvs_converges:
  assumes "inputs_ok addr lbSvcs eps" "inv s"
  shows "tab (sync_lvs L ord addr (eps_map lbSvcs eps) (port_service_map lbSvcs) s) = want addr lbSvcs eps"
  using no_fail.sync_lvs_outcome [OF assms refl, of ord] by (intro ext) (simp only: outcome_def if_True)

end

context ipvs_kernel
begin

lemmas kernel_sync_safe = sync_lvs_safe
lemmas kernel_sync_steady = sync_lvs_steady

end

context ipvs_kernel_reliable
begin

lemmas kernel_sync_converges = sync_lvs_converges

end

subsection \<open>A concrete run\<close>

definition demo_svc :: Service where
  "demo_svc = \<lparr>svcNamespace = ''default'', svcName = ''web'', svcResourceVersion = ''1'',
     svcType = ''LoadBalancer'', svcPorts = [\<lparr>spName = ''http'', spProtocol = ''TCP'', spPort = 80\<rparr>],
     svcIngress = [], svcRest = []\<rparr>"

definition demo_eps :: Endpoints where
  "demo_eps = \<lparr>epsNamespace = ''default'', epsName = ''web'', epsSubsets =
     [\<lparr>essAddresses = [''10.1.0.1'', ''10.1.0.2''], essPorts = [\<lparr>epName = ''http'', epPort = 8080\<rparr>]\<rparr>]\<rparr>"

definition demo_addr :: IP where
  "demo_addr = [10, 0, 0, 1]"

definition demo_ord :: map_order where
  "demo_ord = \<lparr>rank_port = (\<lambda>_ _. 0), rank_rs = (\<lambda>_ _. 0)\<rparr>"

text \<open>A kernel with a stale virtual server.\<close>

definition demo_kernel :: kernel where
  "demo_kernel = (let s = \<lparr>isAddress = [10, 0, 0, 1], isProtocol = 6, isPort = 81, isFWMark = 0,
     isSchedName = ''rr'', isFlags = 2, isTimeout = 0, isNetmask = 0, isAddressFamily = 2, isPEName = []\<rparr>
     in [(svc_key s, s, [])])"

lemma demo_inputs: "inputs_ok demo_addr [demo_svc] [demo_eps]"
  by (simp add: inputs_ok_def demo_svc_def demo_eps_def demo_addr_def ip_valid_def go_eval)

lemma demo_kernel_inv: "kernel_inv demo_kernel"
  by (simp add: kernel_inv_def demo_kernel_def svc_listed_def FlagHashed_def IPPROTO_TCP_def gmap_ok_def Let_def)

lemma demo_backends: "backends [demo_svc] [demo_eps] 0 80 = {(''10.1.0.1'', 8080), (''10.1.0.2'', 8080)}"
  by (auto simp: backends_def serves_def svc_backends_alt subset_backends_def
      demo_svc_def demo_eps_def endpoints_of_def protolcolIndex_def ProtocolUDP_def)

lemma demo_want:
  "want demo_addr [demo_svc] [demo_eps] =
     [(canonIP demo_addr, IPPROTO_TCP, 80) \<mapsto> {(''10.1.0.1'', 8080), (''10.1.0.2'', 8080)}]"
proof -
  have sv: "serves demo_svc i p \<longleftrightarrow> i = 0 \<and> p = 80" for i p
    by (auto simp: serves_def demo_svc_def protolcolIndex_def ProtocolUDP_def)
  have p: "ucast (p :: u16) = (80 :: int32) \<longleftrightarrow> p = 80" for p
    using ucast_port_inj [of p 80] by auto
  show ?thesis
    by (intro ext) (auto simp: want_def sv p proto_index_def demo_backends backend_id_def split: if_splits)
qed

definition steady_kernel :: kernel where
  "steady_kernel = (let s = \<lparr>isAddress = [10, 0, 0, 1], isProtocol = 6, isPort = 80, isFWMark = 0,
     isSchedName = ''rr'', isFlags = 2, isTimeout = 0, isNetmask = 0, isAddressFamily = 2, isPEName = []\<rparr>;
     d = \<lparr>idAddress = ParseIP ''10.1.0.1'', idPort = 8080, idWeight = 1, idConnectionFlags = 0,
       idAddressFamily = 2, idUpperThreshold = 0, idLowerThreshold = 0\<rparr>
     in [(svc_key s, s, [d, d\<lparr>idAddress := ParseIP ''10.1.0.2''\<rparr>])])"

lemma steady_kernel_ok: "kernel_inv steady_kernel" "kernel_tab steady_kernel = want demo_addr [demo_svc] [demo_eps]"
proof -
  show "kernel_inv steady_kernel"
    by (simp add: kernel_inv_def steady_kernel_def svc_listed_def FlagHashed_def IPPROTO_TCP_def gmap_ok_def
        dst_key_def Let_def go_eval)
  show "kernel_tab steady_kernel = want demo_addr [demo_svc] [demo_eps]"
    unfolding demo_want
    by (rule ext) (simp add: kernel_tab_def steady_kernel_def svc_key_def dst_key_def demo_addr_def
        IPPROTO_TCP_def Let_def go_eval)
qed

subsection \<open>Convergence\<close>

text \<open>
  C2. When the kernel accepts well-formed requests, one run of the synchronisation over the
  ipvs runner leaves exactly the intended table, from every state of the kernel and for every
  order in which Go visits its maps: one virtual server at the balancer's address for each
  (protocol, port) that a service has, with exactly the addresses of its endpoints behind it,
  and no other virtual server.
\<close>

theorem sync_converges:
  assumes "ipvs_kernel_reliable h kinv ktab" "inputs_ok addr lbSvcs eps" "kinv k"
  shows "ktab (sync_lvs (lvs_runner h) ord addr (eps_map lbSvcs eps) (port_service_map lbSvcs) k) =
    want addr lbSvcs eps"
  using ipvs_kernel_reliable.kernel_sync_converges [OF assms] .

theorem sync_converges_witness:
  "ipvs_kernel_reliable kernel_handle kernel_inv kernel_tab \<and> inputs_ok demo_addr [demo_svc] [demo_eps] \<and>
   kernel_inv demo_kernel \<and>
   kernel_tab (sync_lvs (lvs_runner kernel_handle) demo_ord demo_addr (eps_map [demo_svc] [demo_eps])
     (port_service_map [demo_svc]) demo_kernel) = want demo_addr [demo_svc] [demo_eps] \<and>
   want demo_addr [demo_svc] [demo_eps] (canonIP demo_addr, IPPROTO_TCP, 80) =
     Some {(''10.1.0.1'', 8080), (''10.1.0.2'', 8080)}"
  using sync_converges [OF kern.ipvs_kernel_reliable_axioms demo_inputs demo_kernel_inv, of demo_ord]
    kern.ipvs_kernel_reliable_axioms demo_inputs demo_kernel_inv
  by (simp add: demo_want)

subsection \<open>Failures\<close>

text \<open>
  C6. Whatever operations the kernel refuses, a run never removes an intended real server that
  was there, never takes away an intended virtual server, and never adds a server that is not
  intended: each entry of the table ends between what it was and what it should be.
\<close>

theorem sync_failure_safe:
  assumes "ipvs_kernel h kinv ktab" "inputs_ok addr lbSvcs eps" "kinv k"
  shows "let new = ktab (sync_lvs (lvs_runner h) ord addr (eps_map lbSvcs eps) (port_service_map lbSvcs) k) i in
    case (want addr lbSvcs eps i, ktab k i) of
      (None, old) \<Rightarrow> new = None \<or> new = old
    | (Some W, None) \<Rightarrow> (\<forall>N. new = Some N \<longrightarrow> N \<subseteq> W)
    | (Some W, Some R) \<Rightarrow> (\<exists>N. new = Some N \<and> R \<inter> W \<subseteq> N \<and> N \<subseteq> R \<union> W)"
  using ipvs_kernel.kernel_sync_safe [OF assms, of i ord]
  by (auto simp: outcome_def Let_def split: option.splits)

theorem sync_failure_safe_witness:
  "ipvs_kernel kernel_handle kernel_inv kernel_tab \<and> inputs_ok demo_addr [demo_svc] [demo_eps] \<and>
   kernel_inv steady_kernel \<and>
   kernel_tab (sync_lvs (lvs_runner kernel_handle) demo_ord demo_addr (eps_map [demo_svc] [demo_eps])
     (port_service_map [demo_svc]) steady_kernel) (canonIP demo_addr, IPPROTO_TCP, 80) =
     Some {(''10.1.0.1'', 8080), (''10.1.0.2'', 8080)}"
  using sync_failure_safe [OF kern.ipvs_kernel_axioms demo_inputs steady_kernel_ok(1), of demo_ord
      "(canonIP demo_addr, IPPROTO_TCP, 80)"] kern.ipvs_kernel_axioms demo_inputs steady_kernel_ok
  by (auto simp: demo_want)

subsection \<open>Steady state\<close>

text \<open>
  C7. Once the kernel holds the intended table, a run changes nothing: it reaches its final
  state by the two queries of the interface alone, so no virtual or real server is deleted and
  added again while traffic flows.
\<close>

theorem sync_steady:
  assumes "ipvs_kernel h kinv ktab" "inputs_ok addr lbSvcs eps" "kinv k" "ktab k = want addr lbSvcs eps"
  shows "reads (lvs_runner h) k
    (sync_lvs (lvs_runner h) ord addr (eps_map lbSvcs eps) (port_service_map lbSvcs) k)"
  using ipvs_kernel.kernel_sync_steady [OF assms] .

theorem sync_steady_witness:
  "ipvs_kernel kernel_handle kernel_inv kernel_tab \<and> inputs_ok demo_addr [demo_svc] [demo_eps] \<and>
   kernel_inv steady_kernel \<and> kernel_tab steady_kernel = want demo_addr [demo_svc] [demo_eps] \<and>
   reads (lvs_runner kernel_handle) steady_kernel
     (sync_lvs (lvs_runner kernel_handle) demo_ord demo_addr (eps_map [demo_svc] [demo_eps])
        (port_service_map [demo_svc]) steady_kernel)"
  using sync_steady [OF kern.ipvs_kernel_axioms demo_inputs steady_kernel_ok] kern.ipvs_kernel_axioms
    demo_inputs steady_kernel_ok by simp

subsection \<open>The conversions\<close>

lemma hashed_flag:
  fixes f :: u32
  assumes "f AND FlagHashed = 0"
  shows "(f OR FlagHashed) AND FlagHashed \<noteq> 0" "(f OR FlagHashed) AND NOT FlagHashed = f"
proof -
  have "(f OR FlagHashed) AND FlagHashed = FlagHashed" by (simp add: bit_eq_iff bit_simps)
  then show "(f OR FlagHashed) AND FlagHashed \<noteq> 0" by (simp add: FlagHashed_def)
  have "\<not> (bit f n \<and> bit FlagHashed n)" for n
    using arg_cong [OF assms, of "\<lambda>w. bit w n"] by (simp add: bit_simps)
  then show "(f OR FlagHashed) AND NOT FlagHashed = f"
    by (intro bit_word_eqI) (auto simp: bit_simps)
qed

text \<open>
  C31. The conversions to and from the kernel's structures lose nothing: a virtual server that is
  handed to the kernel and read back, with the flag that the kernel sets on every service it
  keeps, is the same virtual server.
\<close>

theorem toVirtualServer_back:
  assumes "vsProtocol vs = ''TCP'' \<or> vsProtocol vs = ''UDP''" "vsAddress vs \<noteq> []" "vsFlags vs AND FlagHashed = 0"
    and "toBackendService (Some vs) = Inr b"
  shows "toVirtualServer (Some (b\<lparr>isFlags := isFlags b OR FlagHashed\<rparr>)) = Inr vs"
proof -
  have "protocolNumbeToString (stringToProtocolNumber (vsProtocol vs)) = vsProtocol vs"
    using assms(1) by (auto simp: protocolNumbeToString_def stringToProtocolNumber_def IPPROTO_TCP_def IPPROTO_UDP_def go_eval)
  moreover have "isAddress b = vsAddress vs" "isProtocol b = stringToProtocolNumber (vsProtocol vs)" "isPort b = vsPort vs"
      "isSchedName b = vsScheduler vs" "isFlags b = vsFlags vs" "isTimeout b = vsTimeout vs"
    using assms(4) by (auto simp: toBackendService_def Let_def)
  ultimately show ?thesis
    using assms(2) hashed_flag [OF assms(3)] by (simp add: toVirtualServer_def Let_def)
qed

theorem toVirtualServer_back_witness:
  "\<exists>b. toBackendService (Some (new_vs demo_addr 1 53)) = Inr b \<and> isNetmask b = 0xffffffff \<and>
     toVirtualServer (Some (b\<lparr>isFlags := isFlags b OR FlagHashed\<rparr>)) = Inr (new_vs demo_addr 1 53)"
proof -
  let ?vs = "new_vs demo_addr 1 53"
  obtain b where b: "toBackendService (Some ?vs) = Inr b" "isNetmask b = 0xffffffff"
    by (simp add: toBackendService_def new_vs_def demo_addr_def To4_def)
  have "vsProtocol ?vs = ''TCP'' \<or> vsProtocol ?vs = ''UDP''" "vsAddress ?vs \<noteq> []" "vsFlags ?vs AND FlagHashed = 0"
    by (simp_all add: new_vs_def demo_addr_def)
  from toVirtualServer_back [OF this b(1)] b show ?thesis by blast
qed

end
