(* ===== verification/LvsNetTools.thy ===== *)
theory LvsNetTools
  imports LvsNetfilter LvsProps
begin

text \<open>
  The runners of \<^verbatim>\<open>utils/ipset\<close> and \<^verbatim>\<open>utils/iptables\<close> give the contract of \<open>buildIptables\<close> over
  commands that keep their documented promises (\<open>netfilter_tools\<close>); with a simulation of both
  commands, and the properties of the whole of \<open>Build\<close>.
\<close>

subsection \<open>The commands\<close>

text \<open>
  What the commands \<^verbatim>\<open>ipset\<close> and \<^verbatim>\<open>iptables\<close> promise: \<open>create\<close>, \<open>add\<close> and \<open>del\<close> act on the set they
  name when they report no error and change nothing otherwise, \<open>list\<close> prints a header, the
  line \<^verbatim>\<open>Members:\<close> and the entries; neither command touches what the other keeps.
\<close>

locale netfilter_tools = iptables_tool ex r inv rules
  for ex :: "'w Exec" and r :: "'w ipt_runner" and inv :: "'w \<Rightarrow> bool" and rules :: "'w \<Rightarrow> rule_table" +
  fixes members :: "'w \<Rightarrow> string \<Rightarrow> string set option" and sure :: bool
  assumes tool_create: "inv w \<Longrightarrow> n \<noteq> [] \<Longrightarrow>
      ipset_run ex [''create'', n, ''hash:ip,port'', ''family'', ''inet'', ''hashsize'', ''1024'', ''maxelem'', ''65536'', ''-exist''] w =
        ((out, err), w') \<Longrightarrow>
      inv w' \<and> (sure \<longrightarrow> err = None) \<and>
      members w' = (if err = None then (members w)(n \<mapsto> (case members w n of None \<Rightarrow> {} | Some M \<Rightarrow> M)) else members w)"
    and tool_add: "inv w \<Longrightarrow> entry_ok e \<Longrightarrow> members w n = Some M \<Longrightarrow>
      ipset_run ex [''add'', n, e, ''-exist''] w = ((out, err), w') \<Longrightarrow>
      inv w' \<and> (sure \<longrightarrow> err = None) \<and> members w' = (if err = None then (members w)(n \<mapsto> insert e M) else members w)"
    and tool_del: "inv w \<Longrightarrow> members w n = Some M \<Longrightarrow> e \<in> M \<Longrightarrow> ipset_run ex [''del'', n, e] w = ((out, err), w') \<Longrightarrow>
      inv w' \<and> (sure \<longrightarrow> err = None) \<and> members w' = (if err = None then (members w)(n \<mapsto> M - {e}) else members w)"
    and tool_list: "inv w \<Longrightarrow> members w n = Some M \<Longrightarrow> ipset_run ex [''list'', n] w = ((out, err), w') \<Longrightarrow>
      inv w' \<and> members w' = members w \<and> (sure \<longrightarrow> err = None) \<and>
      (err = None \<longrightarrow> (\<exists>header entries. out = listing header entries \<and> (\<forall>h \<in> set header. nl \<notin> set h) \<and>
         (\<forall>e \<in> set entries. e \<noteq> [] \<and> nl \<notin> set e \<and> e \<noteq> ''Members:'') \<and> distinct entries \<and> set entries = M))"
    and tool_ipset_rules: "inv w \<Longrightarrow> rules (snd (ipset_run ex args w)) = rules w"
    and tool_ipt_members: "inv w \<Longrightarrow> inv (snd (ipt_run ex r op args w)) \<and> members (snd (ipt_run ex r op args w)) = members w"
    and tool_check_sure: "sure \<Longrightarrow> inv w \<Longrightarrow> ipt_run ex r opCheckRule (makeFullArgs t c args) w = ((out, Some er), w') \<Longrightarrow> exited_1 er"
    and tool_rule_sure: "sure \<Longrightarrow> inv w \<Longrightarrow> position \<in> {Prepend, Append} \<Longrightarrow>
      snd (fst (ipt_run ex r position (makeFullArgs t c args) w)) = None"
begin

lemma CreateSet_run:
  assumes "isSetType st = HashIPPort" "isHashFamily st = []" "isHashSize st = 0" "isMaxElem st = 0" "isPortRange st = []"
  shows "\<exists>wrap. runner_CreateSet ex st True w =
    (case ipset_run ex [''create'', isName st, ''hash:ip,port'', ''family'', ''inet'', ''hashsize'', ''1024'', ''maxelem'', ''65536'', ''-exist''] w of
       ((out, err), w') \<Rightarrow> ((map_option wrap err, set_defaults st), w'))"
  using assms
  by (intro exI [of _ "\<lambda>e. ''error creating ipset '' @ isName st @ '', error: '' @ err_text e"])
    (cases st, simp add: runner_CreateSet_def set_defaults_def IPSet_Validate_def validateHashFamily_def validateIPSetType_def
      ValidIPSetTypes_def createSet_def createSet_args_def ipset_do_def ProtocolFamilyIPV4_def
      DefaultPortRange_def Let_def go_eval split: prod.splits)

lemma ListEntries_run:
  assumes "inv w" "members w n = Some M" "n \<noteq> []" "runner_ListEntries ex n w = (res, w')"
  shows "inv w' \<and> members w' = members w \<and> (sure \<longrightarrow> (\<exists>es. res = Inr es)) \<and>
      (\<forall>es. res = Inr es \<longrightarrow> distinct es \<and> set es = M)"
proof -
  obtain out err w1 where run: "ipset_run ex [''list'', n] w = ((out, err), w1)" by (metis prod.collapse)
  note law = tool_list [OF assms(1,2) run]
  show ?thesis
  proof (cases err)
    case None
    with law obtain header entries where out: "out = listing header entries"
        and h: "\<forall>h \<in> set header. nl \<notin> set h" and e: "\<forall>e \<in> set entries. e \<noteq> [] \<and> nl \<notin> set e \<and> e \<noteq> ''Members:''"
        and es: "distinct entries" "set entries = M"
      by blast
    have "res = Inr entries" "w' = w1"
      using assms(3,4) run None by (simp_all add: runner_ListEntries_def out members_of_listing [OF h e])
    then show ?thesis using law es by simp
  next
    case (Some x)
    then show ?thesis using law assms(3,4) run by (auto simp: runner_ListEntries_def)
  qed
qed

lemma Ensure_members:
  assumes "inv w"
  shows "members (snd (EnsureRule ex r position t c args w)) = members w"
proof -
  obtain q w1 where chk: "checkRule ex r t c args w = (q, w1)" by force
  have q: "(q, w1) = checkRuleUsingCheck ex r (makeFullArgs t c args) w" using chk has_check by (simp add: checkRule_def)
  obtain out err w2 where run: "ipt_run ex r opCheckRule (makeFullArgs t c args) w = ((out, err), w2)"
    by (metis prod.collapse)
  have "w1 = w2" using q run by (auto simp: checkRuleUsingCheck_def split: option.splits if_splits)
  then have "inv w1" "members w1 = members w" using tool_ipt_members [OF assms, of opCheckRule "makeFullArgs t c args"] run by simp_all
  then show ?thesis
    using chk tool_ipt_members [of w1 position "makeFullArgs t c args"]
    by (auto simp: EnsureRule_def split: sum.splits bool.splits option.splits prod.splits)
qed

lemma Ensure_sure:
  assumes "sure" "inv w" "position \<in> {Prepend, Append}"
  shows "\<exists>b. fst (EnsureRule ex r position t c args w) = Inr b"
proof -
  obtain out err w2 where run: "ipt_run ex r opCheckRule (makeFullArgs t c args) w = ((out, err), w2)"
    by (metis prod.collapse)
  have 2: "inv w2" using tool_ipt_members [OF assms(2), of opCheckRule "makeFullArgs t c args"] run by simp
  obtain out' err' w3 where run': "ipt_run ex r position (makeFullArgs t c args) w2 = ((out', err'), w3)"
    by (metis prod.collapse)
  have "err' = None" using tool_rule_sure [OF assms(1) 2 assms(3)] run' by (metis fst_conv snd_conv)
  then show ?thesis
    using run run' has_check tool_check_sure [OF assms(1,2)]
    by (cases err) (auto simp: EnsureRule_def checkRule_def checkRuleUsingCheck_def)
qed

lemma ipset_do_world: "snd (ipset_do ex args wrap w) = snd (ipset_run ex args w)"
  by (simp add: ipset_do_def split: prod.splits)

lemma Create_rules:
  assumes "inv w"
  shows "rules (snd (runner_CreateSet ex st b w)) = rules w"
  using tool_ipset_rules [OF assms]
  by (auto simp: runner_CreateSet_def createSet_def Let_def ipset_do_world split: prod.splits)
    (metis ipset_do_world snd_conv)

lemma List_rules:
  assumes "inv w"
  shows "rules (snd (runner_ListEntries ex n w)) = rules w"
  using tool_ipset_rules [OF assms, of "[''list'', n]"]
  by (auto simp: runner_ListEntries_def split: prod.splits option.splits)

end

sublocale netfilter_tools \<subseteq> netfilter "ipset_New ex" inv members sure "EnsureRule ex r" rules
proof
  fix w w' :: 'w and st st' err
  assume *: "inv w" "isSetType st = HashIPPort" "isName st \<noteq> []" "isHashFamily st = []" "isHashSize st = 0"
    "isMaxElem st = 0" "isPortRange st = []" "CreateSet (ipset_New ex) st True w = ((err, st'), w')"
  obtain wrap where wrap: "runner_CreateSet ex st True w =
      (case ipset_run ex [''create'', isName st, ''hash:ip,port'', ''family'', ''inet'', ''hashsize'', ''1024'', ''maxelem'', ''65536'', ''-exist''] w of
       ((out, err), w') \<Rightarrow> ((map_option wrap err, set_defaults st), w'))"
    using CreateSet_run [OF *(2,4-7)] by blast
  obtain out er w1 where run: "ipset_run ex [''create'', isName st, ''hash:ip,port'', ''family'', ''inet'', ''hashsize'', ''1024'', ''maxelem'', ''65536'', ''-exist''] w
      = ((out, er), w1)" by (metis prod.collapse)
  have "err = map_option wrap er" "st' = set_defaults st" "w' = w1"
    using *(8) wrap run by (simp_all add: ipset_New_def)
  moreover have "isName (set_defaults st) = isName st" "isSetType (set_defaults st) = HashIPPort"
    using *(2) by (simp_all add: set_defaults_def Let_def HashIPPort_def)
  ultimately show "inv w' \<and> isName st' = isName st \<and> isSetType st' = HashIPPort \<and> (sure \<longrightarrow> err = None) \<and>
      members w' = (if err = None
        then (members w)(isName st \<mapsto> (case members w (isName st) of None \<Rightarrow> {} | Some M \<Rightarrow> M)) else members w)"
    using tool_create [OF *(1,3) run] by (simp del: fun_upd_apply)
next
  fix w w' :: 'w and e st M err
  assume *: "inv w" "entry_ok e" "members w (isName st) = Some M" "AddEntry (ipset_New ex) e st True w = (err, w')"
  obtain out er w1 where run: "ipset_run ex [''add'', isName st, e, ''-exist''] w = ((out, er), w1)" by (metis prod.collapse)
  have "err = None \<longleftrightarrow> er = None" "w' = w1" using *(4) run by (auto simp: ipset_New_def runner_AddEntry_def ipset_do_def)
  then show "inv w' \<and> (sure \<longrightarrow> err = None) \<and>
      members w' = (if err = None then (members w)(isName st \<mapsto> insert e M) else members w)"
    using tool_add [OF *(1-3) run] by (simp del: fun_upd_apply)
next
  fix w w' :: 'w and n M e err
  assume *: "inv w" "members w n = Some M" "e \<in> M" "DelEntry (ipset_New ex) e n w = (err, w')"
  obtain out er w1 where run: "ipset_run ex [''del'', n, e] w = ((out, er), w1)" by (metis prod.collapse)
  have "err = None \<longleftrightarrow> er = None" "w' = w1" using *(4) run by (auto simp: ipset_New_def runner_DelEntry_def ipset_do_def)
  then show "inv w' \<and> (sure \<longrightarrow> err = None) \<and>
      members w' = (if err = None then (members w)(n \<mapsto> M - {e}) else members w)"
    using tool_del [OF *(1-3) run] by (simp del: fun_upd_apply)
next
  fix w w' :: 'w and n M res
  assume "inv w" "members w n = Some M" "n \<noteq> []" "ListEntries (ipset_New ex) n w = (res, w')"
  then show "inv w' \<and> members w' = members w \<and> (sure \<longrightarrow> (\<exists>es. res = Inr es)) \<and>
      (\<forall>es. res = Inr es \<longrightarrow> distinct es \<and> set es = M)"
    by (intro ListEntries_run) (simp_all add: ipset_New_def)
next
  fix w position t c args
  assume "sure" "inv w" "position \<in> {Prepend, Append}"
  then show "\<exists>b. fst (EnsureRule ex r position t c args w) = Inr b"
    by (rule Ensure_sure)
next
  fix w st b assume "inv w"
  then show "rules (snd (CreateSet (ipset_New ex) st b w)) = rules w"
    by (simp add: ipset_New_def Create_rules)
next
  fix w e st b assume "inv w"
  then show "rules (snd (AddEntry (ipset_New ex) e st b w)) = rules w"
    by (simp add: ipset_New_def runner_AddEntry_def ipset_do_world tool_ipset_rules)
next
  fix w e n assume "inv w"
  then show "rules (snd (DelEntry (ipset_New ex) e n w)) = rules w"
    by (simp add: ipset_New_def runner_DelEntry_def ipset_do_world tool_ipset_rules)
next
  fix w n assume "inv w"
  then show "rules (snd (ListEntries (ipset_New ex) n w)) = rules w"
    by (simp add: ipset_New_def List_rules)
qed (use Ensure_members in auto)

context netfilter_tools
begin

lemmas tools_outcome = build_outcome

end

subsection \<open>A simulation of the commands\<close>

type_synonym net_world = "rule_table \<times> (string \<Rightarrow> string list option)"

definition ipset_err :: "gerror \<Rightarrow> string \<times> exec_err option" where
  "ipset_err t = (t, Some (ExitError True 1 ''exit status 1''))"

fun sim_ipset :: "string list \<Rightarrow> (string \<Rightarrow> string list option) \<Rightarrow> (string \<times> exec_err option) \<times> (string \<Rightarrow> string list option)" where
  "sim_ipset [] s = (ipset_err ''no command'', s)"
| "sim_ipset (cmd # args) s =
     (case args of
        [] \<Rightarrow> (ipset_err ''no set'', s)
      | n # rs \<Rightarrow>
          if cmd = ''create''
          then (([], None), s(n \<mapsto> (case s n of None \<Rightarrow> [] | Some es \<Rightarrow> es)))
          else case s n of
                 None \<Rightarrow> (ipset_err ''The set with the given name does not exist'', s)
               | Some es \<Rightarrow>
                   if cmd = ''list'' then ((listing [''Type: hash:ip,port''] es, None), s)
                   else case rs of
                          [] \<Rightarrow> (ipset_err ''no entry'', s)
                        | e # _ \<Rightarrow>
                            if cmd = ''add'' then (([], None), s(n \<mapsto> (if e \<in> set es then es else es @ [e])))
                            else if cmd = ''del'' \<and> e \<in> set es then (([], None), s(n \<mapsto> removeAll e es))
                            else (ipset_err ''element is missing'', s))"

definition net_exec :: "net_world Exec" where
  "net_exec = \<lparr>CombinedOutput = (\<lambda>cmd args stdin w.
     if cmd = ''ipset'' then case sim_ipset args (snd w) of (res, s) \<Rightarrow> (res, (fst w, s))
     else case sim_iptables args (fst w) of (res, t) \<Rightarrow> (res, (t, snd w)))\<rparr>"

definition net_runner :: "net_world ipt_runner" where
  "net_runner = \<lparr>irProtocol = ProtocolIpv4, irHasCheck = True, irWaitFlag = [''-w5''], irRestoreWaitFlag = [''-w5''],
     irLockfilePath = LockfilePath16x, irReloadFuncs = [], irSignal = None\<rparr>"

definition entry_line :: "string \<Rightarrow> bool" where
  "entry_line e \<longleftrightarrow> e \<noteq> [] \<and> nl \<notin> set e \<and> e \<noteq> ''Members:''"

definition net_inv :: "net_world \<Rightarrow> bool" where
  "net_inv w \<longleftrightarrow> (\<forall>n es. snd w n = Some es \<longrightarrow> distinct es \<and> list_all entry_line es)"

definition net_members :: "net_world \<Rightarrow> string \<Rightarrow> string set option" where
  "net_members w n = map_option set (snd w n)"

lemma entry_ok_line:
  assumes "entry_ok e"
  shows "entry_line e"
proof -
  obtain a b c d proto port where e: "e = ipport_text (show_v4 [a, b, c, d]) proto port"
      and proto: "proto = ''tcp'' \<or> proto = ''udp''" and port: "0 \<le> port"
    using assms unfolding entry_ok_def by blast
  have dig: "nl \<notin> set (show_nat n)" for n
    using show_nat_digits [of n] by (auto simp: list_all_iff is_digit_def)
  obtain x xs where x: "show_nat (unat a) = x # xs" "is_digit x"
    using show_nat_digits [of "unat a"] show_nat_nonempty [of "unat a"] by (cases "show_nat (unat a)") auto
  have "hd e = x" unfolding e by (simp add: ipport_text_def show_v4_def x)
  moreover have "x \<noteq> CHR ''M''" using x(2) by (auto simp: is_digit_def)
  ultimately have "e \<noteq> ''Members:''" by auto
  moreover have "nl \<notin> set e" "e \<noteq> []"
    using dig proto port unfolding e by (auto simp: ipport_text_def show_v4_def Itoa_def)
  ultimately show ?thesis by (simp add: entry_line_def)
qed

lemma net_inv_update:
  "net_inv w \<Longrightarrow> distinct es \<Longrightarrow> list_all entry_line es \<Longrightarrow> net_inv (t, (snd w)(n \<mapsto> es))"
  by (auto simp: net_inv_def)

lemma net_iptables: "net_inv w \<Longrightarrow> net_inv (t, snd w)"
  by (simp add: net_inv_def)

lemma net_ipt_run:
  "ipt_run net_exec net_runner op args w =
     (case sim_iptables (''-w5'' # op # args) (fst w) of (res, t) \<Rightarrow> (res, (t, snd w)))"
  by (simp add: ipt_run_def net_exec_def net_runner_def iptablesCommand_def)

lemma net_ipset_run:
  "ipset_run net_exec args w = (case sim_ipset args (snd w) of (res, s) \<Rightarrow> (res, (fst w, s)))"
  by (simp add: ipset_run_def net_exec_def IPSetCmd_def)

interpretation simn: netfilter_tools net_exec net_runner net_inv fst net_members True
proof
  show "irHasCheck net_runner" by (simp add: net_runner_def)
next
  fix w t c args out err w'
  assume "net_inv w" "ipt_run net_exec net_runner opCheckRule (makeFullArgs t c args) w = ((out, err), w')"
  then show "net_inv w' \<and> fst w' = fst w \<and> (err = None \<longrightarrow> args \<in> set (fst w (t, c))) \<and>
      (\<forall>e. err = Some e \<longrightarrow> exited_1 e \<longrightarrow> args \<notin> set (fst w (t, c)))"
    by (auto simp: net_ipt_run makeFullArgs_def net_iptables split: if_splits)
next
  fix w position t c args out err w'
  assume "net_inv w" "position \<in> {Prepend, Append}"
    "ipt_run net_exec net_runner position (makeFullArgs t c args) w = ((out, err), w')"
  then show "net_inv w' \<and>
      fst w' = (if err = None then (fst w)((t, c) := place position args (fst w (t, c))) else fst w)"
    using ops_distinct by (auto simp: net_ipt_run makeFullArgs_def net_iptables)
next
  fix w args t c out err w'
  assume "net_inv w" "args \<in> set (fst w (t, c))"
    "ipt_run net_exec net_runner opDeleteRule (makeFullArgs t c args) w = ((out, err), w')"
  then show "net_inv w' \<and> fst w' = (if err = None then (fst w)((t, c) := remove1 args (fst w (t, c))) else fst w)"
    using ops_distinct by (auto simp: net_ipt_run makeFullArgs_def net_iptables)
next
  fix w w' n out err
  assume *: "net_inv w" "ipset_run net_exec [''create'', n, ''hash:ip,port'', ''family'', ''inet'', ''hashsize'', ''1024'',
    ''maxelem'', ''65536'', ''-exist''] w = ((out, err), w')"
  then show "net_inv w' \<and> (True \<longrightarrow> err = None) \<and>
      net_members w' = (if err = None
        then (net_members w)(n \<mapsto> (case net_members w n of None \<Rightarrow> {} | Some M \<Rightarrow> M)) else net_members w)"
    by (auto simp: net_ipset_run net_members_def net_inv_def split: option.splits if_splits)
next
  fix w w' e n M out err
  assume "net_inv w" "entry_ok e" "net_members w n = Some M"
    "ipset_run net_exec [''add'', n, e, ''-exist''] w = ((out, err), w')"
  then show "net_inv w' \<and> (True \<longrightarrow> err = None) \<and>
      net_members w' = (if err = None then (net_members w)(n \<mapsto> insert e M) else net_members w)"
    using entry_ok_line by (auto simp: net_ipset_run net_members_def net_inv_def split: option.splits if_splits)
next
  fix w w' n M e out err
  assume "net_inv w" "net_members w n = Some M" "e \<in> M" "ipset_run net_exec [''del'', n, e] w = ((out, err), w')"
  then show "net_inv w' \<and> (True \<longrightarrow> err = None) \<and>
      net_members w' = (if err = None then (net_members w)(n \<mapsto> M - {e}) else net_members w)"
    by (auto simp: net_ipset_run net_members_def net_inv_def list_all_iff distinct_removeAll split: option.splits if_splits)
next
  fix w w' n M out err
  assume *: "net_inv w" "net_members w n = Some M" "ipset_run net_exec [''list'', n] w = ((out, err), w')"
  obtain es where es: "snd w n = Some es" "M = set es" using *(2) by (auto simp: net_members_def)
  have "out = listing [''Type: hash:ip,port''] es" "err = None" "w' = w" using *(3) es by (auto simp: net_ipset_run)
  moreover have "distinct es" "list_all entry_line es" using *(1) es by (auto simp: net_inv_def)
  moreover have "\<forall>h \<in> set [''Type: hash:ip,port'']. nl \<notin> set h" by simp
  moreover have "\<forall>e \<in> set es. e \<noteq> [] \<and> nl \<notin> set e \<and> e \<noteq> ''Members:''"
    using \<open>list_all entry_line es\<close> unfolding list_all_iff entry_line_def .
  ultimately show "net_inv w' \<and> net_members w' = net_members w \<and> (True \<longrightarrow> err = None) \<and>
      (err = None \<longrightarrow> (\<exists>header entries. out = listing header entries \<and> (\<forall>h \<in> set header. nl \<notin> set h) \<and>
         (\<forall>e \<in> set entries. e \<noteq> [] \<and> nl \<notin> set e \<and> e \<noteq> ''Members:'') \<and> distinct entries \<and> set entries = M))"
    using *(1) es(2) by blast
next
  fix w args
  show "fst (snd (ipset_run net_exec args w)) = fst w" by (simp add: net_ipset_run split: prod.splits)
next
  fix w op args assume "net_inv w"
  then show "net_inv (snd (ipt_run net_exec net_runner op args w)) \<and>
      net_members (snd (ipt_run net_exec net_runner op args w)) = net_members w"
    by (auto simp: net_ipt_run net_iptables net_members_def fun_eq_iff split: prod.splits)
next
  fix w t c args out er w'
  assume "ipt_run net_exec net_runner opCheckRule (makeFullArgs t c args) w = ((out, Some er), w')"
  then show "exited_1 er" by (auto simp: net_ipt_run makeFullArgs_def split: if_splits)
next
  fix w position t c args
  assume "position \<in> {Prepend, Append}"
  then show "snd (fst (ipt_run net_exec net_runner position (makeFullArgs t c args) w)) = None"
    using ops_distinct by (auto simp: net_ipt_run makeFullArgs_def)
qed

end
