(* ===== verification/LvsBuild.thy ===== *)
theory LvsBuild
  imports LvsNetTools
begin

text \<open>
  The properties of the whole of \<open>Build\<close>: the setting of the kernel, the rules and the ipset, the
  virtual and real servers, and that the last two fit together.
\<close>

definition conntrack_path :: string where
  "conntrack_path = path_Join [sysctlBase, ''net/ipv4/vs/conntrack'']"

definition lvs_adaptor :: "'k ipvs_Handle \<Rightarrow> 'w Exec \<Rightarrow> 'w LockOS \<Rightarrow> nat \<Rightarrow> 'w ipt_runner \<Rightarrow> IP \<Rightarrow> ('w, 'k) LVSAdaptor" where
  "lvs_adaptor kh ex os n r addr =
     \<lparr>lvsHandler = lvs_New (Inr kh), iptHandler = ipt_handler ex os n r, ipsetHandler = ipset_New ex,
      virtualServerAddress = addr\<rparr>"

lemma Build_parts:
  assumes "lvs_Build fs (lvs_adaptor kh ex os n r addr) ord rank lbSvcs eps h = (res, h')"
  shows "res = Returns ()" "h_files h' = checkSysctl fs (h_files h)"
    "h_net h' = buildIptables (ipt_handler ex os n r) (ipset_New ex) rank addr (port_service_map lbSvcs) (h_net h)"
    "h_ipvs h' = sync_lvs (lvs_runner kh) ord addr (eps_map lbSvcs eps) (port_service_map lbSvcs) (h_ipvs h)"
  using assms by (auto simp: lvs_Build_def lvs_adaptor_def lvs_New_def eps_map_def Let_def)

lemma checkSysctl_vals:
  assumes "proc_files_reliable fs vals"
  shows "vals (checkSysctl fs f) =
    (if vals f conntrack_path = None then vals f else (vals f)(conntrack_path \<mapsto> 1))"
proof -
  obtain e f' where run: "EnsureSysctl fs ''net/ipv4/vs/conntrack'' 1 f = (e, f')" by force
  have "- (2 ^ 63) \<le> (1 :: int)" "(1 :: int) < 2 ^ 63" by simp_all
  from proc_files_reliable.Ensure_sets [OF assms this run] run show ?thesis
    unfolding checkSysctl_def conntrack_path_def by simp
qed

lemma net_outcome:
  assumes "netfilter_tools ex r ninv rules members sure" "inputs_ok addr lbSvcs eps" "length (To4 addr) = 4"
    and "ninv w" "\<forall>k. distinct (rules w k)"
    and "w' = buildIptables (ipt_handler ex os n r) (ipset_New ex) rank addr (port_service_map lbSvcs) w"
  shows "ninv w' \<and> rules_outcome sure constRules (rules w) (rules w') \<and>
    (\<forall>n. n \<noteq> ipsetName \<longrightarrow> members w' n = members w n) \<and>
    set_outcome sure (want_entries addr lbSvcs) (members w ipsetName) (members w' ipsetName)"
  by (rule netfilter_tools.tools_outcome [OF assms(1) _ assms(4,5) want_entries_ok [OF assms(2,3)] assms(6)])
    (simp add: ipt_handler_def)

text \<open>
  C9. \<open>buildIptables\<close> over the runners of \<^verbatim>\<open>utils/ipset\<close> and \<^verbatim>\<open>utils/iptables\<close>: no rule of any chain is
  lost, at most the three constant rules are added and none of them twice; other ipsets keep
  their entries; in its own ipset no wanted entry is lost and no unwanted one added whatever
  fails, and when nothing fails (\<open>sure\<close>) the rules are all there and the ipset holds exactly the
  balancer's address with each protocol and port that a service has.
\<close>

theorem buildIptables_outcome:
  assumes "netfilter_tools ex r ninv rules members sure" "inputs_ok addr lbSvcs eps" "length (To4 addr) = 4"
    and "ninv w" "\<forall>k. distinct (rules w k)"
  shows "let w' = buildIptables (ipt_handler ex os n r) (ipset_New ex) rank addr (port_service_map lbSvcs) w
    in rules_outcome sure constRules (rules w) (rules w') \<and> (\<forall>n. n \<noteq> ipsetName \<longrightarrow> members w' n = members w n) \<and>
       set_outcome sure (want_entries addr lbSvcs) (members w ipsetName) (members w' ipsetName)"
  using net_outcome [OF assms refl] by (simp add: Let_def del: split_paired_All)

text \<open>No locks are needed: the simulated commands wait for themselves.\<close>

definition net_locks :: "net_world LockOS" where
  "net_locks = \<lparr>OpenFile = (\<lambda>path w. (Some ''not used'', w)), Flock = (\<lambda>w. (Some ''not used'', w)),
     ListenUnix = (\<lambda>w. (Some ''not used'', w)), Close16 = (\<lambda>w. (None, w)), Close14 = (\<lambda>w. (None, w))\<rparr>"

lemma demo_net_start: "net_inv (\<lambda>_. [], Map.empty)" "\<forall>k. distinct (fst (\<lambda>_. [], Map.empty) k)" "length (To4 demo_addr) = 4"
  by (simp_all add: net_inv_def demo_addr_def To4_def)

lemma demo_want_entries: "want_entries demo_addr [demo_svc] = {''10.0.0.1,tcp:80''}"
proof -
  have "serves demo_svc i p \<longleftrightarrow> i = 0 \<and> p = 80" for i p
    by (auto simp: serves_def demo_svc_def protolcolIndex_def ProtocolUDP_def)
  then show ?thesis
    by (auto simp: want_entries_def ipport_text_def demo_addr_def go_eval intro!: exI [of _ 0])
qed

theorem buildIptables_outcome_witness:
  "netfilter_tools net_exec net_runner net_inv fst net_members True \<and>
   net_members (buildIptables (ipt_handler net_exec net_locks 10 net_runner) (ipset_New net_exec) (\<lambda>_ _. 0) demo_addr
     (port_service_map [demo_svc]) (\<lambda>_. [], Map.empty)) ipsetName = Some {''10.0.0.1,tcp:80''}"
  using buildIptables_outcome [OF simn.netfilter_tools_axioms demo_inputs demo_net_start(3,1,2), of net_locks 10 "\<lambda>_ _. 0"]
    simn.netfilter_tools_axioms
  by (simp add: Let_def set_outcome_def demo_want_entries)

text \<open>
  C5. The whole of \<open>Build\<close>, from every state of the machine, when no command, no request to the
  kernel and no access to a setting fails: the ipvs table is the intended one, the ipset holds
  exactly the balancer's address with the served ports, the three rules are in place, the
  connection tracking setting is 1 if the kernel has it, and every other rule, ipset and kernel
  setting is as it was.
\<close>

theorem Build_converges:
  assumes "proc_files_reliable fs vals" "netfilter_tools ex r ninv rules members True" "ipvs_kernel_reliable kh kinv ktab"
    and "inputs_ok addr lbSvcs eps" "length (To4 addr) = 4"
    and "ninv (h_net h)" "\<forall>k. distinct (rules (h_net h) k)" "kinv (h_ipvs h)"
    and "lvs_Build fs (lvs_adaptor kh ex os n r addr) ord rank lbSvcs eps h = (res, h')"
  shows "res = Returns () \<and> ktab (h_ipvs h') = want addr lbSvcs eps \<and>
    members (h_net h') = (members (h_net h))(ipsetName \<mapsto> want_entries addr lbSvcs) \<and>
    rules_outcome True constRules (rules (h_net h)) (rules (h_net h')) \<and>
    vals (h_files h') =
      (if vals (h_files h) conntrack_path = None then vals (h_files h) else (vals (h_files h))(conntrack_path \<mapsto> 1))"
proof -
  note parts = Build_parts [OF assms(9)]
  note net = net_outcome [OF assms(2,4-7) parts(3)]
  have "ktab (h_ipvs h') = want addr lbSvcs eps"
    unfolding parts(4) by (rule ipvs_kernel_reliable.kernel_sync_converges [OF assms(3,4,8)])
  moreover have "members (h_net h') = (members (h_net h))(ipsetName \<mapsto> want_entries addr lbSvcs)"
    using net by (auto simp: set_outcome_def fun_eq_iff)
  moreover note checkSysctl_vals [OF assms(1), of "h_files h", folded parts(2)]
  ultimately show ?thesis using net parts(1) by blast
qed

definition demo_host :: "(string \<rightharpoonup> int, net_world, kernel) host" where
  "demo_host = \<lparr>h_files = [''/proc/sys/net/ipv4/vs/conntrack'' \<mapsto> 0], h_net = (\<lambda>_. [], Map.empty), h_ipvs = demo_kernel\<rparr>"

lemma conntrack_path_text: "conntrack_path = ''/proc/sys/net/ipv4/vs/conntrack''"
  by (simp add: conntrack_path_def path_Join_def path_Clean_def sysctlBase_def Let_def go_eval)

theorem Build_converges_witness:
  "case lvs_Build map_files (lvs_adaptor kernel_handle net_exec net_locks 10 net_runner demo_addr) demo_ord (\<lambda>_ _. 0)
      [demo_svc] [demo_eps] demo_host of
     (res, h') \<Rightarrow> res = Returns () \<and> kernel_tab (h_ipvs h') = want demo_addr [demo_svc] [demo_eps] \<and>
       net_members (h_net h') ipsetName = Some {''10.0.0.1,tcp:80''} \<and>
       int64_vals (h_files h') ''/proc/sys/net/ipv4/vs/conntrack'' = Some 1"
proof -
  obtain res h' where run: "lvs_Build map_files (lvs_adaptor kernel_handle net_exec net_locks 10 net_runner demo_addr) demo_ord
      (\<lambda>_ _. 0) [demo_svc] [demo_eps] demo_host = (res, h')" by force
  have start: "net_inv (h_net demo_host)" "\<forall>k. distinct (fst (h_net demo_host) k)" "kernel_inv (h_ipvs demo_host)"
    using demo_net_start demo_kernel_inv by (simp_all add: demo_host_def)
  have "int64_vals (h_files demo_host) conntrack_path = Some 0"
    by (simp add: int64_vals_def demo_host_def conntrack_path_text)
  with Build_converges [OF map_proc_sure.proc_files_reliable_axioms simn.netfilter_tools_axioms kern.ipvs_kernel_reliable_axioms
      demo_inputs demo_net_start(3) start run]
  show ?thesis unfolding run by (simp add: demo_want_entries conntrack_path_text)
qed

subsection \<open>Virtual servers and marked traffic\<close>

definition proto_name :: "u16 \<Rightarrow> string" where
  "proto_name pr = (if pr = IPPROTO_UDP then ''udp'' else ''tcp'')"

lemma IP_String_no_comma:
  assumes "length (To4 ip) = 4"
  shows "CHR '','' \<notin> set (IP_String ip)"
proof -
  obtain a b c d where "To4 ip = [a, b, c, d]" using assms by (auto simp: length_Suc_conv eval_nat_numeral)
  then have "IP_String ip = show_v4 [a, b, c, d]" using assms by (auto simp: IP_String_def To4_def)
  moreover have "CHR '','' \<notin> set (show_nat k)" for k
    using show_nat_digits [of k] by (auto simp: list_all_iff is_digit_def)
  ultimately show ?thesis by (simp add: show_v4_def)
qed

lemma entry_iff_wanted:
  assumes "inputs_ok addr lbSvcs eps" "length (To4 addr) = 4" "pr = IPPROTO_TCP \<or> pr = IPPROTO_UDP"
  shows "ipport_text (IP_String addr) (proto_name pr) (uint port) \<in> want_entries addr lbSvcs \<longleftrightarrow>
    want addr lbSvcs eps (canonIP addr, pr, port) \<noteq> None"
proof -
  have protos: "CHR '':'' \<notin> set ''tcp''" "CHR '':'' \<notin> set ''udp''" by simp_all
  have inj: "ipport_text (IP_String addr) (proto_name pr) (uint port) =
      ipport_text (IP_String addr) (if i = 1 then ''udp'' else ''tcp'') (sint p) \<longleftrightarrow>
      proto_name pr = (if i = 1 then ''udp'' else ''tcp'') \<and> uint port = sint p" for i :: nat and p
    using ipport_text_inj [OF IP_String_no_comma IP_String_no_comma, OF assms(2,2)] protos
    by (auto simp: proto_name_def)
  have nm: "proto_name pr = (if i = 1 then ''udp'' else ''tcp'') \<longleftrightarrow> i = proto_index pr" if "i < 2" for i
    using that assms(3) by (auto simp: proto_name_def proto_index_def less_2_cases_iff IPPROTO_TCP_def IPPROTO_UDP_def)
  have pt: "uint port = sint p \<longleftrightarrow> p = ucast port" if "unat p < 65536" for p :: int32
  proof -
    have "sint p = int (unat p)" using that by (intro sint_small) simp
    then show ?thesis
      by (simp only: uint_nat of_nat_eq_iff word_unat_eq_iff [of p] unat_ucast_up) auto
  qed
  have small: "unat p < 65536" if "svc \<in> set lbSvcs" "serves svc i p" for svc i p
    using assms(1) that by (auto simp: inputs_ok_def serves_def)
  have "ipport_text (IP_String addr) (proto_name pr) (uint port) \<in> want_entries addr lbSvcs \<longleftrightarrow>
      (\<exists>i p. i < 2 \<and> (proto_name pr = (if i = 1 then ''udp'' else ''tcp'') \<and> uint port = sint p) \<and>
         (\<exists>svc \<in> set lbSvcs. serves svc i p))"
    unfolding want_entries_def mem_Collect_eq inj by blast
  also have "\<dots> \<longleftrightarrow> (\<exists>svc \<in> set lbSvcs. serves svc (proto_index pr) (ucast port))"
  proof
    assume "\<exists>i p. i < 2 \<and> (proto_name pr = (if i = 1 then ''udp'' else ''tcp'') \<and> uint port = sint p) \<and>
         (\<exists>svc \<in> set lbSvcs. serves svc i p)"
    then obtain i p svc where *: "i < 2" "proto_name pr = (if i = 1 then ''udp'' else ''tcp'')" "uint port = sint p"
        "svc \<in> set lbSvcs" "serves svc i p"
      by (elim exE conjE bexE)
    from nm [OF *(1)] pt [OF small [OF *(4,5)]] *(2-5)
    show "\<exists>svc \<in> set lbSvcs. serves svc (proto_index pr) (ucast port)" by (intro bexI [of _ svc]) simp_all
  next
    assume "\<exists>svc \<in> set lbSvcs. serves svc (proto_index pr) (ucast port)"
    then obtain svc where *: "svc \<in> set lbSvcs" "serves svc (proto_index pr) (ucast port)" by (elim bexE)
    have i: "proto_index pr < 2" by (simp add: proto_index_def)
    show "\<exists>i p. i < 2 \<and> (proto_name pr = (if i = 1 then ''udp'' else ''tcp'') \<and> uint port = sint p) \<and>
         (\<exists>svc \<in> set lbSvcs. serves svc i p)"
      using i nm [OF i] pt [OF small [OF *]] * by (intro exI [of _ "proto_index pr"] exI [of _ "ucast port"] conjI bexI [of _ svc]) simp_all
  qed
  also have "\<dots> \<longleftrightarrow> want addr lbSvcs eps (canonIP addr, pr, port) \<noteq> None"
    using assms(3) by (auto simp: want_def)
  finally show ?thesis .
qed

text \<open>
  C8. The two halves of \<open>Build\<close> fit together: after a run in which nothing fails there is a virtual
  server for a protocol and port exactly when the ipset, which the marking rules match against,
  has the entry of that protocol and port, so exactly the balanced traffic is masqueraded.
\<close>

theorem Build_marks_balanced:
  assumes "netfilter_tools ex r ninv rules members True" "ipvs_kernel_reliable kh kinv ktab"
    and "inputs_ok addr lbSvcs eps" "length (To4 addr) = 4" "pr = IPPROTO_TCP \<or> pr = IPPROTO_UDP"
    and "ninv (h_net h)" "\<forall>k. distinct (rules (h_net h) k)" "kinv (h_ipvs h)"
    and "lvs_Build fs (lvs_adaptor kh ex os n r addr) ord rank lbSvcs eps h = (res, h')"
  shows "\<exists>E. members (h_net h') ipsetName = Some E \<and>
    (ipport_text (IP_String addr) (proto_name pr) (uint port) \<in> E \<longleftrightarrow> ktab (h_ipvs h') (canonIP addr, pr, port) \<noteq> None)"
proof -
  note parts = Build_parts [OF assms(9)]
  have "members (h_net h') ipsetName = Some (want_entries addr lbSvcs)"
    using net_outcome [OF assms(1,3,4,6,7) parts(3)] by (simp add: set_outcome_def)
  moreover have "ktab (h_ipvs h') = want addr lbSvcs eps"
    unfolding parts(4) by (rule ipvs_kernel_reliable.kernel_sync_converges [OF assms(2,3,8)])
  ultimately show ?thesis using entry_iff_wanted [OF assms(3-5)] by simp
qed

theorem Build_marks_balanced_witness:
  "case lvs_Build map_files (lvs_adaptor kernel_handle net_exec net_locks 10 net_runner demo_addr) demo_ord (\<lambda>_ _. 0)
      [demo_svc] [demo_eps] demo_host of
     (res, h') \<Rightarrow> (\<exists>E. net_members (h_net h') ipsetName = Some E \<and>
       (''10.0.0.1,tcp:80'' \<in> E \<longleftrightarrow> kernel_tab (h_ipvs h') (canonIP demo_addr, IPPROTO_TCP, 80) \<noteq> None))"
proof -
  obtain res h' where run: "lvs_Build map_files (lvs_adaptor kernel_handle net_exec net_locks 10 net_runner demo_addr) demo_ord
      (\<lambda>_ _. 0) [demo_svc] [demo_eps] demo_host = (res, h')" by force
  have start: "net_inv (h_net demo_host)" "\<forall>k. distinct (fst (h_net demo_host) k)" "kernel_inv (h_ipvs demo_host)"
    using demo_net_start demo_kernel_inv by (simp_all add: demo_host_def)
  have e: "ipport_text (IP_String demo_addr) (proto_name IPPROTO_TCP) (uint (80 :: u16)) = ''10.0.0.1,tcp:80''"
    by (simp add: ipport_text_def demo_addr_def proto_name_def IPPROTO_TCP_def IPPROTO_UDP_def go_eval)
  from Build_marks_balanced [OF simn.netfilter_tools_axioms kern.ipvs_kernel_reliable_axioms
      demo_inputs demo_net_start(3) disjI1 [OF refl] start run, of 80]
  show ?thesis unfolding run e by simp
qed

text \<open>
  Without an ipvs handle (\<open>lvs.New\<close> then returns a nil interface and the adaptor keeps it) \<open>Build\<close>
  panics, after it has already changed the rules and the ipset.
\<close>

theorem Build_without_handle:
  "lvs_New (Inl err :: gerror + 'k ipvs_Handle) = (None :: 'k lvs_Interface option) \<and>
   lvs_Build fs \<lparr>lvsHandler = None, iptHandler = ipt, ipsetHandler = ips, virtualServerAddress = addr\<rparr> ord rank lbSvcs eps h =
     (Panics, h\<lparr>h_files := checkSysctl fs (h_files h),
                h_net := buildIptables ipt ips rank addr (port_service_map lbSvcs) (h_net h)\<rparr>)"
  by (simp add: lvs_New_def lvs_Build_def Let_def)

end
