(* ===== verification/Template.thy ===== *)
theory Template
  imports Prelude
begin

text \<open>
  The part of \<open>text/template\<close> the sources use: texts with the actions \<^verbatim>\<open>{{.Field}}\<close>,
  \<^verbatim>\<open>{{range .Field}}\<close>, \<^verbatim>\<open>{{if ne .Field "text"}}\<close> and \<^verbatim>\<open>{{end}}\<close>. \<open>template_Parse\<close> cuts the text at its delimiters
  and nests the actions, \<open>Execute\<close> writes the text for a value; it stops at the first error and
  keeps what is written. Other actions are refused.
\<close>

datatype tnode = TText string | TField string | TRange string "tnode list" | TIfNe string string "tnode list"

type_synonym Template = "tnode list"

text \<open>The values a template is executed on, and how \<open>fmt\<close> prints them.\<close>

datatype tval = VStr string | VInt int | VList "tval list" | VStruct "(string \<times> tval) list"

subsection \<open>Parsing\<close>

datatype ttoken = Text string | Action string

text \<open>The text between the delimiters \<^verbatim>\<open>{{\<close> and \<^verbatim>\<open>}}\<close>; the flag says whether an action is open.\<close>

function lex_template :: "bool \<Rightarrow> string \<Rightarrow> string \<Rightarrow> gerror + ttoken list" where
  "lex_template act acc s =
     (if act \<and> take 2 s = ''}}''
      then (case lex_template False [] (drop 2 s) of Inl e \<Rightarrow> Inl e | Inr ts \<Rightarrow> Inr (Action acc # ts))
      else if \<not> act \<and> take 2 s = ''{{''
      then (case lex_template True [] (drop 2 s) of
              Inl e \<Rightarrow> Inl e | Inr ts \<Rightarrow> Inr (if acc = [] then ts else Text acc # ts))
      else case s of
             [] \<Rightarrow> if act then Inl ''unclosed action'' else Inr (if acc = [] then [] else [Text acc])
           | c # s' \<Rightarrow> lex_template act (acc @ [c]) s')"
  by pat_completeness auto
termination
proof (relation "measure (\<lambda>(act, acc, s). length s)")
  fix act acc and s :: string assume "act \<and> take 2 s = ''}}''"
  then show "((False, [], drop 2 s), act, acc, s) \<in> measure (\<lambda>(act, acc, s). length s)" by (cases s) auto
next
  fix act acc and s :: string assume "\<not> act \<and> take 2 s = ''{{''"
  then show "((True, [], drop 2 s), act, acc, s) \<in> measure (\<lambda>(act, acc, s). length s)" by (cases s) auto
qed auto

declare lex_template.simps [simp del]

datatype taction = AField string | ARange string | AIfNe string string | AEnd

definition is_field :: "string \<Rightarrow> bool" where
  "is_field w \<longleftrightarrow> length w > 1 \<and> hd w = CHR ''.'' \<and> CHR ''.'' \<notin> set (tl w)"

definition is_quoted :: "string \<Rightarrow> bool" where
  "is_quoted w \<longleftrightarrow> length w > 1 \<and> hd w = quote \<and> last w = quote \<and>
     quote \<notin> set (butlast (tl w)) \<and> CHR 0x5C \<notin> set w"

definition parse_action :: "string \<Rightarrow> gerror + taction" where
  "parse_action act =
     (let ws = filter (\<lambda>w. w \<noteq> []) (Split act (CHR '' ''))
      in if ws = [''end''] then Inr AEnd
         else if length ws = 2 \<and> ws ! 0 = ''range'' \<and> is_field (ws ! 1) then Inr (ARange (tl (ws ! 1)))
         else if length ws = 4 \<and> ws ! 0 = ''if'' \<and> ws ! 1 = ''ne'' \<and> is_field (ws ! 2) \<and> is_quoted (ws ! 3)
              then Inr (AIfNe (tl (ws ! 2)) (butlast (tl (ws ! 3))))
         else if length ws = 1 \<and> is_field (ws ! 0) then Inr (AField (tl (ws ! 0)))
         else Inl (''unexpected '' @ act))"

text \<open>Nesting: the nodes of the open block and, outside it, the blocks that are open around it.\<close>

fun nest :: "ttoken list \<Rightarrow> (taction \<times> tnode list) list \<Rightarrow> tnode list \<Rightarrow> gerror + tnode list" where
  "nest [] open nodes = (if open = [] then Inr nodes else Inl ''unexpected EOF'')"
| "nest (Text t # ts) open nodes = nest ts open (nodes @ [TText t])"
| "nest (Action a # ts) open nodes =
     (case parse_action a of
        Inl e \<Rightarrow> Inl e
      | Inr AEnd \<Rightarrow>
          (case open of
             [] \<Rightarrow> Inl ''unexpected {{end}}''
           | (b, outer) # open' \<Rightarrow>
               nest ts open'
                 (outer @ [case b of ARange f \<Rightarrow> TRange f nodes | AIfNe f x \<Rightarrow> TIfNe f x nodes | _ \<Rightarrow> TText []]))
      | Inr (AField f) \<Rightarrow> nest ts open (nodes @ [TField f])
      | Inr b \<Rightarrow> nest ts ((b, nodes) # open) [])"

definition template_Parse :: "string \<Rightarrow> gerror + Template" where
  "template_Parse s = (case lex_template False [] s of Inl e \<Rightarrow> Inl e | Inr ts \<Rightarrow> nest ts [] [])"

definition template_Must :: "gerror + 'a \<Rightarrow> 'a gocall" where
  "template_Must r = (case r of Inl e \<Rightarrow> Panics | Inr t \<Rightarrow> Returns t)"

subsection \<open>Execution\<close>

fun print_val :: "tval \<Rightarrow> string" where
  "print_val (VStr s) = s"
| "print_val (VInt i) = Itoa i"
| "print_val (VList vs) = ''['' @ Join (map print_val vs) '' '' @ '']''"
| "print_val (VStruct fs) = ''{'' @ Join (map (\<lambda>f. print_val (snd f)) fs) '' '' @ ''}''"

definition field_of :: "tval \<Rightarrow> string \<Rightarrow> tval option" where
  "field_of v f = (case v of VStruct fs \<Rightarrow> map_of fs f | _ \<Rightarrow> None)"

fun run_all :: "('a \<Rightarrow> string \<times> gerror option) \<Rightarrow> 'a list \<Rightarrow> string \<times> gerror option" where
  "run_all f [] = ([], None)"
| "run_all f (x # xs) =
     (case f x of (out, Some e) \<Rightarrow> (out, Some e) | (out, None) \<Rightarrow> map_prod (\<lambda>out'. out @ out') id (run_all f xs))"

lemma run_all_cong [fundef_cong]: "xs = ys \<Longrightarrow> (\<And>x. x \<in> set ys \<Longrightarrow> f x = g x) \<Longrightarrow> run_all f xs = run_all g ys"
proof (induction ys arbitrary: xs)
  case (Cons y ys)
  then have "run_all f ys = run_all g ys" "f y = g y" by simp_all
  with Cons.prems(1) show ?case by simp
qed simp

fun exec_node :: "tval \<Rightarrow> tnode \<Rightarrow> string \<times> gerror option" where
  "exec_node v (TText t) = (t, None)"
| "exec_node v (TField f) =
     (case field_of v f of None \<Rightarrow> ([], Some (''can't evaluate field '' @ f)) | Some x \<Rightarrow> (print_val x, None))"
| "exec_node v (TRange f body) =
     (case field_of v f of
        None \<Rightarrow> ([], Some (''can't evaluate field '' @ f))
      | Some (VList xs) \<Rightarrow> run_all (\<lambda>x. run_all (exec_node x) body) xs
      | Some x \<Rightarrow> ([], Some (''range can't iterate over '' @ print_val x)))"
| "exec_node v (TIfNe f t body) =
     (case field_of v f of
        None \<Rightarrow> ([], Some (''can't evaluate field '' @ f))
      | Some (VStr s) \<Rightarrow> if s \<noteq> t then run_all (exec_node v) body else ([], None)
      | Some x \<Rightarrow> ([], Some ''error calling ne: incompatible types for comparison''))"

definition Execute :: "Template \<Rightarrow> tval \<Rightarrow> string \<times> gerror option" where
  "Execute t v = run_all (exec_node v) t"

text \<open>A range whose body writes \<open>g x\<close> for the value of each \<open>x\<close>.\<close>

lemma run_all_range:
  assumes "\<And>x. run_all (exec_node (h x)) body = (g x, None)"
  shows "run_all (\<lambda>v. run_all (exec_node v) body) (map h xs) = (concat (map g xs), None)"
  by (induction xs) (simp_all add: assms)

end
