(* ===== verification/HaproxyConf.thy ===== *)
theory HaproxyConf
  imports Kube Template
begin

text \<open>
  \<^verbatim>\<open>haproxy/template.go\<close> and \<^verbatim>\<open>haproxy/adaptor/adaptor.go\<close>: the configuration of haproxy. The templates are
  the texts of the source, parsed and executed by the model of \<open>text/template\<close>; what they write is
  said again as plain functions (\<open>frontend_text\<close>, \<open>backend_text\<close>).
\<close>

subsection \<open>template.go\<close>

record Bind =
  bdIP :: string
  bdPort :: int

record Frontend =
  feName :: string
  feBinds :: "Bind list"
  feMode :: string
  feDefaultBackend :: string

record Server =
  srName :: string
  srIP :: string
  srPort :: int

record Backend =
  beName :: string
  beServers :: "Server list"
  beMode :: string

text \<open>A line of the templates: a tab, a keyword, a tab, the rest.\<close>

definition kw :: "string \<Rightarrow> string \<Rightarrow> string" where
  "kw k v = [tab] @ k @ [tab] @ v"

definition sample_lines :: "string list" where
  "sample_lines =
     [''# haproxy sample from kube-bmlb'',
      ''global'',
      kw ''maxconn'' ''20000'',
      kw ''ulimit-n'' ''16384'',
      kw ''log'' (''127.0.0.1'' @ [tab] @ ''local0''),
      kw ''uid'' ''200'',
      kw ''gid'' ''200'',
      kw ''chroot'' ''/var/empty'',
      kw ''nbproc'' ''4'',
      [tab] @ ''daemon'',
      [],
      ''listen stats'',
      kw ''bind'' '':8081'',
      kw ''mode'' ''http'',
      kw ''stats'' ''enable'',
      kw ''stats'' ''hide-version'',
      kw ''stats'' (''realm Haproxy'' @ [CHR 0x5C] @ '' Statistics  # Title text for popup window''),
      kw ''stats'' ''uri /'',
      kw ''stats'' (''auth'' @ [tab] @ ''admin:admin'')]"

definition GetSampleTemplate :: string where
  "GetSampleTemplate = lines sample_lines"

definition GetFrontendTemplate :: string where
  "GetFrontendTemplate =
     lines [[], ''frontend {{.Name}}{{range .Binds}}'',
            kw ''bind'' ''{{.IP}}:{{.Port}}{{end}}'',
            ''{{if ne .Mode '' @ [quote, quote] @ ''}}'' @ kw ''Mode'' ''{{.Mode}}{{end}}'',
            kw ''log'' ''global'', kw ''option'' ''httplog'', kw ''option'' ''dontlognull'', kw ''option'' ''nolinger'',
            kw ''option'' ''http_proxy'', kw ''maxconn'' ''8000'', kw ''timeout'' (''client'' @ [tab] @ ''30s''),
            kw ''default_backend'' ''{{.DefaultBackend}}'']"

definition GetBackendTemplate :: string where
  "GetBackendTemplate =
     lines [[], ''backend {{.Name}}{{if ne .Mode '' @ [quote, quote] @ ''}}'',
            kw ''mode'' ''{{.Mode}}{{end}}'',
            kw ''timeout'' (''connect'' @ [tab] @ ''5s''), kw ''timeout'' (''server'' @ [tab] @ ''5s''), kw ''retries'' ''2'',
            kw ''balance'' ''roundrobin{{range .Servers}}'',
            kw ''server'' (''{{.Name}}'' @ [tab] @ ''{{.IP}}:{{.Port}}'' @ [tab] @ ''check{{end}}'')]"

text \<open>The structs as the values the templates are executed on.\<close>

definition bind_val :: "Bind \<Rightarrow> tval" where
  "bind_val b = VStruct [(''IP'', VStr (bdIP b)), (''Port'', VInt (bdPort b))]"

definition frontend_val :: "Frontend \<Rightarrow> tval" where
  "frontend_val f =
     VStruct [(''Name'', VStr (feName f)), (''Binds'', VList (map bind_val (feBinds f))), (''Mode'', VStr (feMode f)),
              (''DefaultBackend'', VStr (feDefaultBackend f))]"

definition server_val :: "Server \<Rightarrow> tval" where
  "server_val s = VStruct [(''Name'', VStr (srName s)), (''IP'', VStr (srIP s)), (''Port'', VInt (srPort s))]"

definition backend_val :: "Backend \<Rightarrow> tval" where
  "backend_val b =
     VStruct [(''Name'', VStr (beName b)), (''Servers'', VList (map server_val (beServers b))), (''Mode'', VStr (beMode b))]"

subsection \<open>What the templates write\<close>

definition frontend_text :: "Frontend \<Rightarrow> string" where
  "frontend_text f =
     [nl] @ ''frontend '' @ feName f @
     concat (map (\<lambda>b. [nl] @ kw ''bind'' (bdIP b @ '':'' @ Itoa (bdPort b))) (feBinds f)) @ [nl] @
     (if feMode f \<noteq> [] then kw ''Mode'' (feMode f) else []) @ [nl] @
     lines [kw ''log'' ''global'', kw ''option'' ''httplog'', kw ''option'' ''dontlognull'', kw ''option'' ''nolinger'',
            kw ''option'' ''http_proxy'', kw ''maxconn'' ''8000'', kw ''timeout'' (''client'' @ [tab] @ ''30s''),
            kw ''default_backend'' (feDefaultBackend f)]"

definition backend_text :: "Backend \<Rightarrow> string" where
  "backend_text b =
     [nl] @ ''backend '' @ beName b @
     (if beMode b \<noteq> [] then [nl] @ kw ''mode'' (beMode b) else []) @ [nl] @
     lines [kw ''timeout'' (''connect'' @ [tab] @ ''5s''), kw ''timeout'' (''server'' @ [tab] @ ''5s''), kw ''retries'' ''2''] @
     kw ''balance'' ''roundrobin'' @
     concat (map (\<lambda>s. [nl] @ kw ''server'' (srName s @ [tab] @ srIP s @ '':'' @ Itoa (srPort s) @ [tab] @ ''check'')) (beServers b)) @
     [nl]"

subsection \<open>adaptor.go\<close>

definition service_binds :: "Service \<Rightarrow> Bind list" where
  "service_binds svc = map (\<lambda>port. \<lparr>bdIP = ''0.0.0.0'', bdPort = sint (spPort port)\<rparr>) (svcPorts svc)"

text \<open>The four nested loops; the name of a server carries the number of servers before it.\<close>

definition add_server :: "string \<Rightarrow> string \<Rightarrow> EndpointPort \<Rightarrow> Server list \<Rightarrow> Server list" where
  "add_server name ip port servers =
     servers @ [\<lparr>srName = name @ ''-'' @ Itoa (int (length servers)), srIP = ip, srPort = sint (epPort port)\<rparr>]"

definition add_subset_servers :: "string \<Rightarrow> EndpointSubset \<Rightarrow> Server list \<Rightarrow> Server list" where
  "add_subset_servers name ss servers =
     fold (\<lambda>ip servers. fold (add_server name ip) (essPorts ss) servers) (essAddresses ss) servers"

definition service_servers :: "Service \<Rightarrow> Endpoints list \<Rightarrow> Server list" where
  "service_servers svc endpoints =
     fold (\<lambda>edpt servers. fold (add_subset_servers (svcName svc)) (epsSubsets edpt) servers) endpoints []"

record HAProxyAdaptor =
  headerTplt :: Template
  frontTplt :: Template
  backTplt :: Template

definition NewHAProxyAdaptor :: "HAProxyAdaptor gocall" where
  "NewHAProxyAdaptor =
     (case template_Must (template_Parse GetSampleTemplate) of
        Panics \<Rightarrow> Panics
      | Returns header \<Rightarrow>
          (case template_Must (template_Parse GetFrontendTemplate) of
             Panics \<Rightarrow> Panics
           | Returns front \<Rightarrow>
               (case template_Must (template_Parse GetBackendTemplate) of
                  Panics \<Rightarrow> Panics
                | Returns back \<Rightarrow> Returns \<lparr>headerTplt = header, frontTplt = front, backTplt = back\<rparr>)))"

definition write_service :: "HAProxyAdaptor \<Rightarrow> endpoints_map \<Rightarrow> Service \<Rightarrow> string \<Rightarrow> string" where
  "write_service a endpointsMap svc buf =
     (let endpoints = epm_get endpointsMap (svcNamespace svc) (svcName svc)
      in if length endpoints = 0 then buf
         else let buf = buf @ fst (Execute (frontTplt a) (frontend_val
                \<lparr>feName = svcName svc, feBinds = service_binds svc, feMode = [], feDefaultBackend = svcName svc\<rparr>));
                  servers = service_servers svc endpoints
              in buf @ fst (Execute (backTplt a) (backend_val \<lparr>beName = svcName svc, beServers = servers, beMode = []\<rparr>)))"

definition haproxy_Build :: "HAProxyAdaptor \<Rightarrow> Service list \<Rightarrow> Endpoints list \<Rightarrow> string" where
  "haproxy_Build a lbSvcs endpoints =
     (let buf = fst (Execute (headerTplt a) (VStruct []));
          endpointsMap = fold epm_init lbSvcs [];
          endpointsMap = fold epm_add endpoints endpointsMap
      in fold (write_service a endpointsMap) lbSvcs buf)"

subsection \<open>The parsed templates\<close>

definition header_nodes :: Template where
  "header_nodes = [TText GetSampleTemplate]"

definition front_nodes :: Template where
  "front_nodes =
     [TText ([nl] @ ''frontend ''), TField ''Name'',
      TRange ''Binds'' [TText ([nl] @ kw ''bind'' []), TField ''IP'', TText '':'', TField ''Port''],
      TText [nl], TIfNe ''Mode'' [] [TText (kw ''Mode'' []), TField ''Mode''],
      TText ([nl] @ lines [kw ''log'' ''global'', kw ''option'' ''httplog'', kw ''option'' ''dontlognull'',
        kw ''option'' ''nolinger'', kw ''option'' ''http_proxy'', kw ''maxconn'' ''8000'', kw ''timeout'' (''client'' @ [tab] @ ''30s'')] @
        kw ''default_backend'' []), TField ''DefaultBackend'', TText [nl]]"

definition back_nodes :: Template where
  "back_nodes =
     [TText ([nl] @ ''backend ''), TField ''Name'',
      TIfNe ''Mode'' [] [TText ([nl] @ kw ''mode'' []), TField ''Mode''],
      TText ([nl] @ lines [kw ''timeout'' (''connect'' @ [tab] @ ''5s''), kw ''timeout'' (''server'' @ [tab] @ ''5s''), kw ''retries'' ''2''] @
        kw ''balance'' ''roundrobin''),
      TRange ''Servers'' [TText ([nl] @ kw ''server'' []), TField ''Name'', TText [tab], TField ''IP'', TText '':'',
        TField ''Port'', TText ([tab] @ ''check'')],
      TText [nl]]"

definition haproxy_adaptor :: HAProxyAdaptor where
  "haproxy_adaptor = \<lparr>headerTplt = header_nodes, frontTplt = front_nodes, backTplt = back_nodes\<rparr>"

lemma Parse_front: "template_Parse GetFrontendTemplate = Inr front_nodes"
  by code_simp

lemma Parse_back: "template_Parse GetBackendTemplate = Inr back_nodes"
  by code_simp

lemma Parse_header: "template_Parse GetSampleTemplate = Inr header_nodes"
  by code_simp

lemma Execute_front: "Execute front_nodes (frontend_val f) = (frontend_text f, None)"
proof -
  have "run_all (\<lambda>v. run_all (exec_node v) [TText ([nl] @ kw ''bind'' []), TField ''IP'', TText '':'', TField ''Port'']) (map bind_val bs) =
      (concat (map (\<lambda>b. [nl] @ kw ''bind'' (bdIP b @ '':'' @ Itoa (bdPort b))) bs), None)" for bs
    by (rule run_all_range) (simp add: bind_val_def field_of_def kw_def)
  then show ?thesis
    by (simp add: Execute_def front_nodes_def frontend_text_def frontend_val_def field_of_def kw_def)
qed

lemma Execute_back: "Execute back_nodes (backend_val b) = (backend_text b, None)"
proof -
  have "run_all (\<lambda>v. run_all (exec_node v) [TText ([nl] @ kw ''server'' []), TField ''Name'', TText [tab], TField ''IP'',
        TText '':'', TField ''Port'', TText ([tab] @ ''check'')]) (map server_val ss) =
      (concat (map (\<lambda>s. [nl] @ kw ''server'' (srName s @ [tab] @ srIP s @ '':'' @ Itoa (srPort s) @ [tab] @ ''check'')) ss), None)" for ss
    by (rule run_all_range) (simp add: server_val_def field_of_def kw_def)
  then show ?thesis
    by (simp add: Execute_def back_nodes_def backend_text_def backend_val_def field_of_def kw_def)
qed

lemma NewHAProxyAdaptor_eval: "NewHAProxyAdaptor = Returns haproxy_adaptor"
  by (simp add: NewHAProxyAdaptor_def Parse_front Parse_back Parse_header template_Must_def haproxy_adaptor_def)

text \<open>The loop over the services in terms of the written texts.\<close>

lemma write_service_text:
  "write_service haproxy_adaptor endpointsMap svc buf =
     (let endpoints = epm_get endpointsMap (svcNamespace svc) (svcName svc)
      in if length endpoints = 0 then buf
         else buf @ frontend_text \<lparr>feName = svcName svc, feBinds = service_binds svc, feMode = [], feDefaultBackend = svcName svc\<rparr> @
              backend_text \<lparr>beName = svcName svc, beServers = service_servers svc endpoints, beMode = []\<rparr>)"
  by (simp add: write_service_def haproxy_adaptor_def Execute_front Execute_back Let_def)

lemma header_text: "fst (Execute (headerTplt haproxy_adaptor) v) = GetSampleTemplate"
  by (simp add: haproxy_adaptor_def header_nodes_def Execute_def)

text \<open>
  C13. The templates parse, so making the adaptor does not panic, and executing them never fails and
  writes exactly the sections that the code means: a frontend with a line for each bind and its
  backend's name, a backend with a line for each server.
\<close>

theorem templates_write:
  "\<exists>a. NewHAProxyAdaptor = Returns a \<and>
     (\<forall>v. Execute (headerTplt a) v = (GetSampleTemplate, None)) \<and>
     (\<forall>f. Execute (frontTplt a) (frontend_val f) = (frontend_text f, None)) \<and>
     (\<forall>b. Execute (backTplt a) (backend_val b) = (backend_text b, None))"
  by (simp add: NewHAProxyAdaptor_eval haproxy_adaptor_def Execute_front Execute_back)
    (simp add: Execute_def header_nodes_def)

end
