(* ===== verification/HaproxyConfProps.thy ===== *)
theory HaproxyConfProps
  imports HaproxyConf
begin

text \<open>
  What haproxy reads in the configuration that \<open>Build\<close> writes: a reader for the format, and that
  it finds, behind the fixed sections, one frontend with the ports of the service and one backend
  with its endpoints for each service that has endpoints objects.
\<close>

subsection \<open>A reader\<close>

text \<open>
  A line in column 0 opens a section, an indented line belongs to the section above it; empty
  lines and lines that start with a hash are skipped. A section is its header with its lines,
  each split into fields.
\<close>

type_synonym conf_section = "string list \<times> string list list"

definition read_line :: "string \<Rightarrow> conf_section list \<Rightarrow> conf_section list" where
  "read_line line secs =
     (let fs = Fields line
      in if fs = [] \<or> HasPrefix line ''#'' then secs
         else if \<not> is_space (hd line) then secs @ [(fs, [])]
         else if secs = [] then secs
         else butlast secs @ [(fst (last secs), snd (last secs) @ [fs])])"

definition read_conf :: "string \<Rightarrow> conf_section list" where
  "read_conf conf = fold read_line (Split conf nl) []"

subsection \<open>Fields\<close>

lemma Fields_kw: "word_ok k \<Longrightarrow> Fields (kw k v) = k # Fields v"
  by (simp add: kw_def Fields_space Fields_word_sep)

lemma word_nl: "word_ok w \<Longrightarrow> nl \<notin> set w"
  using tab_space(2) by (auto simp: word_ok_def simp del: tab_space)

lemma word_ok_append: "word_ok u \<Longrightarrow> \<forall>c \<in> set v. \<not> is_space c \<Longrightarrow> word_ok (u @ v)"
  by (auto simp: word_ok_def)

lemma digit_no_space: "list_all is_digit ds \<Longrightarrow> \<forall>c \<in> set ds. \<not> is_space c"
  by (auto simp: list_all_iff is_digit_iff is_space_def)

lemma Itoa_no_space: "\<forall>c \<in> set (Itoa i). \<not> is_space c"
  using digit_no_space [OF show_nat_digits] by (auto simp: Itoa_def is_space_def)

lemma host_port_word: "word_ok ip \<Longrightarrow> word_ok (ip @ '':'' @ Itoa p)"
  using Itoa_no_space by (intro word_ok_append) (auto simp: is_space_def)

lemma numbered_word: "word_ok n \<Longrightarrow> word_ok (n @ ''-'' @ Itoa p)"
  using Itoa_no_space by (intro word_ok_append) (auto simp: is_space_def)

subsection \<open>Reading lines\<close>

lemma read_header:
  assumes "word_ok k" "hd k \<noteq> CHR ''#''" "word_ok n"
  shows "read_line (k @ CHR '' '' # n) secs = secs @ [([k, n], [])]"
proof -
  obtain a k' where k: "k = a # k'" "\<not> is_space a" using assms(1) by (cases k) (auto simp: word_ok_def)
  have "Fields (k @ CHR '' '' # n) = [k, n]" using assms by (simp add: Fields_word_sep Fields_word)
  moreover have "\<not> HasPrefix (k @ CHR '' '' # n) ''#''" "\<not> is_space (hd (k @ CHR '' '' # n))"
    using k assms(2) by (simp_all add: HasPrefix_def)
  ultimately show ?thesis unfolding read_line_def Let_def by simp
qed

lemma read_kw:
  "word_ok k \<Longrightarrow> read_line (kw k v) (secs @ [(h, its)]) = secs @ [(h, its @ [k # Fields v])]"
  by (simp add: read_line_def Fields_kw) (simp add: kw_def HasPrefix_def)

lemma read_empty: "read_line [] secs = secs"
  by (simp add: read_line_def)

lemma read_kws:
  "\<forall>kv \<in> set kvs. word_ok (fst kv) \<Longrightarrow>
   fold read_line (map (\<lambda>kv. kw (fst kv) (snd kv)) kvs) (secs @ [(h, its)]) =
     secs @ [(h, its @ map (\<lambda>kv. fst kv # Fields (snd kv)) kvs)]"
  by (induction kvs arbitrary: its) (simp_all add: read_kw)

subsection \<open>The sections of a service\<close>

definition bind_fields :: "Bind \<Rightarrow> string list" where
  "bind_fields b = [''bind'', bdIP b @ '':'' @ Itoa (bdPort b)]"

definition server_fields :: "Server \<Rightarrow> string list" where
  "server_fields s = [''server'', srName s, srIP s @ '':'' @ Itoa (srPort s), ''check'']"

definition frontend_section :: "string \<Rightarrow> Bind list \<Rightarrow> conf_section" where
  "frontend_section n binds =
     ([''frontend'', n],
      map bind_fields binds @
      [[''log'', ''global''], [''option'', ''httplog''], [''option'', ''dontlognull''], [''option'', ''nolinger''],
       [''option'', ''http_proxy''], [''maxconn'', ''8000''], [''timeout'', ''client'', ''30s''], [''default_backend'', n]])"

definition backend_section :: "string \<Rightarrow> Server list \<Rightarrow> conf_section" where
  "backend_section n servers =
     ([''backend'', n],
      [[''timeout'', ''connect'', ''5s''], [''timeout'', ''server'', ''5s''], [''retries'', ''2''], [''balance'', ''roundrobin'']] @
      map server_fields servers)"

lemma concat_nl: "concat (map (\<lambda>x. [nl] @ g x) xs) @ [nl] = nl # lines (map g xs)"
  by (induction xs) simp_all

definition front_kws :: "Bind list \<Rightarrow> (string \<times> string) list" where
  "front_kws binds = map (\<lambda>b. (''bind'', bdIP b @ '':'' @ Itoa (bdPort b))) binds"

definition front_tail :: "string \<Rightarrow> (string \<times> string) list" where
  "front_tail n = [(''log'', ''global''), (''option'', ''httplog''), (''option'', ''dontlognull''), (''option'', ''nolinger''),
     (''option'', ''http_proxy''), (''maxconn'', ''8000''), (''timeout'', ''client'' @ [tab] @ ''30s''), (''default_backend'', n)]"

definition back_kws :: "Server list \<Rightarrow> (string \<times> string) list" where
  "back_kws servers =
     [(''timeout'', ''connect'' @ [tab] @ ''5s''), (''timeout'', ''server'' @ [tab] @ ''5s''), (''retries'', ''2''),
      (''balance'', ''roundrobin'')] @
     map (\<lambda>s. (''server'', srName s @ [tab] @ srIP s @ '':'' @ Itoa (srPort s) @ [tab] @ ''check'')) servers"

abbreviation kw_lines :: "(string \<times> string) list \<Rightarrow> string list" where
  "kw_lines kvs \<equiv> map (\<lambda>kv. kw (fst kv) (snd kv)) kvs"

lemma frontend_lines:
  "frontend_text \<lparr>feName = n, feBinds = binds, feMode = [], feDefaultBackend = n\<rparr> =
     lines ([] # (''frontend '' @ n) # kw_lines (front_kws binds) @ [] # kw_lines (front_tail n))"
proof -
  have "concat (map (\<lambda>b. [nl] @ kw ''bind'' (bdIP b @ '':'' @ Itoa (bdPort b))) binds) @ [nl] =
      nl # lines (kw_lines (front_kws binds))"
    unfolding concat_nl front_kws_def by (simp add: comp_def)
  then show ?thesis
    by (simp add: frontend_text_def front_tail_def)
qed

lemma backend_lines:
  "backend_text \<lparr>beName = n, beServers = servers, beMode = []\<rparr> =
     lines ([] # (''backend '' @ n) # kw_lines (back_kws servers))"
proof -
  have "concat (map (\<lambda>s. [nl] @ kw ''server'' (srName s @ [tab] @ srIP s @ '':'' @ Itoa (srPort s) @ [tab] @ ''check'')) servers) @ [nl] =
      nl # lines (map (\<lambda>s. kw ''server'' (srName s @ [tab] @ srIP s @ '':'' @ Itoa (srPort s) @ [tab] @ ''check'')) servers)"
    by (rule concat_nl)
  then show ?thesis
    by (simp add: backend_text_def back_kws_def comp_def)
qed

lemma const_words:
  "word_ok ''frontend''" "word_ok ''backend''" "word_ok ''bind''" "word_ok ''log''" "word_ok ''option''" "word_ok ''maxconn''"
  "word_ok ''timeout''" "word_ok ''default_backend''" "word_ok ''retries''" "word_ok ''balance''" "word_ok ''server''"
  "word_ok ''global''" "word_ok ''httplog''" "word_ok ''dontlognull''" "word_ok ''nolinger''" "word_ok ''http_proxy''"
  "word_ok ''8000''" "word_ok ''client''" "word_ok ''30s''" "word_ok ''connect''" "word_ok ''5s''" "word_ok ''2''"
  "word_ok ''roundrobin''" "word_ok ''check''"
  by (simp_all add: word_ok_def is_space_def)

lemma front_fields:
  assumes "word_ok n" "\<forall>b \<in> set binds. word_ok (bdIP b)"
  shows "map (\<lambda>kv. fst kv # Fields (snd kv)) (front_kws binds) = map bind_fields binds"
    "map (\<lambda>kv. fst kv # Fields (snd kv)) (front_tail n) = drop (length binds) (snd (frontend_section n binds))"
proof -
  show "map (\<lambda>kv. fst kv # Fields (snd kv)) (front_kws binds) = map bind_fields binds"
    using assms(2) by (simp add: front_kws_def bind_fields_def Fields_word host_port_word [unfolded append_Cons append_Nil])
  show "map (\<lambda>kv. fst kv # Fields (snd kv)) (front_tail n) = drop (length binds) (snd (frontend_section n binds))"
    using const_words assms(1)
    by (simp add: front_tail_def frontend_section_def Fields_word Fields_word_sep [of "''client''" tab, simplified])
qed

lemma server_line_fields:
  assumes "word_ok (srName s)" "word_ok (srIP s)"
  shows "Fields (srName s @ [tab] @ srIP s @ '':'' @ Itoa (srPort s) @ [tab] @ ''check'') =
    [srName s, srIP s @ '':'' @ Itoa (srPort s), ''check'']"
proof -
  have "Fields (srName s @ tab # (srIP s @ '':'' @ Itoa (srPort s)) @ tab # ''check'') =
      [srName s, srIP s @ '':'' @ Itoa (srPort s), ''check'']"
    by (simp only: Fields_word_sep [OF assms(1) tab_space(1)] Fields_word_sep [OF host_port_word [OF assms(2)] tab_space(1)]
        Fields_word [OF const_words(24)])
  then show ?thesis by simp
qed

lemma back_fields:
  assumes "\<forall>s \<in> set servers. word_ok (srName s) \<and> word_ok (srIP s)"
  shows "map (\<lambda>kv. fst kv # Fields (snd kv)) (back_kws servers) = snd (backend_section n servers)"
  using assms const_words
  by (simp add: back_kws_def backend_section_def server_fields_def server_line_fields [simplified]
      Fields_word Fields_word_sep [of "''connect''" tab, simplified] Fields_word_sep [of "''server''" tab, simplified])

lemma read_service:
  assumes "word_ok n" "\<forall>b \<in> set binds. word_ok (bdIP b)" "\<forall>s \<in> set servers. word_ok (srName s) \<and> word_ok (srIP s)"
  shows "fold read_line ([] # (''frontend '' @ n) # kw_lines (front_kws binds) @ [] # kw_lines (front_tail n)) secs =
      secs @ [frontend_section n binds]"
    "fold read_line ([] # (''backend '' @ n) # kw_lines (back_kws servers)) secs = secs @ [backend_section n servers]"
proof -
  have kf: "\<forall>kv \<in> set (front_kws binds). word_ok (fst kv)" "\<forall>kv \<in> set (front_tail n). word_ok (fst kv)"
      "\<forall>kv \<in> set (back_kws servers). word_ok (fst kv)"
    using const_words by (auto simp: front_kws_def front_tail_def back_kws_def)
  have f: "''frontend '' @ n = ''frontend'' @ CHR '' '' # n" "''backend '' @ n = ''backend'' @ CHR '' '' # n" by simp_all
  have "fold read_line ([] # (''frontend '' @ n) # kw_lines (front_kws binds) @ [] # kw_lines (front_tail n)) secs =
      secs @ [([''frontend'', n], map bind_fields binds @ drop (length binds) (snd (frontend_section n binds)))]"
    unfolding f using read_header [OF const_words(1) _ assms(1)]
    by (simp add: read_empty read_kws [OF kf(1), of _ _ "[]", simplified] read_kws [OF kf(2)] front_fields [OF assms(1,2)])
  then show "fold read_line ([] # (''frontend '' @ n) # kw_lines (front_kws binds) @ [] # kw_lines (front_tail n)) secs =
      secs @ [frontend_section n binds]"
    by (simp add: frontend_section_def)
  show "fold read_line ([] # (''backend '' @ n) # kw_lines (back_kws servers)) secs = secs @ [backend_section n servers]"
    unfolding f using read_header [OF const_words(2) _ assms(1)]
    by (simp add: read_empty read_kws [OF kf(3), of _ _ "[]", simplified] back_fields [OF assms(3), of n])
      (simp add: backend_section_def)
qed

lemma service_lines_no_nl:
  assumes "word_ok n" "\<forall>b \<in> set binds. word_ok (bdIP b)" "\<forall>s \<in> set servers. word_ok (srName s) \<and> word_ok (srIP s)"
  shows "\<forall>l \<in> set ([] # (''frontend '' @ n) # kw_lines (front_kws binds) @ [] # kw_lines (front_tail n)). nl \<notin> set l"
    "\<forall>l \<in> set ([] # (''backend '' @ n) # kw_lines (back_kws servers)). nl \<notin> set l"
proof -
  have "nl \<notin> set (Itoa i)" for i using Itoa_no_space [of i] tab_space(2) by blast
  then show "\<forall>l \<in> set ([] # (''frontend '' @ n) # kw_lines (front_kws binds) @ [] # kw_lines (front_tail n)). nl \<notin> set l"
    "\<forall>l \<in> set ([] # (''backend '' @ n) # kw_lines (back_kws servers)). nl \<notin> set l"
    using word_nl [OF assms(1)] assms(2,3) word_nl
    by (auto simp: front_kws_def front_tail_def back_kws_def kw_def)
qed

subsection \<open>The whole configuration\<close>

text \<open>The servers expected: every address with every port of every subset, numbered.\<close>

definition endpoint_pairs :: "Endpoints list \<Rightarrow> (string \<times> int) list" where
  "endpoint_pairs es =
     [(ip, sint (epPort p)). e \<leftarrow> es, ss \<leftarrow> epsSubsets e, ip \<leftarrow> essAddresses ss, p \<leftarrow> essPorts ss]"

fun numbered :: "string \<Rightarrow> nat \<Rightarrow> (string \<times> int) list \<Rightarrow> Server list" where
  "numbered n k [] = []"
| "numbered n k ((ip, p) # ps) =
     \<lparr>srName = n @ ''-'' @ Itoa (int k), srIP = ip, srPort = p\<rparr> # numbered n (Suc k) ps"

lemma numbered_append: "numbered n k (xs @ ys) = numbered n k xs @ numbered n (k + length xs) ys"
  by (induction n k xs rule: numbered.induct) simp_all

lemma length_numbered [simp]: "length (numbered n k ps) = length ps"
  by (induction n k ps rule: numbered.induct) simp_all

lemma fold_add_server:
  "fold (add_server n ip) ports servers =
     servers @ numbered n (length servers) (map (\<lambda>p. (ip, sint (epPort p))) ports)"
  by (induction ports arbitrary: servers) (simp_all add: add_server_def)

lemma fold_numbered:
  assumes "\<And>x servers. f x servers = servers @ numbered n (length servers) (g x)"
  shows "fold f xs servers = servers @ numbered n (length servers) (concat (map g xs))"
proof (induction xs arbitrary: servers)
  case (Cons x xs)
  show ?case using Cons.IH [of "f x servers"] by (simp add: assms [of x servers] numbered_append)
qed simp

lemma service_servers_pairs: "service_servers svc es = numbered (svcName svc) 0 (endpoint_pairs es)"
proof -
  let ?n = "svcName svc"
  have 1: "fold (\<lambda>ip servers. fold (add_server ?n ip) (essPorts ss) servers) ips servers =
      servers @ numbered ?n (length servers) (concat (map (\<lambda>ip. map (\<lambda>p. (ip, sint (epPort p))) (essPorts ss)) ips))" for ss ips servers
    by (rule fold_numbered) (rule fold_add_server)
  have 2: "fold (add_subset_servers ?n) sss servers =
      servers @ numbered ?n (length servers)
        (concat (map (\<lambda>ss. concat (map (\<lambda>ip. map (\<lambda>p. (ip, sint (epPort p))) (essPorts ss)) (essAddresses ss))) sss))" for sss servers
    by (rule fold_numbered) (simp add: add_subset_servers_def 1)
  show ?thesis
    unfolding service_servers_def by (subst fold_numbered [OF 2]) (simp add: endpoint_pairs_def)
qed

definition served :: "Service list \<Rightarrow> Endpoints list \<Rightarrow> Service list" where
  "served lbSvcs eps = filter (\<lambda>svc. endpoints_of eps (svcNamespace svc) (svcName svc) \<noteq> []) lbSvcs"

definition service_sections :: "Endpoints list \<Rightarrow> Service \<Rightarrow> conf_section list" where
  "service_sections eps svc =
     [frontend_section (svcName svc) (map (\<lambda>p. \<lparr>bdIP = ''0.0.0.0'', bdPort = sint (spPort p)\<rparr>) (svcPorts svc)),
      backend_section (svcName svc)
        (numbered (svcName svc) 0 (endpoint_pairs (endpoints_of eps (svcNamespace svc) (svcName svc))))]"

definition service_lines :: "Endpoints list \<Rightarrow> Service \<Rightarrow> string list" where
  "service_lines eps svc =
     ([] # (''frontend '' @ svcName svc) # kw_lines (front_kws (service_binds svc)) @ [] # kw_lines (front_tail (svcName svc))) @
     ([] # (''backend '' @ svcName svc) # kw_lines (back_kws (service_servers svc (endpoints_of eps (svcNamespace svc) (svcName svc)))))"

lemma write_service_lines:
  "epm_get em (svcNamespace svc) (svcName svc) = endpoints_of eps (svcNamespace svc) (svcName svc) \<Longrightarrow>
   write_service haproxy_adaptor em svc buf =
     buf @ lines (if endpoints_of eps (svcNamespace svc) (svcName svc) = [] then [] else service_lines eps svc)"
  unfolding write_service_text service_lines_def frontend_lines backend_lines
  by (simp only: Let_def lines_append if_distrib length_0_conv) simp

lemma haproxy_Build_lines:
  "haproxy_Build haproxy_adaptor lbSvcs eps = lines (sample_lines @ concat (map (service_lines eps) (served lbSvcs eps)))"
proof -
  let ?em = "fold epm_add eps (fold epm_init lbSvcs [])"
  have "fold (write_service haproxy_adaptor ?em) svcs buf = buf @ lines (concat (map (service_lines eps) (served svcs eps)))"
    if "set svcs \<subseteq> set lbSvcs" for svcs buf
    using that
  proof (induction svcs arbitrary: buf)
    case (Cons svc svcs)
    then have "epm_get ?em (svcNamespace svc) (svcName svc) = endpoints_of eps (svcNamespace svc) (svcName svc)"
      by (intro endpoints_map_correct) simp
    from write_service_lines [OF this] Cons show ?case by (simp add: served_def)
  qed (simp add: served_def)
  then show ?thesis by (simp add: haproxy_Build_def header_text GetSampleTemplate_def Let_def)
qed

definition sample_sections :: "conf_section list" where
  "sample_sections =
     [([''global''],
       [[''maxconn'', ''20000''], [''ulimit-n'', ''16384''], [''log'', ''127.0.0.1'', ''local0''], [''uid'', ''200''],
        [''gid'', ''200''], [''chroot'', ''/var/empty''], [''nbproc'', ''4''], [''daemon'']]),
      ([''listen'', ''stats''],
       [[''bind'', '':8081''], [''mode'', ''http''], [''stats'', ''enable''], [''stats'', ''hide-version''],
        [''stats'', ''realm'', ''Haproxy'' @ [CHR 0x5C], ''Statistics'', ''#'', ''Title'', ''text'', ''for'', ''popup'', ''window''],
        [''stats'', ''uri'', ''/''], [''stats'', ''auth'', ''admin:admin'']])]"

lemma read_sample: "fold read_line sample_lines [] = sample_sections"
  by (simp add: sample_lines_def sample_sections_def read_line_def kw_def Let_def go_eval)

lemma sample_no_nl: "\<forall>l \<in> set sample_lines. nl \<notin> set l"
  by (simp add: sample_lines_def kw_def)

definition names_ok :: "Service list \<Rightarrow> Endpoints list \<Rightarrow> bool" where
  "names_ok lbSvcs eps \<longleftrightarrow> (\<forall>svc \<in> set lbSvcs. word_ok (svcName svc)) \<and>
     (\<forall>e \<in> set eps. \<forall>ss \<in> set (epsSubsets e). \<forall>ip \<in> set (essAddresses ss). word_ok ip)"

lemma numbered_words:
  "word_ok n \<Longrightarrow> \<forall>ps \<in> set pairs. word_ok (fst ps) \<Longrightarrow>
   \<forall>s \<in> set (numbered n k pairs). word_ok (srName s) \<and> word_ok (srIP s)"
  using numbered_word by (induction n k pairs rule: numbered.induct) auto

lemma service_words:
  assumes "names_ok lbSvcs eps" "svc \<in> set lbSvcs"
  shows "word_ok (svcName svc)" "\<forall>b \<in> set (service_binds svc). word_ok (bdIP b)"
    "\<forall>s \<in> set (service_servers svc (endpoints_of eps (svcNamespace svc) (svcName svc))). word_ok (srName s) \<and> word_ok (srIP s)"
proof -
  show n: "word_ok (svcName svc)" using assms by (simp add: names_ok_def)
  show "\<forall>b \<in> set (service_binds svc). word_ok (bdIP b)" by (auto simp: service_binds_def word_ok_def is_space_def)
  have "\<forall>ps \<in> set (endpoint_pairs (endpoints_of eps (svcNamespace svc) (svcName svc))). word_ok (fst ps)"
    using assms(1) by (auto simp: names_ok_def endpoint_pairs_def endpoints_of_def)
  from numbered_words [OF n this]
  show "\<forall>s \<in> set (service_servers svc (endpoints_of eps (svcNamespace svc) (svcName svc))). word_ok (srName s) \<and> word_ok (srIP s)"
    unfolding service_servers_pairs .
qed

lemma read_service_lines:
  assumes "names_ok lbSvcs eps" "svc \<in> set lbSvcs"
  shows "fold read_line (service_lines eps svc) secs = secs @ service_sections eps svc"
    "\<forall>l \<in> set (service_lines eps svc). nl \<notin> set l"
proof -
  note w = service_words [OF assms]
  show "fold read_line (service_lines eps svc) secs = secs @ service_sections eps svc"
    unfolding service_lines_def fold_append comp_apply read_service [OF w] service_sections_def
    by (simp add: service_binds_def service_servers_pairs)
  show "\<forall>l \<in> set (service_lines eps svc). nl \<notin> set l"
    unfolding service_lines_def set_append using service_lines_no_nl [OF w] by blast
qed

lemma read_services:
  assumes "names_ok lbSvcs eps"
  shows "set svcs \<subseteq> set lbSvcs \<Longrightarrow>
    fold read_line (concat (map (service_lines eps) svcs)) secs = secs @ concat (map (service_sections eps) svcs)"
proof (induction svcs arbitrary: secs)
  case (Cons svc svcs)
  then show ?case using read_service_lines(1) [OF assms, of svc] by simp
qed simp

lemma Build_sections:
  assumes "names_ok lbSvcs eps"
  shows "read_conf (haproxy_Build haproxy_adaptor lbSvcs eps) =
    sample_sections @ concat (map (service_sections eps) (served lbSvcs eps))"
proof -
  have sub: "set (served lbSvcs eps) \<subseteq> set lbSvcs" by (auto simp: served_def)
  have "\<forall>l \<in> set (sample_lines @ concat (map (service_lines eps) (served lbSvcs eps))). nl \<notin> set l"
    using sample_no_nl read_service_lines(2) [OF assms] sub by fastforce
  from Split_lines [OF this] show ?thesis
    unfolding read_conf_def haproxy_Build_lines
    by (simp add: read_sample read_services [OF assms sub] read_empty)
qed

text \<open>
  C12. Reading the configuration back: behind the fixed sections haproxy finds, for each service
  with endpoints objects and in the order of the services, a frontend that binds exactly the
  service's ports and hands over to the backend of the service, and that backend with exactly
  the endpoints of the service, numbered; nothing else, and services without endpoints objects
  are left out.
\<close>

theorem haproxy_Build_read:
  assumes "names_ok lbSvcs eps"
  shows "read_conf (haproxy_Build haproxy_adaptor lbSvcs eps) =
    sample_sections @ concat (map (service_sections eps) (served lbSvcs eps))"
  using Build_sections [OF assms] .

definition conf_svc :: Service where
  "conf_svc = \<lparr>svcNamespace = ''default'', svcName = ''web'', svcResourceVersion = ''1'',
     svcType = ''LoadBalancer'', svcPorts = [\<lparr>spName = ''http'', spProtocol = ''TCP'', spPort = 80\<rparr>],
     svcIngress = [], svcRest = []\<rparr>"

definition conf_eps :: Endpoints where
  "conf_eps = \<lparr>epsNamespace = ''default'', epsName = ''web'', epsSubsets =
     [\<lparr>essAddresses = [''10.1.0.1'', ''10.1.0.2''], essPorts = [\<lparr>epName = ''http'', epPort = 8080\<rparr>]\<rparr>]\<rparr>"

lemma conf_names: "names_ok [conf_svc] [conf_eps]"
  by (simp add: names_ok_def conf_svc_def conf_eps_def word_ok_def is_space_def)

theorem haproxy_Build_read_witness:
  "names_ok [conf_svc] [conf_eps] \<and>
   read_conf (haproxy_Build haproxy_adaptor [conf_svc] [conf_eps]) =
     sample_sections @
     [frontend_section ''web'' [\<lparr>bdIP = ''0.0.0.0'', bdPort = 80\<rparr>],
      backend_section ''web'' [\<lparr>srName = ''web-0'', srIP = ''10.1.0.1'', srPort = 8080\<rparr>,
        \<lparr>srName = ''web-1'', srIP = ''10.1.0.2'', srPort = 8080\<rparr>]]"
  using haproxy_Build_read [OF conf_names] conf_names
  by (simp add: served_def endpoints_of_def conf_svc_def conf_eps_def service_sections_def endpoint_pairs_def go_eval)

subsection \<open>Names and ports\<close>

definition twin_svcs :: "Service list" where
  "twin_svcs = [conf_svc, conf_svc\<lparr>svcNamespace := ''test'', svcPorts := [\<lparr>spName = ''http'', spProtocol = ''TCP'', spPort = 81\<rparr>]\<rparr>]"

definition twin_eps :: "Endpoints list" where
  "twin_eps = [conf_eps, conf_eps\<lparr>epsNamespace := ''test''\<rparr>]"

lemma twin_served: "names_ok twin_svcs twin_eps" "served twin_svcs twin_eps = twin_svcs"
  by (simp_all add: twin_svcs_def twin_eps_def names_ok_def served_def endpoints_of_def conf_svc_def conf_eps_def
      word_ok_def is_space_def)

text \<open>
  The sections are named after the service alone: two services with the same name in
  different namespaces get frontends and backends of the same name, so the configuration does
  not say which of the two backends a frontend hands over to.
\<close>

theorem haproxy_names_collide:
  "map fst (drop 2 (read_conf (haproxy_Build haproxy_adaptor twin_svcs twin_eps))) =
     [[''frontend'', ''web''], [''backend'', ''web''], [''frontend'', ''web''], [''backend'', ''web'']]"
  unfolding Build_sections [OF twin_served(1)] twin_served(2)
  by (simp add: sample_sections_def twin_svcs_def service_sections_def frontend_section_def backend_section_def conf_svc_def)

definition dual_svc :: Service where
  "dual_svc = conf_svc\<lparr>svcPorts := [\<lparr>spName = ''http'', spProtocol = ''TCP'', spPort = 80\<rparr>,
     \<lparr>spName = ''admin'', spProtocol = ''TCP'', spPort = 81\<rparr>]\<rparr>"

definition dual_eps :: Endpoints where
  "dual_eps = conf_eps\<lparr>epsSubsets := [\<lparr>essAddresses = [''10.1.0.1''],
     essPorts = [\<lparr>epName = ''http'', epPort = 8080\<rparr>, \<lparr>epName = ''admin'', epPort = 9090\<rparr>]\<rparr>]\<rparr>"

lemma dual_served: "names_ok [dual_svc] [dual_eps]" "served [dual_svc] [dual_eps] = [dual_svc]"
  by (simp_all add: dual_svc_def dual_eps_def names_ok_def served_def endpoints_of_def conf_svc_def conf_eps_def
      word_ok_def is_space_def)

text \<open>
  A service with two ports gets one frontend that binds both and one backend that holds the
  target ports of both, so a connection to port 80 can be handed to the target of port 81.
\<close>

theorem haproxy_ports_mixed:
  "drop 2 (read_conf (haproxy_Build haproxy_adaptor [dual_svc] [dual_eps])) =
     [frontend_section ''web'' [\<lparr>bdIP = ''0.0.0.0'', bdPort = 80\<rparr>, \<lparr>bdIP = ''0.0.0.0'', bdPort = 81\<rparr>],
      backend_section ''web'' [\<lparr>srName = ''web-0'', srIP = ''10.1.0.1'', srPort = 8080\<rparr>,
        \<lparr>srName = ''web-1'', srIP = ''10.1.0.1'', srPort = 9090\<rparr>]]"
  unfolding Build_sections [OF dual_served(1)] dual_served(2)
  by (simp add: sample_sections_def service_sections_def endpoint_pairs_def endpoints_of_def dual_svc_def dual_eps_def
      conf_svc_def conf_eps_def go_eval)

end
