(* ===== verification/Haproxy.thy ===== *)
theory Haproxy
  imports Sysctl
begin

text \<open>
  \<^verbatim>\<open>haproxy/haproxy.go\<close>: writing the configuration file and restarting haproxy. Files and processes
  are a parameter, the record \<open>HaproxyOS\<close>.
\<close>

record 'w HaproxyOS = "'w Files" +
  IsNotExist :: "gerror \<Rightarrow> bool"
  MkdirAll :: "string \<Rightarrow> nat \<Rightarrow> 'w \<Rightarrow> gerror option \<times> 'w"
  Rename :: "string \<Rightarrow> string \<Rightarrow> 'w \<Rightarrow> gerror option \<times> 'w"
  cmdOutput :: "string \<Rightarrow> string list \<Rightarrow> 'w \<Rightarrow> (string \<times> gerror option) \<times> 'w"
  cmdStart :: "string \<Rightarrow> string list \<Rightarrow> 'w \<Rightarrow> gerror option \<times> 'w"
  cmdWait :: "'w \<Rightarrow> gerror option \<times> 'w"

text \<open>\<open>filepath.Dir\<close>: everything up to the last slash, cleaned.\<close>

definition filepath_Dir :: "string \<Rightarrow> string" where
  "filepath_Dir p = path_Clean (rev (dropWhile (\<lambda>c. c \<noteq> CHR ''/'') (rev p)))"

record Haproxy =
  confFile :: string
  pidFile :: string
  cmdPath :: string
  lastConf :: string

definition NewHaproxy :: Haproxy where
  "NewHaproxy = \<lparr>confFile = ''/etc/haproxy/haproxy.cfg'', pidFile = ''/var/run/haproxy.pid'',
     cmdPath = ''/usr/local/sbin/haproxy'', lastConf = []\<rparr>"

definition checkConfigs :: "'w HaproxyOS \<Rightarrow> Haproxy \<Rightarrow> string \<Rightarrow> 'w \<Rightarrow> (string \<times> gerror option) \<times> 'w" where
  "checkConfigs os h file w = cmdOutput os (cmdPath h) [cmdPath h, ''-f'', file, ''-c''] w"

definition buildConf :: "'w HaproxyOS \<Rightarrow> string \<Rightarrow> Haproxy \<times> 'w \<Rightarrow> gerror option \<times> Haproxy \<times> 'w" where
  "buildConf os data = (\<lambda>(h, w).
     let h = h\<lparr>lastConf := data\<rparr>; tmpFile = confFile h @ ''.tmp''
     in case MkdirAll os (filepath_Dir (confFile h)) 0x1ED w of
          (Some err, w) \<Rightarrow> (Some (''failed to mkdir for conf '' @ confFile h @ '': '' @ err), h, w)
        | (None, w) \<Rightarrow>
            (case WriteFile os tmpFile data 0x1A4 w of
               (Some err, w) \<Rightarrow> (Some (''failed to write conf '' @ confFile h @ '': '' @ err), h, w)
             | (None, w) \<Rightarrow>
                 (case checkConfigs os h tmpFile w of
                    ((status, Some err), w) \<Rightarrow>
                      (Some (''haproxy config file is invalid, '' @ status @ '', err '' @ err), h, w)
                  | ((status, None), w) \<Rightarrow>
                      (case Rename os tmpFile (confFile h) w of
                         (Some err, w) \<Rightarrow> (Some (''can't rename '' @ tmpFile @ '' to '' @ confFile h), h, w)
                       | (None, w) \<Rightarrow> (None, h, w)))))"

text \<open>
  A pid file that does not exist reads as empty. A line that is no number only causes a warning:
  it is kept.
\<close>

fun keep_pids :: "string list \<Rightarrow> string list" where
  "keep_pids [] = []"
| "keep_pids (s # strs) =
     (if s = [] then keep_pids strs
      else case Atoi s of Inl err \<Rightarrow> s # keep_pids strs | Inr _ \<Rightarrow> s # keep_pids strs)"

definition readPids :: "'w HaproxyOS \<Rightarrow> Haproxy \<Rightarrow> 'w \<Rightarrow> string list \<times> 'w" where
  "readPids os h w =
     (case ReadFile os (pidFile h) w of
        (Inl err, w) \<Rightarrow> if \<not> IsNotExist os err then ([], w) else (keep_pids (Split [] nl), w)
      | (Inr data, w) \<Rightarrow> (keep_pids (Split data nl), w))"

lemma keep_pids_filter: "keep_pids strs = filter (\<lambda>s. s \<noteq> []) strs"
  by (induction strs) (auto split: sum.split)

definition restart :: "'w HaproxyOS \<Rightarrow> Haproxy \<Rightarrow> 'w \<Rightarrow> gerror option \<times> 'w" where
  "restart os h w =
     (case readPids os h w of
        (pids, w) \<Rightarrow>
          (case cmdStart os (cmdPath h) ([cmdPath h, ''-f'', confFile h, ''-D'', ''-p'', pidFile h, ''-sf''] @ pids) w of
             (Some err, w) \<Rightarrow> (Some (''failed to start haproxy: '' @ err), w)
           | (None, w) \<Rightarrow>
               (case cmdWait os w of
                  (Some err, w) \<Rightarrow> (Some (''failed to wait haproxy: '' @ err), w)
                | (None, w) \<Rightarrow> (None, w))))"

text \<open>One turn of the loop of \<open>Run\<close>, and the loop over the buffers received.\<close>

definition run_conf :: "'w HaproxyOS \<Rightarrow> string \<Rightarrow> Haproxy \<times> 'w \<Rightarrow> Haproxy \<times> 'w" where
  "run_conf os data = (\<lambda>(h, w).
     if lastConf h = data then (h, w)
     else case buildConf os data (h, w) of
            (Some err, h, w) \<Rightarrow> (h, w)
          | (None, h, w) \<Rightarrow> (case restart os h w of (err, w) \<Rightarrow> (h, w)))"

definition haproxy_Run :: "'w HaproxyOS \<Rightarrow> string list \<Rightarrow> Haproxy \<times> 'w \<Rightarrow> Haproxy \<times> 'w" where
  "haproxy_Run os bufs = fold (run_conf os) bufs"

subsection \<open>What the system promises\<close>

text \<open>
  \<open>files\<close> gives the contents of the files; \<open>valid\<close> says which configurations haproxy accepts;
  \<open>sure\<close> that nothing fails but the check of a configuration that is not valid. A write that fails
  may leave anything in its file; a rename that fails changes nothing.
\<close>

locale haproxy_system =
  fixes os :: "'w HaproxyOS" and h0 :: Haproxy and files :: "'w \<Rightarrow> string \<Rightarrow> string option" and valid :: "string \<Rightarrow> bool"
    and sure :: bool
  assumes mkdir_law: "MkdirAll os d perm w = (e, w') \<Longrightarrow> files w' = files w \<and> (sure \<longrightarrow> e = None)"
    and write_law: "WriteFile os p data perm w = (e, w') \<Longrightarrow>
      (sure \<longrightarrow> e = None) \<and> (if e = None then files w' = (files w)(p \<mapsto> data) else (\<forall>q. q \<noteq> p \<longrightarrow> files w' q = files w q))"
    and check_law: "cmdOutput os (cmdPath h0) [cmdPath h0, ''-f'', p, ''-c''] w = ((out, e), w') \<Longrightarrow>
      files w' = files w \<and> (\<forall>d. files w p = Some d \<longrightarrow> (e = None \<longrightarrow> valid d) \<and> (sure \<longrightarrow> valid d \<longrightarrow> e = None))"
    and rename_law: "Rename os p q w = (e, w') \<Longrightarrow>
      (sure \<longrightarrow> e = None) \<and> files w' = (if e = None then (files w)(q := files w p, p := None) else files w)"
    and read_law: "ReadFile os p w = (res, w') \<Longrightarrow> files w' = files w"
    and start_law: "cmdStart os (cmdPath h0) args w = (e, w') \<Longrightarrow> files w' (confFile h0) = files w (confFile h0)"
    and wait_law: "cmdWait os w = (e, w') \<Longrightarrow> files w' (confFile h0) = files w (confFile h0)"
begin

abbreviation same_conf :: "Haproxy \<Rightarrow> bool" where
  "same_conf h \<equiv> confFile h = confFile h0 \<and> pidFile h = pidFile h0 \<and> cmdPath h = cmdPath h0"

lemma buildConf_result:
  assumes "same_conf h" "buildConf os data (h, w) = (e, h', w')"
  shows "h' = h\<lparr>lastConf := data\<rparr> \<and>
    files w' (confFile h0) = (if e = None then Some data else files w (confFile h0)) \<and>
    (e = None \<longrightarrow> valid data) \<and> (sure \<longrightarrow> valid data \<longrightarrow> e = None)"
proof -
  let ?t = "confFile h0 @ ''.tmp''"
  obtain e1 w1 where 1: "MkdirAll os (filepath_Dir (confFile h0)) 0x1ED w = (e1, w1)" by force
  obtain e2 w2 where 2: "WriteFile os ?t data 0x1A4 w1 = (e2, w2)" by force
  obtain out e3 w3 where 3: "cmdOutput os (cmdPath h0) [cmdPath h0, ''-f'', ?t, ''-c''] w2 = ((out, e3), w3)"
    by (metis prod.collapse)
  obtain e4 w4 where 4: "Rename os ?t (confFile h0) w3 = (e4, w4)" by force
  have ne: "confFile h0 \<noteq> ?t" by simp
  note laws = mkdir_law [OF 1] write_law [OF 2] check_law [OF 3] rename_law [OF 4]
  have h: "confFile h = confFile h0" "cmdPath h = cmdPath h0" using assms(1) by simp_all
  note run = assms(2) [unfolded buildConf_def checkConfigs_def Let_def prod.case]
  consider "e1 \<noteq> None" | "e1 = None" "e2 \<noteq> None" | "e1 = None" "e2 = None" "e3 \<noteq> None"
    | "e1 = None" "e2 = None" "e3 = None" "e4 \<noteq> None" | "e1 = None" "e2 = None" "e3 = None" "e4 = None"
    by blast
  then show ?thesis
  proof cases
    case 1
    then have "e \<noteq> None" "h' = h\<lparr>lastConf := data\<rparr>" "w' = w1" using run \<open>MkdirAll os _ _ w = _\<close> h by auto
    then show ?thesis using laws(1) 1 by auto
  next
    case 2
    then have "e \<noteq> None" "h' = h\<lparr>lastConf := data\<rparr>" "w' = w2"
      using run \<open>MkdirAll os _ _ w = _\<close> \<open>WriteFile os _ _ _ w1 = _\<close> h by auto
    then show ?thesis using laws(1,2) 2 ne by auto
  next
    case 3
    then have "e \<noteq> None" "h' = h\<lparr>lastConf := data\<rparr>" "w' = w3"
      using run \<open>MkdirAll os _ _ w = _\<close> \<open>WriteFile os _ _ _ w1 = _\<close> \<open>cmdOutput os _ _ w2 = _\<close> h by auto
    then show ?thesis using laws(1-3) 3 ne by auto
  next
    case 4
    then have "e \<noteq> None" "h' = h\<lparr>lastConf := data\<rparr>" "w' = w4"
      using run \<open>MkdirAll os _ _ w = _\<close> \<open>WriteFile os _ _ _ w1 = _\<close> \<open>cmdOutput os _ _ w2 = _\<close> \<open>Rename os _ _ w3 = _\<close> h by auto
    then show ?thesis using laws 4 ne by auto
  next
    case 5
    then have "e = None" "h' = h\<lparr>lastConf := data\<rparr>" "w' = w4"
      using run \<open>MkdirAll os _ _ w = _\<close> \<open>WriteFile os _ _ _ w1 = _\<close> \<open>cmdOutput os _ _ w2 = _\<close> \<open>Rename os _ _ w3 = _\<close> h by auto
    then show ?thesis using laws 5 ne by auto
  qed
qed

lemma restart_keeps:
  assumes "same_conf h" "restart os h w = (e, w')"
  shows "files w' (confFile h0) = files w (confFile h0)"
proof -
  obtain pids w1 where 1: "readPids os h w = (pids, w1)" by force
  have f1: "files w1 = files w"
    using 1 read_law by (auto simp: readPids_def split: prod.splits sum.splits if_splits)
  define args where "args = [cmdPath h0, ''-f'', confFile h0, ''-D'', ''-p'', pidFile h0, ''-sf''] @ pids"
  obtain e2 w2 where 2: "cmdStart os (cmdPath h0) args w1 = (e2, w2)" by force
  obtain e3 w3 where 3: "cmdWait os w2 = (e3, w3)" by force
  have "w' = w2 \<or> w' = w3"
    using assms 1 2 3 by (auto simp: restart_def args_def split: option.splits)
  then show ?thesis using f1 start_law [OF 2] wait_law [OF 3] by auto
qed

lemma run_conf_result:
  assumes "same_conf h" "run_conf os data (h, w) = (h', w')"
  shows "same_conf h' \<and> lastConf h' = data \<and>
    (files w' (confFile h0) = files w (confFile h0) \<or> (files w' (confFile h0) = Some data \<and> valid data)) \<and>
    (sure \<longrightarrow> valid data \<longrightarrow> lastConf h \<noteq> data \<longrightarrow> files w' (confFile h0) = Some data)"
proof (cases "lastConf h = data")
  case True
  then show ?thesis using assms by (simp add: run_conf_def)
next
  case False
  obtain e h1 w1 where b: "buildConf os data (h, w) = (e, h1, w1)" by (metis prod.collapse)
  note r = buildConf_result [OF assms(1) b]
  show ?thesis
  proof (cases e)
    case None
    obtain e2 w2 where rs: "restart os h1 w1 = (e2, w2)" by force
    have "h' = h1" "w' = w2" using assms(2) False b None rs by (simp_all add: run_conf_def)
    moreover have "files w2 (confFile h0) = files w1 (confFile h0)"
      using restart_keeps [OF _ rs] r assms(1) by simp
    ultimately show ?thesis using r None assms(1) by simp
  next
    case (Some x)
    then have "h' = h1" "w' = w1" using assms(2) False b by (simp_all add: run_conf_def)
    then show ?thesis using r Some assms(1) by auto
  qed
qed

lemma Run_result:
  "same_conf h \<Longrightarrow> haproxy_Run os bufs (h, w) = (h', w') \<Longrightarrow>
   same_conf h' \<and> lastConf h' = last (lastConf h # bufs) \<and>
   (files w' (confFile h0) = files w (confFile h0) \<or> (\<exists>d \<in> set bufs. files w' (confFile h0) = Some d \<and> valid d))"
proof (induction bufs arbitrary: h w)
  case (Cons b bufs)
  obtain h1 w1 where 1: "run_conf os b (h, w) = (h1, w1)" by force
  note r = run_conf_result [OF Cons.prems(1) 1]
  have "haproxy_Run os bufs (h1, w1) = (h', w')" using Cons.prems(2) 1 by (simp add: haproxy_Run_def)
  from Cons.IH [OF _ this] r show ?case by auto
qed (simp add: haproxy_Run_def)

end

subsection \<open>A small system\<close>

text \<open>Files in a map; haproxy accepts a configuration that is not empty.\<close>

definition map_os :: "(string \<rightharpoonup> string) HaproxyOS" where
  "map_os = \<lparr>ReadFile = (\<lambda>p w. (case w p of None \<Rightarrow> Inl ''not found'' | Some d \<Rightarrow> Inr d, w)),
     WriteFile = (\<lambda>p d perm w. (None, w(p \<mapsto> d))), IsNotExist = (\<lambda>e. e = ''not found''),
     MkdirAll = (\<lambda>d perm w. (None, w)), Rename = (\<lambda>p q w. (None, w(q := w p, p := None))),
     cmdOutput = (\<lambda>cmd args w. (([], if w (args ! 2) = Some [] then Some ''exit status 1'' else None), w)),
     cmdStart = (\<lambda>cmd args w. (None, w)), cmdWait = (\<lambda>w. (None, w))\<rparr>"

interpretation map_haproxy: haproxy_system map_os NewHaproxy "\<lambda>w. w" "\<lambda>d. d \<noteq> []" True
  by unfold_locales (auto simp: map_os_def split: if_splits)

subsection \<open>Properties\<close>

text \<open>
  C11. Whatever fails and whatever configurations arrive, the configuration file haproxy is started
  with is never half written and never one that haproxy rejected: after any number of buffers it
  is what it was at the start, or one of the buffers that passed the check.
\<close>

theorem Run_conf_valid:
  assumes "haproxy_system os h files valid sure" "haproxy_Run os bufs (h, w) = (h', w')"
  shows "files w' (confFile h) = files w (confFile h) \<or> (\<exists>d \<in> set bufs. files w' (confFile h) = Some d \<and> valid d)"
  using haproxy_system.Run_result [OF assms(1) _ assms(2)] by blast

theorem Run_conf_valid_witness:
  "(case haproxy_Run map_os [''a'', [], ''b''] (NewHaproxy, Map.empty) of
      (h', w') \<Rightarrow> w' ''/etc/haproxy/haproxy.cfg'' = Some ''b'') \<and>
   haproxy_system map_os NewHaproxy (\<lambda>w. w) (\<lambda>d. d \<noteq> []) True"
proof -
  obtain h' w' where run: "haproxy_Run map_os [''a'', [], ''b''] (NewHaproxy, Map.empty) = (h', w')" by force
  have c: "confFile NewHaproxy = ''/etc/haproxy/haproxy.cfg''" by (simp add: NewHaproxy_def)
  have "w' ''/etc/haproxy/haproxy.cfg'' = Some ''b''"
    using run by (auto simp: haproxy_Run_def run_conf_def buildConf_def checkConfigs_def restart_def readPids_def map_os_def
        NewHaproxy_def Let_def)
  then show ?thesis
    using Run_conf_valid [OF map_haproxy.haproxy_system_axioms run] run map_haproxy.haproxy_system_axioms by simp
qed

text \<open>
  If nothing fails, a valid configuration that differs from the last one received ends up in
  the configuration file.
\<close>

theorem run_conf_writes:
  assumes "haproxy_system os h files valid True" "valid data" "lastConf h \<noteq> data" "run_conf os data (h, w) = (h', w')"
  shows "files w' (confFile h) = Some data \<and> lastConf h' = data"
  using haproxy_system.run_conf_result [OF assms(1) _ assms(4)] assms(2,3) by blast

theorem run_conf_writes_witness:
  "case run_conf map_os ''a'' (NewHaproxy, Map.empty) of
     (h', w') \<Rightarrow> w' (confFile NewHaproxy) = Some ''a'' \<and> lastConf h' = ''a''"
proof -
  obtain h' w' where run: "run_conf map_os ''a'' (NewHaproxy, Map.empty) = (h', w')" by force
  have "''a'' \<noteq> []" "lastConf NewHaproxy \<noteq> ''a''" by (simp_all add: NewHaproxy_def)
  from run_conf_writes [OF map_haproxy.haproxy_system_axioms this run] run show ?thesis by simp
qed

text \<open>
  A configuration is handled once: the same buffer again changes nothing. This holds also
  when the first attempt failed, so after a failed write, check, rename or restart the sync that
  comes every minute with the same configuration does not try again.
\<close>

theorem run_conf_once: "run_conf os data (run_conf os data hw) = run_conf os data hw"
proof -
  obtain h w where hw: "hw = (h, w)" by force
  have skip: "lastConf h' = data \<Longrightarrow> run_conf os data (h', w') = (h', w')" for h' data os and w' :: 'a
    by (simp add: run_conf_def)
  have "lastConf (fst (snd (buildConf os data (h, w)))) = data"
    by (simp add: buildConf_def checkConfigs_def Let_def split: prod.splits option.splits)
  then have "lastConf (fst (run_conf os data (h, w))) = data"
    by (auto simp: run_conf_def split: prod.splits option.splits)
  then show ?thesis
    unfolding hw using skip [of "fst (run_conf os data (h, w))" data os "snd (run_conf os data (h, w))"] by simp
qed

end
