(* ===== verification/Balancer.thy ===== *)
theory Balancer
  imports ServerLive LvsBuild HaproxyConfProps Haproxy
begin

text \<open>
  \<^verbatim>\<open>server/bmlb/lb.go\<close>: the two balancers behind the interface \<open>LoadBalance\<close>, the contract the loop
  of the server needs of one (\<open>balancer\<close>), and what the whole program then does: a server at rest has
  set the machine up for the objects that are in the caches, if no event was one that the
  handlers drop and nothing has failed.
\<close>

subsection \<open>The balancers\<close>

text \<open>
  The channel to the haproxy runner has no buffer, so \<open>Build\<close> returns when the runner has taken the
  configuration. The state is the list of the configurations the runner was given.
\<close>

definition HaproxyLB_Build :: "HAProxyAdaptor \<Rightarrow> Service list \<Rightarrow> Endpoints list \<Rightarrow> string list \<Rightarrow> string list" where
  "HaproxyLB_Build a lbSvcs endpoints sent = (let buf = haproxy_Build a lbSvcs endpoints in sent @ [buf])"

definition HaproxyLB_Run :: "'w HaproxyOS \<Rightarrow> string list \<Rightarrow> Haproxy \<times> 'w \<Rightarrow> Haproxy \<times> 'w" where
  "HaproxyLB_Run os sent = haproxy_Run os sent"

text \<open>The iteration orders of the maps may differ from call to call.\<close>

type_synonym ('f, 'w, 'k) orders =
  "Service list \<Rightarrow> Endpoints list \<Rightarrow> ('f, 'w, 'k) host \<Rightarrow> map_order \<times> (nat \<Rightarrow> int32 \<Rightarrow> nat)"

definition LVSLB_Build :: "'f Files \<Rightarrow> ('w, 'k) LVSAdaptor \<Rightarrow> ('f, 'w, 'k) orders \<Rightarrow>
    Service list \<Rightarrow> Endpoints list \<Rightarrow> ('f, 'w, 'k) host \<Rightarrow> ('f, 'w, 'k) host" where
  "LVSLB_Build fs a orders lbSvcs endpoints h =
     (case orders lbSvcs endpoints h of (ord, rank) \<Rightarrow> snd (lvs_Build fs a ord rank lbSvcs endpoints h))"

subsection \<open>The contract\<close>

text \<open>The events whose objects satisfy a condition each.\<close>

fun event_ok :: "(Service \<Rightarrow> bool) \<Rightarrow> (Endpoints \<Rightarrow> bool) \<Rightarrow> server_event \<Rightarrow> bool" where
  "event_ok sok eok (SvcAdd svc) = sok svc"
| "event_ok sok eok (SvcUpdate old new) = sok new"
| "event_ok sok eok (EpAdd ep) = eok ep"
| "event_ok sok eok (EpUpdate old new) = eok new"
| "event_ok sok eok _ = True"

text \<open>The view of a service determines its key, so lists without repeated keys can be compared as sets of views.\<close>

lemma views_distinct: "distinct (map service_key svcs) \<Longrightarrow> distinct (map svc_view svcs)"
  by (auto simp: distinct_map inj_on_def service_key_def svc_view_def)

lemma views_mset:
  assumes "distinct (map service_key svcs)" "distinct (map service_key svcs')" "svc_view ` set svcs = svc_view ` set svcs'"
  shows "mset (map svc_view svcs) = mset (map svc_view svcs')"
  using assms(3) set_eq_iff_mset_eq_distinct [OF views_distinct [OF assms(1)] views_distinct [OF assms(2)]] by simp

text \<open>
  What the loop needs of a balancer: a call of \<open>Build\<close> with acceptable objects makes its state
  \<open>good\<close> for them, from every state; and whether a state is good does not depend on the order of
  the objects nor on the resource version and the status addresses of the services.
\<close>

locale balancer =
  fixes build :: "Service list \<Rightarrow> Endpoints list \<Rightarrow> 'l \<Rightarrow> 'l" and linv :: "'l \<Rightarrow> bool"
    and sok :: "Service \<Rightarrow> bool" and eok :: "Endpoints \<Rightarrow> bool"
    and good :: "Service list \<Rightarrow> Endpoints list \<Rightarrow> 'l \<Rightarrow> bool"
  assumes build_law: "linv lb \<Longrightarrow> \<forall>svc \<in> set svcs. sok svc \<Longrightarrow> \<forall>ep \<in> set eps. eok ep \<Longrightarrow>
      linv (build svcs eps lb) \<and> good svcs eps (build svcs eps lb)"
    and sok_law: "svc_view svc = svc_view svc' \<Longrightarrow> sok svc = sok svc'"
    and good_law: "good svcs eps lb \<Longrightarrow> mset (map svc_view svcs) = mset (map svc_view svcs') \<Longrightarrow> mset eps = mset eps' \<Longrightarrow>
      good svcs' eps' lb"
begin

definition binv :: "'l server \<Rightarrow> bool" where
  "binv s \<longleftrightarrow> linv (sv_lb s) \<and> (\<forall>svc \<in> ran (sv_svcs s). sok svc) \<and> (\<forall>ep \<in> ran (sv_eps s). eok ep) \<and>
     (\<forall>f n. sv_loop s = Listed f n \<longrightarrow> (\<forall>svc \<in> set f. sok svc)) \<and>
     (\<forall>fs es. sv_built s = Some (fs, es) \<longrightarrow> good fs es (sv_lb s))"

lemma ran_upd: "x \<in> ran (cache(k \<mapsto> y)) \<Longrightarrow> x = y \<or> x \<in> ran cache" "x \<in> ran (cache(k := None)) \<Longrightarrow> x \<in> ran cache"
  by (auto simp: ran_def split: if_splits)

lemma sok_mark: "sok (mark_svc bind svc) = sok svc"
  by (rule sok_law) simp

lemma sok_marked:
  assumes "\<forall>svc \<in> ran cache. sok svc" "\<forall>k. cache' k = cache k \<or> cache' k = map_option (mark_svc bind) (cache k)"
  shows "\<forall>svc \<in> ran cache'. sok svc"
proof
  fix svc assume "svc \<in> ran cache'"
  then obtain k where k: "cache' k = Some svc" by (auto simp: ran_def)
  then obtain old where "cache k = Some old" "svc = old \<or> svc = mark_svc bind old"
    using assms(2) [THEN spec, of k] by (cases "cache k") auto
  then show "sok svc" using assms(1) sok_mark by (auto simp: ran_def)
qed

lemma sok_filtered:
  assumes "\<forall>svc \<in> ran cache. sok svc" "enumerates cache svcs" "server_filter bind svcs = (filtered, needsUpdate, objs)"
  shows "\<forall>svc \<in> set filtered. sok svc"
  using assms by (auto simp: filter_spec enumerates_def sok_mark)

lemma binv_step: "sstep bind build s ev s' \<Longrightarrow> event_ok sok eok ev \<Longrightarrow> binv s \<Longrightarrow> binv s'"
proof (induction rule: sstep.induct)
  case (list_filter s svcs filtered needsUpdate objs cache)
  then have "\<forall>svc \<in> ran (sv_svcs s). sok svc" by (simp add: binv_def)
  from sok_marked [OF this list_filter(4)] sok_filtered [OF this list_filter(2,3)] list_filter(6)
  show ?case by (simp add: binv_def)
next
  case (build_lb s filtered needsUpdate eps)
  then show ?case using build_law [of "sv_lb s" filtered eps] by (simp add: binv_def enumerates_def)
qed (auto simp: binv_def dest!: ran_upd)

lemma binv_reach:
  assumes "sreach P bind build lb s" "\<And>ev. P ev \<Longrightarrow> event_ok sok eok ev" "linv lb"
  shows "binv s"
  using assms(1)
proof (induction rule: sreach.induct)
  case start
  then show ?case using assms(3) by (simp add: binv_def server0_def)
qed (use binv_step assms(2) in blast)

text \<open>A server at rest has set its balancer up for the objects in its caches.\<close>

theorem rests_good:
  assumes "sreach (\<lambda>ev. \<not> unheard ev \<and> event_ok sok eok ev) bind build lb s" "linv lb" "quiescent s"
    and "enumerates (sv_svcs s) svcs" "enumerates (sv_eps s) eps"
  shows "good (filter is_lb svcs) eps (sv_lb s)"
proof -
  from rests_fresh [OF assms(1) _ assms(3)] obtain fs es where b: "sv_built s = Some (fs, es)"
      "distinct (map service_key fs)" "svc_view ` set fs = lb_views (sv_svcs s)" "distinct es" "set es = ran (sv_eps s)" by blast
  have "distinct (map service_key (filter is_lb svcs))"
    using enumerated_keys [of service_key "sv_svcs s" svcs] sreach_wf [OF assms(1)] assms(4)
    by (simp add: server_wf_def distinct_map_filter)
  moreover have "svc_view ` set fs = svc_view ` set (filter is_lb svcs)"
    using b(3) assms(4) by (auto simp: lb_views_def enumerates_def)
  ultimately have "mset (map svc_view fs) = mset (map svc_view (filter is_lb svcs))"
    using views_mset [OF b(2)] by blast
  moreover have "mset es = mset eps" using b(4,5) assms(5) by (simp add: enumerates_def flip: set_eq_iff_mset_eq_distinct)
  moreover have "good fs es (sv_lb s)" using binv_reach [OF assms(1) _ assms(2)] b(1) by (simp add: binv_def)
  ultimately show ?thesis using good_law by blast
qed

end

subsection \<open>The lvs balancer\<close>

definition svc_ports_ok :: "Service \<Rightarrow> bool" where
  "svc_ports_ok svc \<longleftrightarrow> (\<forall>p \<in> set (svcPorts svc). spPort p \<noteq> 0 \<and> unat (spPort p) < 65536)"

definition eps_ok :: "Endpoints \<Rightarrow> bool" where
  "eps_ok e \<longleftrightarrow> (\<forall>ss \<in> set (epsSubsets e).
     (\<forall>p \<in> set (essPorts ss). unat (epPort p) < 65536) \<and>
     (\<forall>ip \<in> set (essAddresses ss). ip_valid (ParseIP ip) \<and> IP_String (ParseIP ip) = ip))"

lemma inputs_ok_each: "inputs_ok addr svcs eps \<longleftrightarrow>
    ip_valid addr \<and> (\<forall>svc \<in> set svcs. svc_ports_ok svc) \<and> (\<forall>e \<in> set eps. eps_ok e)"
  by (simp add: inputs_ok_def svc_ports_ok_def eps_ok_def)

text \<open>What the lvs balancer has to set up depends on the views of the services only, as a set.\<close>

lemma same_view:
  assumes "svc_view svc = svc_view svc'"
  obtains rv ig where "svc' = svc\<lparr>svcResourceVersion := rv, svcIngress := ig\<rparr>"
  using assms by (cases svc; cases svc') (auto simp: svc_view_def)

lemma view_serves: "svc_view svc = svc_view svc' \<Longrightarrow> serves svc = serves svc'"
  by (elim same_view) (simp add: serves_def fun_eq_iff)

lemma view_backends: "svc_view svc = svc_view svc' \<Longrightarrow> svc_backends eps port svc = svc_backends eps port svc'"
  by (elim same_view) (simp add: svc_backends_def)

lemma same_views_bex:
  assumes "svc_view ` A = svc_view ` B" "\<And>svc svc'. svc_view svc = svc_view svc' \<Longrightarrow> P svc = P svc'"
  shows "(\<exists>svc \<in> A. P svc) \<longleftrightarrow> (\<exists>svc \<in> B. P svc)"
proof -
  have "\<exists>svc' \<in> B. P svc'" if "svc \<in> A" "P svc" "svc_view ` A = svc_view ` B" for svc A B
  proof -
    have "svc_view svc \<in> svc_view ` B" using that by blast
    then obtain svc' where "svc' \<in> B" "svc_view svc = svc_view svc'" by blast
    then show ?thesis using that(2) assms(2) by blast
  qed
  note one = this
  show ?thesis
    by (rule iffI; elim bexE) (rule one [OF _ _ assms(1)], assumption+, rule one [OF _ _ assms(1) [symmetric]], assumption+)
qed

lemma want_content:
  assumes "svc_view ` set svcs = svc_view ` set svcs'" "set eps = set eps'"
  shows "want addr svcs eps = want addr svcs' eps'"
proof -
  have s: "(\<exists>svc \<in> set svcs. serves svc i port) \<longleftrightarrow> (\<exists>svc \<in> set svcs'. serves svc i port)" for i port
    by (rule same_views_bex [OF assms(1)]) (drule view_serves, simp)
  have e: "svc_backends eps port svc = svc_backends eps' port svc" for port svc
    using assms(2) by (simp add: svc_backends_def endpoints_of_def)
  have "r \<in> backends svcs eps i port \<longleftrightarrow> r \<in> backends svcs' eps' i port" for r i port
  proof -
    have "(\<exists>svc \<in> set svcs. serves svc i port \<and> r \<in> svc_backends eps port svc) \<longleftrightarrow>
        (\<exists>svc \<in> set svcs'. serves svc i port \<and> r \<in> svc_backends eps port svc)"
      by (rule same_views_bex [OF assms(1)]) (frule view_serves, drule view_backends [of _ _ eps port], simp)
    then show ?thesis by (auto simp: backends_def e)
  qed
  then have "backends svcs eps i port = backends svcs' eps' i port" for i port by blast
  then show ?thesis by (simp add: want_def s fun_eq_iff)
qed

lemma want_entries_content:
  assumes "svc_view ` set svcs = svc_view ` set svcs'"
  shows "want_entries addr svcs = want_entries addr svcs'"
proof -
  have each: "(\<exists>svc \<in> set svcs. serves svc i port) \<longleftrightarrow> (\<exists>svc \<in> set svcs'. serves svc i port)" for i port
    by (rule same_views_bex [OF assms]) (drule view_serves, simp)
  show ?thesis unfolding want_entries_def each ..
qed

text \<open>
  The machine is set up for these objects, and apart from that as it was at the start (\<open>h0\<close>): the
  ipvs table, the ipset, the rules and the setting of the kernel.
\<close>

definition lvs_good :: "('w \<Rightarrow> rule_table) \<Rightarrow> ('w \<Rightarrow> string \<Rightarrow> string set option) \<Rightarrow> ('k \<Rightarrow> lvs_table) \<Rightarrow>
    ('f \<Rightarrow> string \<Rightarrow> int option) \<Rightarrow> IP \<Rightarrow> ('f, 'w, 'k) host \<Rightarrow> Service list \<Rightarrow> Endpoints list \<Rightarrow> ('f, 'w, 'k) host \<Rightarrow> bool" where
  "lvs_good rules members ktab vals addr h0 svcs eps h \<longleftrightarrow>
     ktab (h_ipvs h) = want addr svcs eps \<and>
     members (h_net h) = (members (h_net h0))(ipsetName \<mapsto> want_entries addr svcs) \<and>
     rules_outcome True constRules (rules (h_net h0)) (rules (h_net h)) \<and>
     vals (h_files h) =
       (if vals (h_files h0) conntrack_path = None then vals (h_files h0) else (vals (h_files h0))(conntrack_path \<mapsto> 1))"

definition lvs_inv :: "('w \<Rightarrow> bool) \<Rightarrow> ('w \<Rightarrow> rule_table) \<Rightarrow> ('w \<Rightarrow> string \<Rightarrow> string set option) \<Rightarrow> ('k \<Rightarrow> bool) \<Rightarrow>
    ('f \<Rightarrow> string \<Rightarrow> int option) \<Rightarrow> ('f, 'w, 'k) host \<Rightarrow> ('f, 'w, 'k) host \<Rightarrow> bool" where
  "lvs_inv ninv rules members kinv vals h0 h \<longleftrightarrow>
     ninv (h_net h) \<and> (\<forall>k. distinct (rules (h_net h) k)) \<and> kinv (h_ipvs h) \<and>
     rules_outcome False constRules (rules (h_net h0)) (rules (h_net h)) \<and>
     (\<forall>n. n \<noteq> ipsetName \<longrightarrow> members (h_net h) n = members (h_net h0) n) \<and>
     (vals (h_files h) = vals (h_files h0) \<or>
      vals (h_files h0) conntrack_path \<noteq> None \<and> vals (h_files h) = (vals (h_files h0))(conntrack_path \<mapsto> 1))"

lemma rules_outcome_start: "\<forall>k. distinct (R k) \<Longrightarrow> rules_outcome False rs R R"
  unfolding rules_outcome_def by blast

lemma rules_outcome_weak: "rules_outcome sure rs R R' \<Longrightarrow> rules_outcome False rs R R'"
  by (simp add: rules_outcome_def)

lemma rules_outcome_trans:
  assumes "rules_outcome False rs R0 R" "rules_outcome sure rs R R'"
  shows "rules_outcome sure rs R0 R'"
  unfolding rules_outcome_def
proof (intro conjI allI)
  fix k
  show "distinct (R' k)" using assms(2) by (simp add: rules_outcome_def del: split_paired_All)
  have "set (R0 k) \<subseteq> set (R k)" "set (R k) \<subseteq> set (R' k)" using assms by (simp_all add: rules_outcome_def del: split_paired_All)
  then show "set (R0 k) \<subseteq> set (R' k)" by blast
  have "set (R k) \<subseteq> set (R0 k) \<union> {cr_rules r |r. r \<in> set rs \<and> (cr_table r, cr_chain r) = k}"
    "set (R' k) \<subseteq> set (R k) \<union> {cr_rules r |r. r \<in> set rs \<and> (cr_table r, cr_chain r) = k}"
    using assms by (simp_all add: rules_outcome_def del: split_paired_All)
  then show "set (R' k) \<subseteq> set (R0 k) \<union> {cr_rules r |r. r \<in> set rs \<and> (cr_table r, cr_chain r) = k}" by blast
  show "sure \<longrightarrow> (\<forall>r \<in> set rs. cr_rules r \<in> set (R' (cr_table r, cr_chain r)))"
    using assms(2) by (simp add: rules_outcome_def del: split_paired_All)
qed

context ipvs_kernel_reliable
begin

lemma kernel_sync_inv:
  assumes "inputs_ok addr lbSvcs eps" "kinv s"
  shows "kinv (sync_lvs (lvs_runner h) ord addr (eps_map lbSvcs eps) (port_service_map lbSvcs) s)"
  using no_fail.sync_lvs_outcome [OF assms refl, of ord] by blast

end

lemma lvs_inv_start:
  assumes "ninv (h_net h0)" "\<forall>k. distinct (rules (h_net h0) k)" "kinv (h_ipvs h0)"
  shows "lvs_inv ninv rules members kinv vals h0 h0"
  using assms rules_outcome_start [OF assms(2)] by (simp add: lvs_inv_def del: split_paired_All)

lemma LVSLB_balancer:
  fixes orders :: "('f, 'w, 'k) orders"
  assumes "proc_files_reliable fs vals" "netfilter_tools ex r ninv rules members True" "ipvs_kernel_reliable kh kinv ktab"
    and "ip_valid addr" "length (To4 addr) = 4"
  shows "balancer (LVSLB_Build fs (lvs_adaptor kh ex os n r addr) orders) (lvs_inv ninv rules members kinv vals h0)
    svc_ports_ok eps_ok (lvs_good rules members ktab vals addr h0)"
proof
  fix h :: "('f, 'w, 'k) host" and svcs eps
  assume h: "lvs_inv ninv rules members kinv vals h0 h" and ok: "\<forall>svc \<in> set svcs. svc_ports_ok svc" "\<forall>ep \<in> set eps. eps_ok ep"
  obtain ord rank where o: "orders svcs eps h = (ord, rank)" by force
  obtain res h' where run: "lvs_Build fs (lvs_adaptor kh ex os n r addr) ord rank svcs eps h = (res, h')" by force
  note parts = Build_parts [OF run]
  have inp: "inputs_ok addr svcs eps" using assms(4) ok by (simp add: inputs_ok_each)
  have pre: "ninv (h_net h)" "\<forall>k. distinct (rules (h_net h) k)" "kinv (h_ipvs h)"
      "rules_outcome False constRules (rules (h_net h0)) (rules (h_net h))"
      "\<forall>n. n \<noteq> ipsetName \<longrightarrow> members (h_net h) n = members (h_net h0) n"
    using h unfolding lvs_inv_def by blast+
  note net = net_outcome [OF assms(2) inp assms(5) pre(1,2) parts(3)]
  have rl: "rules_outcome True constRules (rules (h_net h0)) (rules (h_net h'))"
    using rules_outcome_trans [OF pre(4)] net by blast
  have ms: "members (h_net h') = (members (h_net h0))(ipsetName \<mapsto> want_entries addr svcs)"
    using net pre(5) by (auto simp: set_outcome_def fun_eq_iff)
  have vl: "vals (h_files h') =
      (if vals (h_files h0) conntrack_path = None then vals (h_files h0) else (vals (h_files h0))(conntrack_path \<mapsto> 1))"
    unfolding parts(2) checkSysctl_vals [OF assms(1)] using h by (auto simp: lvs_inv_def)
  have "LVSLB_Build fs (lvs_adaptor kh ex os n r addr) orders svcs eps h = h'"
    by (simp add: LVSLB_Build_def o run)
  moreover have "lvs_inv ninv rules members kinv vals h0 h'"
    unfolding lvs_inv_def
  proof (intro conjI)
    show "ninv (h_net h')" using net by blast
    show "\<forall>k. distinct (rules (h_net h') k)" using rl by (simp add: rules_outcome_def del: split_paired_All)
    show "kinv (h_ipvs h')" unfolding parts(4) by (rule ipvs_kernel_reliable.kernel_sync_inv [OF assms(3) inp pre(3)])
    show "rules_outcome False constRules (rules (h_net h0)) (rules (h_net h'))" by (rule rules_outcome_weak [OF rl])
  qed (simp_all add: ms vl)
  moreover have "lvs_good rules members ktab vals addr h0 svcs eps h'"
    unfolding lvs_good_def using rl ms vl ipvs_kernel_reliable.kernel_sync_converges [OF assms(3) inp pre(3)] parts(4) by simp
  ultimately show "lvs_inv ninv rules members kinv vals h0 (LVSLB_Build fs (lvs_adaptor kh ex os n r addr) orders svcs eps h) \<and>
      lvs_good rules members ktab vals addr h0 svcs eps (LVSLB_Build fs (lvs_adaptor kh ex os n r addr) orders svcs eps h)"
    by simp
next
  show "svc_ports_ok svc = svc_ports_ok svc'" if "svc_view svc = svc_view svc'" for svc svc'
    using that by (elim same_view) (simp add: svc_ports_ok_def)
next
  show "lvs_good rules members ktab vals addr h0 svcs' eps' h"
    if "lvs_good rules members ktab vals addr h0 svcs eps h"
      "mset (map svc_view svcs) = mset (map svc_view svcs')" "mset eps = mset eps'"
    for svcs eps svcs' eps' and h :: "('f, 'w, 'k) host"
  proof -
    have "svc_view ` set svcs = svc_view ` set svcs'" "set eps = set eps'"
      using mset_eq_setD [OF that(2)] mset_eq_setD [OF that(3)] by simp_all
    from want_content [OF this] want_entries_content [OF this(1)] that(1) show ?thesis by (simp add: lvs_good_def)
  qed
qed

interpretation sim_lvs: balancer "LVSLB_Build map_files (lvs_adaptor kernel_handle net_exec net_locks 10 net_runner demo_addr) (\<lambda>_ _ _. (demo_ord, \<lambda>_ _. 0))"
    "lvs_inv net_inv fst net_members kernel_inv int64_vals demo_host" svc_ports_ok eps_ok
    "lvs_good fst net_members kernel_tab int64_vals demo_addr demo_host"
  by (rule LVSLB_balancer [OF map_proc_sure.proc_files_reliable_axioms simn.netfilter_tools_axioms kern.ipvs_kernel_reliable_axioms])
    (simp_all add: demo_addr_def ip_valid_def To4_def)


lemma demo_lb: "is_lb demo_svc" "svc_ports_ok demo_svc" "eps_ok demo_eps"
  using demo_inputs by (simp_all add: inputs_ok_each is_lb_def demo_svc_def ServiceTypeLoadBalancer_def)

lemma want_marked: "want addr [mark_svc bind svc] eps = want addr [svc] eps" "want_entries addr [mark_svc bind svc] = want_entries addr [svc]"
  by (rule want_content) (simp_all add: want_entries_content [of "[mark_svc bind svc]" "[svc]"])


subsection \<open>The haproxy balancer\<close>

lemma write_service_mono: "length buf \<le> length (write_service a endpointsMap svc buf)"
  by (simp add: write_service_def Let_def)

lemma haproxy_Build_nonempty: "haproxy_Build haproxy_adaptor svcs eps \<noteq> []"
proof -
  have "length buf \<le> length (fold (write_service haproxy_adaptor endpointsMap) xs buf)" for endpointsMap xs buf
    by (induction xs arbitrary: buf) (auto intro: le_trans [OF write_service_mono])
  moreover have "GetSampleTemplate \<noteq> []" by (simp add: GetSampleTemplate_def sample_lines_def)
  ultimately show ?thesis unfolding haproxy_Build_def header_text Let_def by (metis le_zero_eq length_0_conv)
qed

text \<open>A configuration depends on the views of the services, in their order.\<close>

lemma fold_views:
  assumes "map svc_view xs = map svc_view ys" "\<And>x y. svc_view x = svc_view y \<Longrightarrow> f x = f y"
  shows "fold f xs = fold f ys"
  using assms(1)
proof (induction xs arbitrary: ys)
  case (Cons x xs)
  then obtain y zs where ys: "ys = y # zs" "svc_view x = svc_view y" "map svc_view xs = map svc_view zs"
    by (cases ys) auto
  show ?case using Cons.IH [OF ys(3)] assms(2) [OF ys(2)] by (simp add: ys(1))
qed simp

lemma haproxy_views:
  assumes "map svc_view svcs = map svc_view svcs'"
  shows "haproxy_Build a svcs eps = haproxy_Build a svcs' eps"
proof -
  have "fold epm_init svcs = fold epm_init svcs'"
    by (rule fold_views [OF assms], elim same_view) (simp add: epm_init_def fun_eq_iff split: option.split)
  moreover have "fold (write_service a em) svcs = fold (write_service a em) svcs'" for em
    by (rule fold_views [OF assms], elim same_view)
      (simp add: write_service_def service_binds_def service_servers_def fun_eq_iff Let_def)
  ultimately show ?thesis by (simp add: haproxy_Build_def)
qed

text \<open>The last configuration handed over is that of these objects, in some order.\<close>

definition conf_good :: "Service list \<Rightarrow> Endpoints list \<Rightarrow> string list \<Rightarrow> bool" where
  "conf_good svcs eps sent \<longleftrightarrow> sent \<noteq> [] \<and>
     (\<exists>svcs' eps'. mset svcs' = mset svcs \<and> mset eps' = mset eps \<and> last sent = haproxy_Build haproxy_adaptor svcs' eps')"

interpretation hap: balancer "HaproxyLB_Build haproxy_adaptor" "list_all (\<lambda>d. d \<noteq> [])" "\<lambda>_. True" "\<lambda>_. True" conf_good
proof
  fix sent :: "string list" and svcs eps
  assume "list_all (\<lambda>d. d \<noteq> []) sent"
  then show "list_all (\<lambda>d. d \<noteq> []) (HaproxyLB_Build haproxy_adaptor svcs eps sent) \<and> conf_good svcs eps (HaproxyLB_Build haproxy_adaptor svcs eps sent)"
    by (auto simp: HaproxyLB_Build_def conf_good_def haproxy_Build_nonempty)
next
  fix svcs svcs2 :: "Service list" and eps eps2 :: "Endpoints list" and sent
  assume good: "conf_good svcs eps sent" and same: "mset (map svc_view svcs) = mset (map svc_view svcs2)" "mset eps = mset eps2"
  then obtain svcs' eps' where *: "mset svcs' = mset svcs" "mset eps' = mset eps" "sent \<noteq> []"
      "last sent = haproxy_Build haproxy_adaptor svcs' eps'" by (auto simp: conf_good_def)
  have "mset (map svc_view svcs2) = mset (map svc_view svcs')" using *(1) same(1) by (metis mset_map)
  from permute_preimage [OF this] obtain svcs2' where "mset svcs2' = mset svcs2" "map svc_view svcs2' = map svc_view svcs'" by blast
  with * same(2) haproxy_views [of svcs2' svcs'] show "conf_good svcs2 eps2 sent"
    unfolding conf_good_def by (intro conjI exI [of _ svcs2'] exI [of _ eps']) simp_all
qed simp

context haproxy_system
begin

lemma Run_latest:
  "haproxy_Run os bufs (h, w) = (h', w') \<Longrightarrow> sure \<Longrightarrow> same_conf h \<Longrightarrow> list_all (\<lambda>d. valid d \<and> d \<noteq> []) bufs \<Longrightarrow>
   lastConf h = [] \<or> files w (confFile h0) = Some (lastConf h) \<Longrightarrow> bufs \<noteq> [] \<Longrightarrow>
   files w' (confFile h0) = Some (last bufs)"
proof (induction bufs arbitrary: h w)
  case (Cons b bufs)
  obtain h1 w1 where 1: "run_conf os b (h, w) = (h1, w1)" by force
  note res = run_conf_result [OF Cons.prems(3) 1]
  have "files w1 (confFile h0) = Some b"
  proof (cases "lastConf h = b")
    case True
    then show ?thesis using 1 Cons.prems(4,5) by (auto simp: run_conf_def)
  next
    case False
    then show ?thesis using res Cons.prems(2,4) by simp
  qed
  moreover have "haproxy_Run os bufs (h1, w1) = (h', w')" using Cons.prems(1) 1 by (simp add: haproxy_Run_def)
  ultimately show ?case
    using Cons.IH [of h1 w1] Cons.prems res by (cases "bufs = []") (auto simp: haproxy_Run_def)
qed simp

end

text \<open>
  C10. The whole program with haproxy: in every interleaving of informers and loop in which no event
  is one that the handlers drop (\<open>unheard\<close>), when nothing fails and haproxy accepts every
  configuration the runner was given, and the server rests and the runner has worked off what it
  was given, the configuration file is the one written for the services of type LoadBalancer and
  the endpoints that are in the caches now, each once, in some order in which \<open>List\<close> can return them.
\<close>

theorem server_haproxy_converged:
  assumes "haproxy_system os NewHaproxy files valid True" "list_all valid (sv_lb s)"
    and "sreach (\<lambda>ev. \<not> unheard ev) bind (HaproxyLB_Build haproxy_adaptor) [] s" "quiescent s"
    and "HaproxyLB_Run os (sv_lb s) (NewHaproxy, w) = (h', w')"
  shows "\<exists>svcs eps. enumerates (sv_svcs s) svcs \<and> enumerates (sv_eps s) eps \<and>
    files w' (confFile NewHaproxy) = Some (haproxy_Build haproxy_adaptor (filter is_lb svcs) eps)"
proof -
  have ok: "event_ok (\<lambda>_. True) (\<lambda>_. True) ev" for ev by (cases ev) simp_all
  have r: "sreach (\<lambda>ev. \<not> unheard ev \<and> event_ok (\<lambda>_. True) (\<lambda>_. True) ev) bind (HaproxyLB_Build haproxy_adaptor) [] s"
    using assms(3) by (simp add: ok)
  have "cache_wf service_key (sv_svcs s)" "cache_wf endpoints_key (sv_eps s)"
    using sreach_wf [OF r] by (simp_all add: server_wf_def)
  then obtain svcs eps where e: "enumerates (sv_svcs s) svcs" "enumerates (sv_eps s) eps"
    using cache_enumerable by metis
  have "conf_good (filter is_lb svcs) eps (sv_lb s)" by (rule hap.rests_good [OF r _ assms(4) e]) simp
  then obtain svcs' eps' where good: "sv_lb s \<noteq> []" "mset svcs' = mset (filter is_lb svcs)" "mset eps' = mset eps"
      "last (sv_lb s) = haproxy_Build haproxy_adaptor svcs' eps'" by (auto simp: conf_good_def)
  from permute_filter [OF good(2)] obtain svcs2 where p: "mset svcs2 = mset svcs" "filter is_lb svcs2 = svcs'" by blast
  have "list_all (\<lambda>d. d \<noteq> []) (sv_lb s)" using hap.binv_reach [OF r] by (simp add: hap.binv_def)
  then have all: "list_all (\<lambda>d. valid d \<and> d \<noteq> []) (sv_lb s)" using assms(2) by (simp add: list_all_iff)
  have "files w' (confFile NewHaproxy) = Some (last (sv_lb s))"
    by (rule haproxy_system.Run_latest [OF assms(1) assms(5) [unfolded HaproxyLB_Run_def] _ _ all])
      (use good(1) in \<open>simp_all add: NewHaproxy_def\<close>)
  moreover have "enumerates (sv_svcs s) svcs2" "enumerates (sv_eps s) eps'"
    using e p(1) good(3) mset_eq_setD [OF p(1)] mset_eq_setD [OF good(3)] mset_eq_imp_distinct_iff [OF p(1)]
      mset_eq_imp_distinct_iff [OF good(3)] by (simp_all add: enumerates_def)
  ultimately show ?thesis using good(4) p(2) by auto
qed

lemma distinct_singleton: "distinct xs \<Longrightarrow> set xs = {x} \<Longrightarrow> xs = [x]"
  by (cases xs; cases "tl xs") auto

theorem server_haproxy_converged_witness:
  "\<exists>s. sreach (\<lambda>ev. \<not> unheard ev) ''10.0.0.1'' (HaproxyLB_Build haproxy_adaptor) [] s \<and> quiescent s \<and>
     snd (HaproxyLB_Run map_os (sv_lb s) (NewHaproxy, Map.empty)) ''/etc/haproxy/haproxy.cfg'' =
       Some (haproxy_Build haproxy_adaptor [mark_svc ''10.0.0.1'' demo_svc] [demo_eps])"
proof -
  let ?s = "built_server ''10.0.0.1'' (HaproxyLB_Build haproxy_adaptor) demo_svc demo_eps []"
  have r: "sreach (\<lambda>ev. \<not> unheard ev) ''10.0.0.1'' (HaproxyLB_Build haproxy_adaptor) [] ?s"
    by (rule reach_built) (simp_all add: demo_lb)
  have v: "list_all (\<lambda>d. d \<noteq> []) (sv_lb ?s)" by (simp add: built_server_def HaproxyLB_Build_def haproxy_Build_nonempty)
  obtain h' w' where run: "HaproxyLB_Run map_os (sv_lb ?s) (NewHaproxy, Map.empty) = (h', w')" by force
  have c: "confFile NewHaproxy = ''/etc/haproxy/haproxy.cfg''" by (simp add: NewHaproxy_def)
  from server_haproxy_converged [OF map_haproxy.haproxy_system_axioms v r built_quiescent run]
  obtain svcs eps where fin: "enumerates (sv_svcs ?s) svcs" "enumerates (sv_eps ?s) eps"
      "w' ''/etc/haproxy/haproxy.cfg'' = Some (haproxy_Build haproxy_adaptor (filter is_lb svcs) eps)" unfolding c by blast
  have "svcs = [mark_svc ''10.0.0.1'' demo_svc]" "eps = [demo_eps]"
    using fin(1,2) by (auto simp: enumerates_def built_server_def intro!: distinct_singleton)
  with fin(3) have "snd (HaproxyLB_Run map_os (sv_lb ?s) (NewHaproxy, Map.empty)) ''/etc/haproxy/haproxy.cfg'' =
      Some (haproxy_Build haproxy_adaptor [mark_svc ''10.0.0.1'' demo_svc] [demo_eps])"
    by (simp only: run snd_conv) (simp add: demo_lb)
  with r built_quiescent show ?thesis by (intro exI [of _ ?s] conjI)
qed

end
