(* ===== verification/Startup.thy ===== *)
theory Startup
  imports Balancer
begin

text \<open>
  How the program starts: \<^verbatim>\<open>server/flags\<close>, the constructors of \<^verbatim>\<open>server/bmlb\<close> and \<^verbatim>\<open>watch\<close>, \<open>Start\<close> and \<open>main\<close>.
  The client library, the HTTP server and the parsing of the command line are parameters. A call
  that does not return, because \<open>glog.Fatal\<close> or a panic ends the process, is a value of \<open>proc\<close>.
\<close>

datatype 'a proc = Fatal string | Crash | Runs 'a

subsection \<open>flags.go\<close>

record ServerRunOptions =
  Profiling :: bool
  Bind_addr :: string
  Port :: int
  Master :: string
  KubeConf :: string
  LBType :: string

definition NewServerRunOptions :: ServerRunOptions where
  "NewServerRunOptions = \<lparr>Profiling = True, Bind_addr = ''0.0.0.0'', Port = 9010, Master = [], KubeConf = [], LBType = ''haproxy''\<rparr>"

text \<open>A flag: how its value changes the options, its name, its default and its usage.\<close>

datatype flag_var =
    BoolVar "bool \<Rightarrow> ServerRunOptions \<Rightarrow> ServerRunOptions" string bool string
  | StringVar "string \<Rightarrow> ServerRunOptions \<Rightarrow> ServerRunOptions" string string string
  | IntVar "int \<Rightarrow> ServerRunOptions \<Rightarrow> ServerRunOptions" string int string

definition AddFlags :: "ServerRunOptions \<Rightarrow> flag_var list" where
  "AddFlags s =
     [BoolVar (\<lambda>v s. s\<lparr>Profiling := v\<rparr>) ''profiling'' (Profiling s) ''Enable profiling via web interface host:port/debug/pprof/'',
      StringVar (\<lambda>v s. s\<lparr>Bind_addr := v\<rparr>) ''bind'' (Bind_addr s) ''The ip address to bind'',
      IntVar (\<lambda>v s. s\<lparr>Port := v\<rparr>) ''port'' (Port s) ''The port on which to serve'',
      StringVar (\<lambda>v s. s\<lparr>Master := v\<rparr>) ''master'' (Master s) ''The address and port of the Kubernetes API server'',
      StringVar (\<lambda>v s. s\<lparr>KubeConf := v\<rparr>) ''kubeconfig'' (KubeConf s) ''The kube config file location of APISwitch, used to support TLS'',
      StringVar (\<lambda>v s. s\<lparr>LBType := v\<rparr>) ''lbtype'' (LBType s) ''The load balance type, currently supports haproxy and lvs'']"

subsection \<open>lb.go and Init\<close>

datatype ('w, 'k) LoadBalance = HaproxyLB Haproxy HAProxyAdaptor | LVSLB "('w, 'k) LVSAdaptor"

text \<open>What the lvs adaptor is made of.\<close>

record ('c, 'o, 'r, 'w, 'k) lvs_env =
  le_handle :: "gerror + 'k ipvs_Handle"
  le_exec :: "'w Exec"
  le_locks :: "'w LockOS"
  le_attempts :: nat
  le_godbus :: "('c, 'o, 'r, 'w) godbus"
  le_dbus :: "('c dbusImpl, 'w) cell"
  le_chan :: nat

text \<open>\<open>glog.Fatal\<close> does not format: the verb stays and the argument follows it.\<close>

definition NewLoadBalance :: "('c, 'o, 'r, 'w, 'k) lvs_env \<Rightarrow> string \<Rightarrow> IP \<Rightarrow> 'w \<Rightarrow> ('w, 'k) LoadBalance proc \<times> 'w" where
  "NewLoadBalance E lbtype ip w =
     (if lbtype = ''haproxy''
      then (case NewHAProxyAdaptor of Panics \<Rightarrow> (Crash, w) | Returns a \<Rightarrow> (Runs (HaproxyLB NewHaproxy a), w))
      else if lbtype = ''lvs''
      then (case NewLVSAdaptor (le_handle E) (le_exec E) (le_locks E) (le_attempts E) (le_godbus E) (le_dbus E) (le_chan E) ip w of
              (Panics, w) \<Rightarrow> (Crash, w)
            | (Returns a, w) \<Rightarrow> (Runs (LVSLB a), w))
      else (Fatal (''unsupport lbtype: %s'' @ lbtype), w))"

definition server_Init :: "('c, 'o, 'r, 'w, 'k) lvs_env \<Rightarrow> ServerRunOptions \<Rightarrow> 'w \<Rightarrow> ('w, 'k) LoadBalance proc \<times> 'w" where
  "server_Init E s w =
     (let ip = ParseIP (Bind_addr s)
      in if ip = [] then (Fatal (''bind address is invalid: %s'' @ Bind_addr s), w) else NewLoadBalance E (LBType s) ip w)"

subsection \<open>The watchers\<close>

text \<open>What an informer is made for and the handlers it is given.\<close>

record 'c watcher =
  w_resource :: string
  w_resync :: nat
  w_handlers :: "'c ResourceEventHandlerFuncs"

datatype goroutine = ControllerRun string | LBRun | Syncing

definition StartServiceWatcher :: "nat \<Rightarrow> goroutine list \<Rightarrow> service_call watcher \<times> goroutine list" where
  "StartServiceWatcher resyncPeriod gs =
     (\<lparr>w_resource = ''services'', w_resync = resyncPeriod, w_handlers = service_handlers\<rparr>, gs @ [ControllerRun ''services''])"

definition StartEndpointsWatcher :: "nat \<Rightarrow> goroutine list \<Rightarrow> endpoints_call watcher \<times> goroutine list" where
  "StartEndpointsWatcher resyncPeriod gs =
     (\<lparr>w_resource = ''endpoints'', w_resync = resyncPeriod, w_handlers = endpoints_handlers\<rparr>, gs @ [ControllerRun ''endpoints''])"

subsection \<open>Start\<close>

record 'x rest_Config =
  QPS :: nat
  Burst :: nat
  cfg_rest :: 'x

text \<open>The client library and \<open>net/http\<close>; \<open>ListenAndServe\<close> only returns with an error.\<close>

record ('x, 'cl, 'w) kube_lib =
  BuildConfigFromFlags :: "string \<Rightarrow> string \<Rightarrow> 'w \<Rightarrow> (gerror + 'x rest_Config) \<times> 'w"
  NewForConfig :: "'x rest_Config \<Rightarrow> 'w \<Rightarrow> (gerror + 'cl) \<times> 'w"
  ServerVersion :: "'cl \<Rightarrow> 'w \<Rightarrow> (gerror + string) \<times> 'w"
  ListenAndServe :: "string \<Rightarrow> 'w \<Rightarrow> gerror \<times> 'w"

text \<open>The server once it runs, with the goroutines in the order they were started.\<close>

record ('cl, 'w, 'k) running =
  r_options :: ServerRunOptions
  r_client :: 'cl
  r_lb :: "('w, 'k) LoadBalance"
  r_serviceWatcher :: "service_call watcher"
  r_endpointsWatcher :: "endpoints_call watcher"
  r_goroutines :: "goroutine list"

definition startWatcher :: "('x, 'cl, 'w) kube_lib \<Rightarrow> ServerRunOptions \<Rightarrow> ('w, 'k) LoadBalance \<Rightarrow> 'w
    \<Rightarrow> ('cl, 'w, 'k) running proc \<times> 'w" where
  "startWatcher K s lb w =
     (case BuildConfigFromFlags K (Master s) (KubeConf s) w of
        (Inl err, w) \<Rightarrow> (Fatal (''Invalid client config: '' @ err), w)
      | (Inr clientConfig, w) \<Rightarrow>
          let clientConfig = clientConfig\<lparr>QPS := 1000000, Burst := 1000000\<rparr>
          in case NewForConfig K clientConfig w of
               (Inl err, w) \<Rightarrow> (Fatal (''Can not generate client from config: '' @ err), w)
             | (Inr client, w) \<Rightarrow>
                 (case ServerVersion K client w of
                    (Inl err, w) \<Rightarrow> (Fatal err, w)
                  | (Inr v, w) \<Rightarrow>
                      let (sw, gs) = StartServiceWatcher 0 []; (ew, gs) = StartEndpointsWatcher 0 gs
                      in (Runs \<lparr>r_options = s, r_client = client, r_lb = lb, r_serviceWatcher = sw, r_endpointsWatcher = ew,
                                r_goroutines = gs\<rparr>, w)))"

definition launchServer :: "('x, 'cl, 'w) kube_lib \<Rightarrow> ServerRunOptions \<Rightarrow> 'w \<Rightarrow> gerror \<times> 'w" where
  "launchServer K s w = ListenAndServe K ('':'' @ Itoa (Port s)) w"

text \<open>
  The result of \<open>Start\<close>: how the process ends, the server as it ran, if it got so far, and the
  state at the end, without what the goroutines change meanwhile: their run is \<open>sstep\<close>.
\<close>

definition server_Start :: "('c, 'o, 'r, 'w, 'k) lvs_env \<Rightarrow> ('x, 'cl, 'w) kube_lib \<Rightarrow> ServerRunOptions \<Rightarrow> 'w
    \<Rightarrow> unit proc \<times> ('cl, 'w, 'k) running option \<times> 'w" where
  "server_Start E K s w =
     (case server_Init E s w of
        (Fatal msg, w) \<Rightarrow> (Fatal msg, None, w)
      | (Crash, w) \<Rightarrow> (Crash, None, w)
      | (Runs lb, w) \<Rightarrow>
          (case startWatcher K s lb w of
             (Fatal msg, w) \<Rightarrow> (Fatal msg, None, w)
           | (Crash, w) \<Rightarrow> (Crash, None, w)
           | (Runs r, w) \<Rightarrow>
               let r = r\<lparr>r_goroutines := r_goroutines r @ [LBRun, Syncing]\<rparr>
               in case launchServer K s w of (err, w) \<Rightarrow> (Fatal (''failed to start server: '' @ err), Some r, w)))"

subsection \<open>main\<close>

definition NewServer :: ServerRunOptions where
  "NewServer = NewServerRunOptions"

definition bmlb_main :: "(flag_var list \<Rightarrow> ServerRunOptions \<Rightarrow> ServerRunOptions) \<Rightarrow> ('c, 'o, 'r, 'w, 'k) lvs_env \<Rightarrow>
    ('x, 'cl, 'w) kube_lib \<Rightarrow> 'w \<Rightarrow> unit proc \<times> ('cl, 'w, 'k) running option \<times> 'w" where
  "bmlb_main InitFlags E K w =
     (let s = NewServer; s = InitFlags (AddFlags s) s in server_Start E K s w)"

subsection \<open>What starting does\<close>

text \<open>A call over \<^verbatim>\<open>godbus\<close> never panics, so neither does making the lvs adaptor.\<close>

lemma NewLVSAdaptor_returns:
  "\<exists>a w'. NewLVSAdaptor handle ex os n g db ch ip w = (Returns a, w') \<and> virtualServerAddress a = ip"
  by (auto simp: NewLVSAdaptor_def dbus_New_def ipt_New_def newInternal_def connectToFirewallD_def dbus_SystemBus_def connImpl_def
      conn_BusObject_def objectImpl_def obj_Call_def Let_def split: prod.splits sum.splits option.splits)

text \<open>The balancer of each type for an address, and the state after it has been made.\<close>

definition made_balancer :: "('c, 'o, 'r, 'w, 'k) lvs_env \<Rightarrow> string \<Rightarrow> IP \<Rightarrow> 'w \<Rightarrow> ('w, 'k) LoadBalance \<Rightarrow> 'w \<Rightarrow> bool" where
  "made_balancer E lbtype ip w lb w' \<longleftrightarrow>
     (case lb of
        HaproxyLB h a \<Rightarrow> lbtype = ''haproxy'' \<and> h = NewHaproxy \<and> a = haproxy_adaptor \<and> w' = w
      | LVSLB a \<Rightarrow> lbtype = ''lvs'' \<and> virtualServerAddress a = ip \<and>
          NewLVSAdaptor (le_handle E) (le_exec E) (le_locks E) (le_attempts E) (le_godbus E) (le_dbus E) (le_chan E) ip w = (Returns a, w'))"

text \<open>The client of the API server, or the first error on the way to it.\<close>

definition kube_client :: "('x, 'cl, 'w) kube_lib \<Rightarrow> ServerRunOptions \<Rightarrow> 'w \<Rightarrow> (gerror + 'cl) \<times> 'w" where
  "kube_client K s w =
     (case BuildConfigFromFlags K (Master s) (KubeConf s) w of
        (Inl err, w) \<Rightarrow> (Inl err, w)
      | (Inr config, w) \<Rightarrow>
          (case NewForConfig K (config\<lparr>QPS := 1000000, Burst := 1000000\<rparr>) w of
             (Inl err, w) \<Rightarrow> (Inl err, w)
           | (Inr client, w) \<Rightarrow>
               (case ServerVersion K client w of (Inl err, w) \<Rightarrow> (Inl err, w) | (Inr _, w) \<Rightarrow> (Inr client, w))))"

text \<open>A running server has these options, this client and balancer, and handlers of their kind on both informers.\<close>

definition serves_with :: "ServerRunOptions \<Rightarrow> 'cl \<Rightarrow> ('w, 'k) LoadBalance \<Rightarrow> ('cl, 'w, 'k) running \<Rightarrow> bool" where
  "serves_with s client lb r \<longleftrightarrow>
     r_options r = s \<and> r_client r = client \<and> r_lb r = lb \<and>
     w_resource (r_serviceWatcher r) = ''services'' \<and> w_handlers (r_serviceWatcher r) = service_handlers \<and>
     w_resource (r_endpointsWatcher r) = ''endpoints'' \<and> w_handlers (r_endpointsWatcher r) = endpoints_handlers"

lemma NewLoadBalance_made:
  assumes "lbtype \<in> {''haproxy'', ''lvs''}"
  shows "\<exists>lb w'. NewLoadBalance E lbtype ip w = (Runs lb, w') \<and> made_balancer E lbtype ip w lb w'"
proof -
  obtain a v where "NewLVSAdaptor (le_handle E) (le_exec E) (le_locks E) (le_attempts E) (le_godbus E) (le_dbus E) (le_chan E) ip w = (Returns a, v)"
      "virtualServerAddress a = ip" using NewLVSAdaptor_returns by metis
  then show ?thesis using assms by (auto simp: NewLoadBalance_def NewHAProxyAdaptor_eval made_balancer_def)
qed

lemma Init_result:
  "if ParseIP (Bind_addr s) = [] \<or> LBType s \<notin> {''haproxy'', ''lvs''} then \<exists>msg. server_Init E s w = (Fatal msg, w)
   else \<exists>lb w'. server_Init E s w = (Runs lb, w') \<and> made_balancer E (LBType s) (ParseIP (Bind_addr s)) w lb w'"
  using NewLoadBalance_made [of "LBType s" E "ParseIP (Bind_addr s)" w]
  by (auto simp: server_Init_def Let_def NewLoadBalance_def)

lemma startWatcher_result:
  "case kube_client K s w of
     (Inl err, w') \<Rightarrow> \<exists>msg. startWatcher K s lb w = (Fatal msg, w')
   | (Inr client, w') \<Rightarrow> \<exists>r. startWatcher K s lb w = (Runs r, w') \<and> serves_with s client lb r \<and>
       r_goroutines r = [ControllerRun ''services'', ControllerRun ''endpoints'']"
  by (simp add: serves_with_def kube_client_def startWatcher_def StartServiceWatcher_def StartEndpointsWatcher_def Let_def split: prod.split sum.split)

text \<open>
  C16. Starting the program: with an address that does not parse or an unknown type of balancer it
  ends before it touches anything. Otherwise the balancer of that type is made for the address,
  and if a client for the API server cannot be had, the program ends there; if it can, the
  server runs: with that balancer and that client, both informers with the handlers of their
  kind, and the goroutines in their order, all before the HTTP server is entered on its port. In
  every case the process ends with \<open>glog.Fatal\<close>, never with a panic.
\<close>

theorem Start_outcome:
  assumes "server_Start E K s w = (res, run, w')"
  shows "(\<exists>msg. res = Fatal msg) \<and>
    (if ParseIP (Bind_addr s) = [] \<or> LBType s \<notin> {''haproxy'', ''lvs''} then run = None \<and> w' = w
     else \<exists>lb w1. made_balancer E (LBType s) (ParseIP (Bind_addr s)) w lb w1 \<and>
       (case kube_client K s w1 of
          (Inl err, w2) \<Rightarrow> run = None \<and> w' = w2
        | (Inr client, w2) \<Rightarrow>
            (\<exists>r. run = Some r \<and> serves_with s client lb r \<and>
               r_goroutines r = [ControllerRun ''services'', ControllerRun ''endpoints'', LBRun, Syncing]) \<and>
            w' = snd (ListenAndServe K ('':'' @ Itoa (Port s)) w2)))"
proof (cases "ParseIP (Bind_addr s) = [] \<or> LBType s \<notin> {''haproxy'', ''lvs''}")
  case True
  then obtain msg where "server_Init E s w = (Fatal msg, w)" using Init_result [of s E w] by auto
  with assms True show ?thesis by (auto simp: server_Start_def)
next
  case False
  then obtain lb w1 where 1: "server_Init E s w = (Runs lb, w1)" "made_balancer E (LBType s) (ParseIP (Bind_addr s)) w lb w1"
    using Init_result [of s E w] by (auto simp del: insert_iff)
  obtain c w2 where k: "kube_client K s w1 = (c, w2)" by force
  note 2 = startWatcher_result [where K = K and s = s and w = w1 and lb = lb, unfolded k]
  have "(\<exists>msg. res = Fatal msg) \<and> (case kube_client K s w1 of
          (Inl err, w2) \<Rightarrow> run = None \<and> w' = w2
        | (Inr client, w2) \<Rightarrow>
            (\<exists>r. run = Some r \<and> serves_with s client lb r \<and>
               r_goroutines r = [ControllerRun ''services'', ControllerRun ''endpoints'', LBRun, Syncing]) \<and>
            w' = snd (ListenAndServe K ('':'' @ Itoa (Port s)) w2))"
    using assms 1(1) 2 by (cases c) (auto simp: k server_Start_def launchServer_def serves_with_def Let_def split: prod.splits)
  with 1(2) show ?thesis unfolding if_not_P [OF False] by (intro conjI exI [of _ lb] exI [of _ w1]) (elim conjE, assumption)+
qed

text \<open>A machine on which nothing fails, with a counter of the calls as its state.\<close>

definition calm_lib :: "(unit, unit, nat) kube_lib" where
  "calm_lib = \<lparr>BuildConfigFromFlags = (\<lambda>m k w. (Inr \<lparr>QPS = 5, Burst = 10, cfg_rest = ()\<rparr>, w + 1)),
     NewForConfig = (\<lambda>c w. (Inr (), w + 1)), ServerVersion = (\<lambda>c w. (Inr ''v1.9'', w + 1)),
     ListenAndServe = (\<lambda>a w. (''listen tcp '' @ a @ '': bind: address already in use'', w + 1))\<rparr>"

text \<open>Options with that type of balancer.\<close>

definition demo_options :: "string \<Rightarrow> ServerRunOptions" where
  "demo_options lbtype = NewServer\<lparr>LBType := lbtype\<rparr>"

theorem Start_outcome_witness:
  "\<forall>E :: (unit, unit, unit, nat, unit) lvs_env. \<exists>r q v w'.
     fst (snd (server_Start E calm_lib (demo_options ''haproxy'') 0)) = Some r \<and> r_lb r = HaproxyLB NewHaproxy haproxy_adaptor \<and>
     fst (snd (server_Start E calm_lib (demo_options ''lvs'') 0)) = Some q \<and> r_lb q = LVSLB v \<and>
     r_goroutines q = [ControllerRun ''services'', ControllerRun ''endpoints'', LBRun, Syncing] \<and>
     server_Start E calm_lib (demo_options ''ipvs'') 0 = (Fatal ''unsupport lbtype: %sipvs'', None, w') \<and> w' = 0"
proof
  fix E :: "(unit, unit, unit, nat, unit) lvs_env"
  have ip: "ParseIP (Bind_addr (demo_options t)) \<noteq> []" and t: "LBType (demo_options t) = t" for t
    by (simp_all add: demo_options_def NewServer_def NewServerRunOptions_def go_eval)
  have calm: "\<exists>w'. kube_client calm_lib s w = (Inr (), w')" for s w by (simp add: kube_client_def calm_lib_def)
  obtain res run w' where h: "server_Start E calm_lib (demo_options ''haproxy'') 0 = (res, run, w')" by (rule prod_cases3)
  obtain w1 lb where "made_balancer E ''haproxy'' (ParseIP (Bind_addr (demo_options ''haproxy''))) 0 lb w1" "\<exists>r. run = Some r \<and> r_lb r = lb"
    using Start_outcome [OF h] ip calm by (fastforce simp: t serves_with_def split: prod.splits)
  then obtain r where r: "run = Some r" "r_lb r = HaproxyLB NewHaproxy haproxy_adaptor"
    by (cases lb) (auto simp: made_balancer_def)
  obtain res2 run2 w2' where l: "server_Start E calm_lib (demo_options ''lvs'') 0 = (res2, run2, w2')" by (rule prod_cases3)
  obtain w2 lb2 where "made_balancer E ''lvs'' (ParseIP (Bind_addr (demo_options ''lvs''))) 0 lb2 w2"
      "\<exists>q. run2 = Some q \<and> r_lb q = lb2 \<and> r_goroutines q = [ControllerRun ''services'', ControllerRun ''endpoints'', LBRun, Syncing]"
    using Start_outcome [OF l] ip calm by (fastforce simp: t serves_with_def split: prod.splits)
  then obtain q v where q: "run2 = Some q" "r_lb q = LVSLB v"
      "r_goroutines q = [ControllerRun ''services'', ControllerRun ''endpoints'', LBRun, Syncing]"
    by (cases lb2) (auto simp: made_balancer_def)
  have i: "server_Start E calm_lib (demo_options ''ipvs'') 0 = (Fatal ''unsupport lbtype: %sipvs'', None, 0)"
    using ip [of "''ipvs''"] by (simp add: server_Start_def server_Init_def t NewLoadBalance_def Let_def)
  show "\<exists>r q v w'. fst (snd (server_Start E calm_lib (demo_options ''haproxy'') 0)) = Some r \<and> r_lb r = HaproxyLB NewHaproxy haproxy_adaptor \<and>
     fst (snd (server_Start E calm_lib (demo_options ''lvs'') 0)) = Some q \<and> r_lb q = LVSLB v \<and>
     r_goroutines q = [ControllerRun ''services'', ControllerRun ''endpoints'', LBRun, Syncing] \<and>
     server_Start E calm_lib (demo_options ''ipvs'') 0 = (Fatal ''unsupport lbtype: %sipvs'', None, w') \<and> w' = 0"
    unfolding h l i using r q by simp
qed

end
