(* ===== verification/Bits.thy ===== *)
theory Bits
  imports Prelude "HOL-Library.Signed_Division"
begin

text \<open>
  \<^verbatim>\<open>utils/bits/bits.go\<close>: a bitmap allocator of the numbers between \<open>min\<close> and \<open>max\<close>. The
  first part is the code as one goroutine runs it, with an index outside the slice as a panic;
  the second part is the machine of several goroutines, where each atomic load and each
  compare-and-swap is one step.
\<close>

unbundle bit_operations_syntax

record Bits =
  bmin :: int32
  bmax :: int32
  ballocated :: "u32 list"

definition NewBits :: "int32 \<Rightarrow> int32 \<Rightarrow> Bits gocall" where
  "NewBits mn mx =
     (let (mn, mx) = (if sint mx \<le> sint mn then (mx, mn) else (mn, mx));
          n = (sint (mx - mn) sdiv 32) + 1
      in if n < 0 then Panics
         else Returns \<lparr>bmin = mn, bmax = mx, ballocated = replicate (nat n) 0\<rparr>)"

definition ordinalToPos :: "int32 \<Rightarrow> int \<times> int" where
  "ordinalToPos ordinal = (sint ordinal sdiv 32, sint ordinal smod 32)"

text \<open>\<open>uint32(1) << uint(pos)\<close>: a shift by 32 or more (a negative \<open>pos\<close> too) gives 0.\<close>

definition bit_of :: "int \<Rightarrow> u32" where
  "bit_of pos = (if 0 \<le> pos \<and> pos < 32 then push_bit (nat pos) 1 else 0)"

definition in_range :: "Bits \<Rightarrow> int \<Rightarrow> bool" where
  "in_range a index \<longleftrightarrow> 0 \<le> index \<and> index < int (length (ballocated a))"

definition LoadUint32 :: "Bits \<Rightarrow> int \<Rightarrow> u32" where
  "LoadUint32 a index = ballocated a ! nat index"

definition CompareAndSwapUint32 :: "Bits \<Rightarrow> int \<Rightarrow> u32 \<Rightarrow> u32 \<Rightarrow> bool \<times> Bits" where
  "CompareAndSwapUint32 a index old new =
     (if LoadUint32 a index = old
      then (True, a\<lparr>ballocated := (ballocated a)[nat index := new]\<rparr>) else (False, a))"

text \<open>The two swaps of the file: set the bit of a number, clear it.\<close>

definition cas_set :: "Bits \<Rightarrow> int32 \<Rightarrow> u32 \<Rightarrow> bool \<times> Bits" where
  "cas_set a i old =
     (let (index, pos) = ordinalToPos (i - bmin a); b = bit_of pos
      in CompareAndSwapUint32 a index (old AND NOT b) (old OR b))"

definition cas_clear :: "Bits \<Rightarrow> int32 \<Rightarrow> u32 \<Rightarrow> bool \<times> Bits" where
  "cas_clear a i old =
     (let (index, pos) = ordinalToPos (i - bmin a); b = bit_of pos
      in CompareAndSwapUint32 a index (old OR b) (old AND NOT b))"

definition load_at :: "Bits \<Rightarrow> int32 \<Rightarrow> u32 gocall" where
  "load_at a i =
     (let (index, pos) = ordinalToPos (i - bmin a)
      in if in_range a index then Returns (LoadUint32 a index) else Panics)"

definition Allocated :: "Bits \<Rightarrow> int32 \<Rightarrow> (bool \<times> Bits) gocall" where
  "Allocated a i =
     (if sint i < sint (bmin a) \<or> sint i > sint (bmax a) then Returns (False, a)
      else case load_at a i of Panics \<Rightarrow> Panics | Returns old \<Rightarrow> Returns (cas_set a i old))"

definition Revoke :: "Bits \<Rightarrow> int32 \<Rightarrow> (bool \<times> Bits) gocall" where
  "Revoke a i =
     (if sint i < sint (bmin a) \<or> sint i > sint (bmax a) then Returns (False, a)
      else case load_at a i of Panics \<Rightarrow> Panics | Returns old \<Rightarrow> Returns (cas_clear a i old))"

lemma cas_set_False: "cas_set a i old = (False, a') \<Longrightarrow> a' = a"
  by (auto simp: cas_set_def CompareAndSwapUint32_def Let_def split: prod.splits if_splits)

lemma cas_set_last:
  assumes "i - bmin a = - 1" "load_at a i = Returns old"
  shows "fst (cas_set a i old)"
  using assms by (simp add: cas_set_def load_at_def ordinalToPos_def bit_of_def CompareAndSwapUint32_def
      in_range_def signed_modulo_int_def split: if_splits)

text \<open>The loop of \<open>Allocate\<close>; \<open>i++\<close> wraps around at 32 bits.\<close>

function Allocate_from :: "Bits \<Rightarrow> int32 \<Rightarrow> (int32 option \<times> Bits) gocall" where
  "Allocate_from a i =
     (if sint i \<le> sint (bmax a)
      then case load_at a i of
             Panics \<Rightarrow> Panics
           | Returns old \<Rightarrow>
               (case cas_set a i old of
                  (True, a') \<Rightarrow> Returns (Some i, a')
                | (False, _) \<Rightarrow> Allocate_from a (i + 1))
      else Returns (None, a))"
  by pat_completeness auto

termination
proof (relation "measure (\<lambda>(a, i). 2 ^ 32 - unat (i - bmin a))")
  fix a i old x a'
  assume that: "load_at a i = Returns old" "(x, a') = cas_set a i old" "x = False"
  show "((a, i + 1), a, i) \<in> measure (\<lambda>(a, i). 2 ^ 32 - unat (i - bmin a))"
  proof -
    have "i - bmin a \<noteq> - 1" using cas_set_last [of i a old] that by (metis fst_conv)
    then have "1 + (i - bmin a) \<noteq> 0" by (metis add.inverse_unique)
    from unatSuc [OF this] have "unat (i + 1 - bmin a) = unat (i - bmin a) + 1"
      by (simp add: algebra_simps)
    moreover have "unat (i - bmin a) < 2 ^ 32"
      using unsigned_less [of "i - bmin a", where ?'a = nat] by simp
    ultimately show ?thesis by simp
  qed
qed auto

declare Allocate_from.simps [simp del]

definition Allocate :: "Bits \<Rightarrow> (int32 option \<times> Bits) gocall" where
  "Allocate a = Allocate_from a (bmin a)"

subsection \<open>The set of allocated numbers\<close>

text \<open>
  The sizes for which the 32 bit arithmetic of the file is exact: the difference of the bounds
  fits an \<open>int32\<close>, and \<open>max\<close> is not the largest \<open>int32\<close>, so that \<open>i++\<close> ends the loop.
\<close>

definition bits_ok :: "Bits \<Rightarrow> bool" where
  "bits_ok a \<longleftrightarrow> sint (bmin a) \<le> sint (bmax a) \<and> sint (bmax a) < 2 ^ 31 - 1 \<and>
     sint (bmax a) - sint (bmin a) < 2 ^ 31 \<and>
     length (ballocated a) = nat ((sint (bmax a) - sint (bmin a)) div 32) + 1"

definition in_bounds :: "Bits \<Rightarrow> int32 \<Rightarrow> bool" where
  "in_bounds a i \<longleftrightarrow> sint (bmin a) \<le> sint i \<and> sint i \<le> sint (bmax a)"

definition ord :: "Bits \<Rightarrow> int32 \<Rightarrow> nat" where
  "ord a i = nat (sint i - sint (bmin a))"

definition taken :: "Bits \<Rightarrow> int32 set" where
  "taken a = {i. in_bounds a i \<and> bit (ballocated a ! (ord a i div 32)) (ord a i mod 32)}"

lemma sint_diff_exact:
  fixes x y :: int32
  assumes "- (2 ^ 31) \<le> sint x - sint y" "sint x - sint y < 2 ^ 31"
  shows "sint (x - y) = sint x - sint y"
proof -
  have "sint (x - y) = signed_take_bit 31 (sint x - sint y)"
    by (simp add: sint_word_ariths)
  then show ?thesis using assms by (simp add: signed_take_bit_int_eq_self)
qed

lemma sint_Suc_exact:
  fixes x :: int32
  assumes "sint x < 2 ^ 31 - 1"
  shows "sint (x + 1) = sint x + 1"
proof -
  have "sint (x + 1) = signed_take_bit 31 (sint x + 1)"
    by (simp add: sint_word_ariths)
  moreover have "- (2 ^ 31) \<le> sint x" using sint_range_size [of x] by (simp add: word_size)
  ultimately show ?thesis using assms by (simp add: signed_take_bit_int_eq_self)
qed

lemma ordinal_exact:
  assumes "bits_ok a" "in_bounds a i"
  shows "ordinalToPos (i - bmin a) = (int (ord a i div 32), int (ord a i mod 32))"
    and "ord a i div 32 < length (ballocated a)" "in_range a (int (ord a i div 32))"
proof -
  have s: "sint (i - bmin a) = int (ord a i)" "sint i - sint (bmin a) \<le> sint (bmax a) - sint (bmin a)"
    using assms by (auto simp: bits_ok_def in_bounds_def ord_def sint_diff_exact)
  then show "ordinalToPos (i - bmin a) = (int (ord a i div 32), int (ord a i mod 32))"
    by (cases "ord a i = 0") (simp_all add: ordinalToPos_def signed_divide_int_def signed_modulo_int_def zdiv_int zmod_int)
  show "ord a i div 32 < length (ballocated a)"
    using assms s(2) by (auto simp: bits_ok_def in_bounds_def ord_def nat_div_distrib intro!: nat_mono zdiv_mono1 le_imp_less_Suc)
  then show "in_range a (int (ord a i div 32))"
    by (simp add: in_range_def)
qed

lemma ord_inj: "in_bounds a i \<Longrightarrow> in_bounds a j \<Longrightarrow> ord a i = ord a j \<Longrightarrow> i = j"
  by (rule signed_word_eqI) (simp add: in_bounds_def ord_def eq_nat_nat_iff)

lemma bit_of_pos: "bit (bit_of (int n)) m \<longleftrightarrow> m = n \<and> n < 32"
  by (auto simp: bit_of_def bit_exp_iff)

text \<open>
  A swap that succeeds changes one number only, whatever was loaded before it; with the value
  just loaded it succeeds exactly when the number was free (or taken, for the other swap).
\<close>

lemma load_at_exact:
  "bits_ok a \<Longrightarrow> in_bounds a i \<Longrightarrow> load_at a i = Returns (ballocated a ! (ord a i div 32))"
  by (simp add: load_at_def ordinal_exact LoadUint32_def)

lemma taken_write:
  assumes "bits_ok a" "in_bounds a i"
    and "\<And>m. m < 32 \<Longrightarrow> bit w m = (if m = ord a i mod 32 then v else bit (ballocated a ! (ord a i div 32)) m)"
  shows "bits_ok (a\<lparr>ballocated := (ballocated a)[ord a i div 32 := w]\<rparr>)"
    and "taken (a\<lparr>ballocated := (ballocated a)[ord a i div 32 := w]\<rparr>) = (if v then insert i (taken a) else taken a - {i})"
proof -
  let ?a = "a\<lparr>ballocated := (ballocated a)[ord a i div 32 := w]\<rparr>"
  show "bits_ok ?a" using assms(1) by (simp add: bits_ok_def)
  have same: "in_bounds ?a j = in_bounds a j" "ord ?a j = ord a j" for j
    by (simp_all add: in_bounds_def ord_def)
  have "bit (ballocated ?a ! (ord a j div 32)) (ord a j mod 32) =
      (if j = i then v else bit (ballocated a ! (ord a j div 32)) (ord a j mod 32))"
    if "in_bounds a j" for j
  proof (cases "ord a j div 32 = ord a i div 32")
    case True
    then have "ord a j mod 32 = ord a i mod 32 \<longleftrightarrow> j = i"
      using ord_inj [OF that assms(2)] by (metis div_mod_decomp)
    then show ?thesis using True ordinal_exact(2) [OF assms(1,2)] assms(3) by simp
  next
    case False
    then show ?thesis by auto
  qed
  then show "taken ?a = (if v then insert i (taken a) else taken a - {i})"
    using assms(2) by (auto simp: taken_def same split: if_splits)
qed

lemma cas_set_exact:
  assumes "bits_ok a" "in_bounds a i" and cas: "cas_set a i old = (r, a')"
  shows "if r then i \<notin> taken a \<and> bits_ok a' \<and> taken a' = insert i (taken a) \<and> bmin a' = bmin a \<and> bmax a' = bmax a
         else a' = a"
    and "old = ballocated a ! (ord a i div 32) \<Longrightarrow> r \<longleftrightarrow> i \<notin> taken a"
proof -
  let ?w = "ballocated a ! (ord a i div 32)" and ?b = "bit_of (int (ord a i mod 32))"
  have r: "r \<longleftrightarrow> ?w = old AND NOT ?b"
    and a': "a' = (if r then a\<lparr>ballocated := (ballocated a)[ord a i div 32 := old OR ?b]\<rparr> else a)"
    using cas by (auto simp: cas_set_def ordinal_exact [OF assms(1,2)] CompareAndSwapUint32_def LoadUint32_def Let_def
        split: if_splits)
  have bits: "bit (old OR ?b) m = (if m = ord a i mod 32 then True else bit ?w m)" if "r" "m < 32" for m
    using that r by (auto simp: bit_or_iff bit_and_iff bit_not_iff bit_of_pos)
  have free: "i \<notin> taken a" if r
    using that r by (auto simp: taken_def bit_and_iff bit_not_iff bit_of_pos)
  show "if r then i \<notin> taken a \<and> bits_ok a' \<and> taken a' = insert i (taken a) \<and> bmin a' = bmin a \<and> bmax a' = bmax a
         else a' = a"
    using taken_write [OF assms(1,2) bits] free a' by auto
  assume w: "old = ?w"
  have "?w = old AND NOT ?b" if "i \<notin> taken a"
    by (rule bit_word_eqI) (use that assms(2) w in \<open>auto simp: taken_def bit_and_iff bit_not_iff bit_of_pos\<close>)
  then show "r \<longleftrightarrow> i \<notin> taken a" using free r by blast
qed

lemma cas_clear_exact:
  assumes "bits_ok a" "in_bounds a i" and cas: "cas_clear a i old = (r, a')"
  shows "if r then i \<in> taken a \<and> bits_ok a' \<and> taken a' = taken a - {i} \<and> bmin a' = bmin a \<and> bmax a' = bmax a
         else a' = a"
    and "old = ballocated a ! (ord a i div 32) \<Longrightarrow> r \<longleftrightarrow> i \<in> taken a"
proof -
  let ?w = "ballocated a ! (ord a i div 32)" and ?b = "bit_of (int (ord a i mod 32))"
  have r: "r \<longleftrightarrow> ?w = old OR ?b"
    and a': "a' = (if r then a\<lparr>ballocated := (ballocated a)[ord a i div 32 := old AND NOT ?b]\<rparr> else a)"
    using cas by (auto simp: cas_clear_def ordinal_exact [OF assms(1,2)] CompareAndSwapUint32_def LoadUint32_def Let_def
        split: if_splits)
  have bits: "bit (old AND NOT ?b) m = (if m = ord a i mod 32 then False else bit ?w m)" if "r" "m < 32" for m
    using that r by (auto simp: bit_or_iff bit_and_iff bit_not_iff bit_of_pos)
  have used: "i \<in> taken a" if r
    using that r assms(2) by (auto simp: taken_def bit_or_iff bit_of_pos)
  show "if r then i \<in> taken a \<and> bits_ok a' \<and> taken a' = taken a - {i} \<and> bmin a' = bmin a \<and> bmax a' = bmax a
         else a' = a"
    using taken_write [OF assms(1,2) bits] used a' by auto
  assume w: "old = ?w"
  have "?w = old OR ?b" if "i \<in> taken a"
    by (rule bit_word_eqI) (use that w in \<open>auto simp: taken_def bit_or_iff bit_of_pos\<close>)
  then show "r \<longleftrightarrow> i \<in> taken a" using used r by blast
qed

lemma NewBits_exact:
  assumes "sint mn \<le> sint mx" "sint mx < 2 ^ 31 - 1" "sint mx - sint mn < 2 ^ 31"
  shows "\<exists>a. NewBits mn mx = Returns a \<and> bits_ok a \<and> taken a = {} \<and> bmin a = mn \<and> bmax a = mx"
proof -
  define n where "n = nat ((sint mx - sint mn) div 32)"
  have d: "sint (mx - mn) = sint mx - sint mn" using assms by (intro sint_diff_exact) auto
  have q: "sint (mx - mn) sdiv 32 = int n"
    using assms(1) d by (cases "sint mx = sint mn") (simp_all add: n_def signed_divide_int_def)
  have "sint mx \<le> sint mn \<Longrightarrow> mx = mn" using assms(1) by (auto intro: signed_word_eqI)
  then have new: "NewBits mn mx = Returns \<lparr>bmin = mn, bmax = mx, ballocated = replicate (Suc n) 0\<rparr>"
    using q by (auto simp: NewBits_def Let_def nat_add_distrib simp del: replicate_Suc)
  have ok: "bits_ok \<lparr>bmin = mn, bmax = mx, ballocated = replicate (Suc n) 0\<rparr>"
    using assms by (simp add: bits_ok_def n_def)
  have "taken \<lparr>bmin = mn, bmax = mx, ballocated = replicate (Suc n) 0\<rparr> = {}"
    using ordinal_exact(2) [OF ok] by (auto simp: taken_def simp del: replicate_Suc)
  then show ?thesis using new ok by auto
qed

definition first_free :: "Bits \<Rightarrow> int \<Rightarrow> int32 option \<Rightarrow> Bits \<Rightarrow> bool" where
  "first_free a lo r a' \<longleftrightarrow> bits_ok a' \<and>
    (case r of
       None \<Rightarrow> a' = a \<and> (\<forall>j. in_bounds a j \<and> lo \<le> sint j \<longrightarrow> j \<in> taken a)
     | Some n \<Rightarrow> in_bounds a n \<and> lo \<le> sint n \<and> n \<notin> taken a \<and> taken a' = insert n (taken a) \<and>
         (\<forall>j. in_bounds a j \<and> lo \<le> sint j \<and> sint j < sint n \<longrightarrow> j \<in> taken a))"

lemma first_free_step:
  assumes "i \<in> taken a" "first_free a (sint i + 1) r a'"
  shows "first_free a (sint i) r a'"
proof -
  have "sint i \<le> sint j \<longleftrightarrow> j = i \<or> sint i + 1 \<le> sint j" for j
    by (metis add1_zle_eq order_le_less signed_word_eqI)
  then show ?thesis using assms by (cases r) (auto simp: first_free_def)
qed

lemma Allocate_from_exact:
  "bits_ok a \<Longrightarrow> sint (bmin a) \<le> sint i \<Longrightarrow>
     \<exists>r a'. Allocate_from a i = Returns (r, a') \<and> first_free a (sint i) r a'"
proof (induction a i rule: Allocate_from.induct)
  case (1 a i)
  show ?case
  proof (cases "sint i \<le> sint (bmax a)")
    case False
    then show ?thesis using 1(2) by (auto simp: Allocate_from.simps [of a i] in_bounds_def first_free_def)
  next
    case True
    then have bounds: "in_bounds a i" using 1(3) by (simp add: in_bounds_def)
    define old where "old = ballocated a ! (ord a i div 32)"
    have ld: "load_at a i = Returns old" using load_at_exact [OF 1(2) bounds] by (simp add: old_def)
    obtain r a1 where cas: "cas_set a i old = (r, a1)" by force
    note exact = cas_set_exact(1) [OF 1(2) bounds cas] cas_set_exact(2) [OF 1(2) bounds cas old_def]
    show ?thesis
    proof (cases r)
      case ok: True
      then have "Allocate_from a i = Returns (Some i, a1)"
        using True ld cas by (simp add: Allocate_from.simps [of a i])
      moreover have "first_free a (sint i) (Some i) a1"
        using exact ok bounds by (auto simp: first_free_def)
      ultimately show ?thesis by blast
    next
      case no: False
      have "sint (bmax a) < 2 ^ 31 - 1" using 1(2) by (simp add: bits_ok_def)
      then have nxt: "sint (i + 1) = sint i + 1" using True by (intro sint_Suc_exact) simp
      have step: "Allocate_from a i = Allocate_from a (i + 1)"
        using True ld cas no by (simp add: Allocate_from.simps [of a i])
      have "sint (bmin a) \<le> sint (i + 1)" using 1(3) nxt by simp
      from 1(1) [OF True ld cas [symmetric] _ 1(2) this] no obtain r' a' where
        "Allocate_from a i = Returns (r', a')" "first_free a (sint i + 1) r' a'"
        unfolding step nxt by auto
      then show ?thesis using first_free_step exact no by blast
    qed
  qed
qed

text \<open>
  C21. \<open>Allocate\<close>, run alone, returns (its loop ends and no index is out of range): the least
  number that is free, which it marks, or nil exactly when every number is taken.
\<close>

theorem Allocate_least_free:
  assumes "bits_ok a"
  shows "\<exists>r a'. Allocate a = Returns (r, a') \<and> bits_ok a' \<and>
    (case r of
       None \<Rightarrow> a' = a \<and> {j. in_bounds a j} \<subseteq> taken a
     | Some n \<Rightarrow> in_bounds a n \<and> n \<notin> taken a \<and> taken a' = insert n (taken a) \<and>
         {j. in_bounds a j \<and> sint j < sint n} \<subseteq> taken a)"
proof -
  have "\<exists>r a'. Allocate a = Returns (r, a') \<and> first_free a (sint (bmin a)) r a'"
    using Allocate_from_exact [OF assms order_refl] by (simp add: Allocate_def)
  then show ?thesis by (force simp: first_free_def in_bounds_def split: option.splits)
qed

definition demo_bits :: Bits where
  "demo_bits = \<lparr>bmin = 3, bmax = 9, ballocated = [3]\<rparr>"

lemma demo_bits_ok: "bits_ok demo_bits"
  by (simp add: bits_ok_def demo_bits_def)

lemma demo_Allocate: "Allocate demo_bits = Returns (Some 5, demo_bits\<lparr>ballocated := [7]\<rparr>)"
  by (simp add: Allocate_def Allocate_from.simps [of _ 3] Allocate_from.simps [of _ 4] Allocate_from.simps [of _ 5]
      demo_bits_def load_at_def cas_set_def ordinalToPos_def bit_of_def in_range_def LoadUint32_def
      CompareAndSwapUint32_def signed_divide_int_def signed_modulo_int_def)

theorem Allocate_least_free_witness:
  "bits_ok demo_bits \<and> Allocate demo_bits = Returns (Some 5, demo_bits\<lparr>ballocated := [7]\<rparr>) \<and>
   5 \<notin> taken demo_bits \<and> {j. in_bounds demo_bits j \<and> sint j < 5} \<subseteq> taken demo_bits \<and>
   taken (demo_bits\<lparr>ballocated := [7]\<rparr>) = insert 5 (taken demo_bits)"
  using Allocate_least_free [OF demo_bits_ok] demo_bits_ok by (auto simp: demo_Allocate)

text \<open>
  \<open>Allocated\<close> and \<open>Revoke\<close>, run alone, are insertion into and removal from the set of
  taken numbers: they report whether the number changed state, refuse a number outside the
  bounds, and never panic.
\<close>

theorem Allocated_Revoke_exact:
  assumes "bits_ok a"
  shows "(\<exists>a'. Allocated a i = Returns (in_bounds a i \<and> i \<notin> taken a, a') \<and> bits_ok a' \<and>
      taken a' = (if in_bounds a i then insert i (taken a) else taken a)) \<and>
    (\<exists>a'. Revoke a i = Returns (i \<in> taken a, a') \<and> bits_ok a' \<and> taken a' = taken a - {i})"
proof (cases "in_bounds a i")
  case False
  then show ?thesis
    using assms by (auto simp: Allocated_def Revoke_def in_bounds_def taken_def)
next
  case True
  define old where "old = ballocated a ! (ord a i div 32)"
  have ld: "load_at a i = Returns old" using load_at_exact [OF assms True] by (simp add: old_def)
  obtain r1 a1 where s: "cas_set a i old = (r1, a1)" by force
  obtain r2 a2 where c: "cas_clear a i old = (r2, a2)" by force
  have ops: "Allocated a i = Returns (r1, a1)" "Revoke a i = Returns (r2, a2)"
    using True ld s c by (auto simp: Allocated_def Revoke_def in_bounds_def)
  show ?thesis
    using cas_set_exact(1) [OF assms True s] cas_set_exact(2) [OF assms True s old_def]
      cas_clear_exact(1) [OF assms True c] cas_clear_exact(2) [OF assms True c old_def] True assms
    by (auto simp: ops split: if_splits)
qed

theorem Allocated_Revoke_exact_witness:
  "bits_ok demo_bits \<and> (\<exists>a'. Allocated demo_bits 6 = Returns (True, a') \<and> taken a' = insert 6 (taken demo_bits)) \<and>
   (\<exists>a'. Revoke demo_bits 4 = Returns (True, a') \<and> taken a' = taken demo_bits - {4})"
proof -
  have m: "in_bounds demo_bits 6" "6 \<notin> taken demo_bits" "4 \<in> taken demo_bits"
    by (simp_all add: in_bounds_def taken_def ord_def demo_bits_def)
  show ?thesis
    using Allocated_Revoke_exact [OF demo_bits_ok, of 6] Allocated_Revoke_exact [OF demo_bits_ok, of 4]
      demo_bits_ok m by auto
qed

subsection \<open>Several goroutines\<close>

text \<open>
  One step of the machine is a call, an atomic load or a compare-and-swap of one goroutine. The
  program counter keeps what the code keeps in its local variables: the loop variable \<open>i\<close> and
  the loaded word \<open>old\<close>. The trace (newest event first) records what the calls returned.
\<close>

datatype pc =
    Idle
  | AllocAt int32
  | AllocCas int32 u32
  | TakeCas int32 u32
  | GiveCas int32 u32

datatype event =
    Got nat int32
  | Gave nat int32
  | Full nat
  | Refused nat int32

record machine =
  mbits :: Bits
  mpc :: "nat \<Rightarrow> pc"
  mtrace :: "event list"

definition ends :: "nat \<Rightarrow> event \<Rightarrow> Bits \<Rightarrow> machine \<Rightarrow> machine" where
  "ends t e b m = m\<lparr>mbits := b, mpc := (mpc m)(t := Idle), mtrace := e # mtrace m\<rparr>"

definition goes :: "nat \<Rightarrow> pc \<Rightarrow> machine \<Rightarrow> machine" where
  "goes t p m = m\<lparr>mpc := (mpc m)(t := p)\<rparr>"

inductive bstep :: "machine \<Rightarrow> machine \<Rightarrow> bool" where
  alloc_call: "mpc m t = Idle \<Longrightarrow> bstep m (goes t (AllocAt (bmin (mbits m))) m)"
| alloc_full: "mpc m t = AllocAt i \<Longrightarrow> \<not> sint i \<le> sint (bmax (mbits m)) \<Longrightarrow>
    bstep m (ends t (Full t) (mbits m) m)"
| alloc_load: "mpc m t = AllocAt i \<Longrightarrow> sint i \<le> sint (bmax (mbits m)) \<Longrightarrow>
    load_at (mbits m) i = Returns old \<Longrightarrow> bstep m (goes t (AllocCas i old) m)"
| alloc_got: "mpc m t = AllocCas i old \<Longrightarrow> cas_set (mbits m) i old = (True, b) \<Longrightarrow>
    bstep m (ends t (Got t i) b m)"
| alloc_next: "mpc m t = AllocCas i old \<Longrightarrow> cas_set (mbits m) i old = (False, b) \<Longrightarrow>
    bstep m (goes t (AllocAt (i + 1)) m)"
| take_load: "mpc m t = Idle \<Longrightarrow> in_bounds (mbits m) i \<Longrightarrow> load_at (mbits m) i = Returns old \<Longrightarrow>
    bstep m (goes t (TakeCas i old) m)"
| take_cas: "mpc m t = TakeCas i old \<Longrightarrow> cas_set (mbits m) i old = (r, b) \<Longrightarrow>
    bstep m (ends t (if r then Got t i else Refused t i) b m)"
| give_load: "mpc m t = Idle \<Longrightarrow> in_bounds (mbits m) i \<Longrightarrow> load_at (mbits m) i = Returns old \<Longrightarrow>
    bstep m (goes t (GiveCas i old) m)"
| give_cas: "mpc m t = GiveCas i old \<Longrightarrow> cas_clear (mbits m) i old = (r, b) \<Longrightarrow>
    bstep m (ends t (if r then Gave t i else Refused t i) b m)"

inductive_cases bstepE: "bstep m m'"

definition machine0 :: "Bits \<Rightarrow> machine" where
  "machine0 a = \<lparr>mbits = a, mpc = (\<lambda>_. Idle), mtrace = []\<rparr>"

inductive breach :: "Bits \<Rightarrow> machine \<Rightarrow> bool" for a where
  breach_init: "breach a (machine0 a)"
| breach_step: "breach a m \<Longrightarrow> bstep m m' \<Longrightarrow> breach a m'"

text \<open>The specification: a set of numbers, given out only when free, taken back only when given out.\<close>

fun held :: "event list \<Rightarrow> int32 set" where
  "held [] = {}"
| "held (Got t i # tr) = insert i (held tr)"
| "held (Gave t i # tr) = held tr - {i}"
| "held (_ # tr) = held tr"

fun exclusive :: "event list \<Rightarrow> bool" where
  "exclusive [] = True"
| "exclusive (Got t i # tr) = (i \<notin> held tr \<and> exclusive tr)"
| "exclusive (Gave t i # tr) = (i \<in> held tr \<and> exclusive tr)"
| "exclusive (_ # tr) = exclusive tr"

fun pc_ok :: "Bits \<Rightarrow> pc \<Rightarrow> bool" where
  "pc_ok a Idle = True"
| "pc_ok a (AllocAt i) = (sint (bmin a) \<le> sint i)"
| "pc_ok a (AllocCas i old) = in_bounds a i"
| "pc_ok a (TakeCas i old) = in_bounds a i"
| "pc_ok a (GiveCas i old) = in_bounds a i"

definition minv :: "machine \<Rightarrow> bool" where
  "minv m \<longleftrightarrow> bits_ok (mbits m) \<and> (\<forall>t. pc_ok (mbits m) (mpc m t)) \<and> exclusive (mtrace m) \<and>
     held (mtrace m) = taken (mbits m)"

lemma pc_ok_cong: "bmin b = bmin a \<Longrightarrow> bmax b = bmax a \<Longrightarrow> pc_ok b p = pc_ok a p"
  by (cases p) (simp_all add: in_bounds_def)

lemma minv_goes: "minv m \<Longrightarrow> pc_ok (mbits m) p \<Longrightarrow> minv (goes t p m)"
  by (simp add: minv_def goes_def)

lemma minv_ends:
  assumes "minv m" "bits_ok b" "bmin b = bmin (mbits m)" "bmax b = bmax (mbits m)"
    and "exclusive (e # mtrace m)" "held (e # mtrace m) = taken b"
  shows "minv (ends t e b m)"
proof -
  have "pc_ok b (mpc m x)" for x using assms(1) pc_ok_cong [OF assms(3,4)] by (simp add: minv_def)
  then show ?thesis using assms(2,5,6) unfolding minv_def ends_def by simp
qed

lemma minv_step:
  assumes "bstep m m'" "minv m"
  shows "minv m'"
  using assms
proof (cases rule: bstep.cases)
  case (alloc_next t i old b)
  have "in_bounds (mbits m) i" using assms(2) alloc_next(2) by (metis minv_def pc_ok.simps(3))
  then have "sint (i + 1) = sint i + 1" "sint (bmin (mbits m)) \<le> sint i"
    using assms(2) by (auto simp: minv_def bits_ok_def in_bounds_def intro!: sint_Suc_exact)
  then show ?thesis using assms(2) by (simp add: alloc_next(1) minv_goes)
next
  case (alloc_got t i old b)
  have i: "in_bounds (mbits m) i" using assms(2) alloc_got(2) by (metis minv_def pc_ok.simps(3))
  have m: "bits_ok (mbits m)" "exclusive (mtrace m)" "held (mtrace m) = taken (mbits m)"
    using assms(2) by (auto simp: minv_def)
  show ?thesis
    using cas_set_exact(1) [OF m(1) i alloc_got(3)] m assms(2)
    unfolding alloc_got(1) by (intro minv_ends) auto
next
  case (take_cas t i old r b)
  have i: "in_bounds (mbits m) i" using assms(2) take_cas(2) by (metis minv_def pc_ok.simps(4))
  have m: "bits_ok (mbits m)" "exclusive (mtrace m)" "held (mtrace m) = taken (mbits m)"
    using assms(2) by (auto simp: minv_def)
  show ?thesis
    using cas_set_exact(1) [OF m(1) i take_cas(3)] m assms(2)
    unfolding take_cas(1) by (intro minv_ends) (auto split: if_splits)
next
  case (give_cas t i old r b)
  have i: "in_bounds (mbits m) i" using assms(2) give_cas(2) by (metis minv_def pc_ok.simps(5))
  have m: "bits_ok (mbits m)" "exclusive (mtrace m)" "held (mtrace m) = taken (mbits m)"
    using assms(2) by (auto simp: minv_def)
  show ?thesis
    using cas_clear_exact(1) [OF m(1) i give_cas(3)] m assms(2)
    unfolding give_cas(1) by (intro minv_ends) (auto split: if_splits)
next
  case (alloc_load t i old)
  have "pc_ok (mbits m) (AllocAt i)" using assms(2) alloc_load(2) by (metis minv_def)
  then show ?thesis using assms(2) alloc_load by (auto simp: in_bounds_def intro!: minv_goes)
next
  case (alloc_full t i)
  have m: "bits_ok (mbits m)" "exclusive (mtrace m)" "held (mtrace m) = taken (mbits m)"
    using assms(2) by (auto simp: minv_def)
  then show ?thesis using assms(2) unfolding alloc_full(1) by (intro minv_ends) auto
qed (auto intro!: minv_goes)

lemma minv_reach:
  assumes "breach a m" "bits_ok a" "taken a = {}"
  shows "minv m"
  using assms
proof (induction rule: breach.induct)
  case breach_init
  then show ?case by (simp add: machine0_def minv_def)
next
  case (breach_step m m')
  then show ?case using minv_step by blast
qed

text \<open>
  C20. However the loads and swaps of any number of goroutines interleave, a number is handed out
  only while nobody holds it and taken back only from somebody who does; the bitmap holds
  exactly the numbers that are out; and no goroutine ever reads outside the slice.
\<close>

theorem Bits_exclusive:
  assumes "NewBits mn mx = Returns a" "sint mn \<le> sint mx" "sint mx < 2 ^ 31 - 1" "sint mx - sint mn < 2 ^ 31"
    and "breach a m"
  shows "exclusive (mtrace m) \<and> held (mtrace m) = taken (mbits m) \<and>
    (\<forall>t i. mpc m t = AllocAt i \<longrightarrow> sint i \<le> sint (bmax (mbits m)) \<longrightarrow> load_at (mbits m) i \<noteq> Panics)"
proof -
  obtain b where "NewBits mn mx = Returns b" "bits_ok b" "taken b = {}"
    using NewBits_exact [OF assms(2-4)] by blast
  then have inv: "minv m" using minv_reach [OF assms(5)] assms(1) by simp
  have "load_at (mbits m) i \<noteq> Panics" if "mpc m t = AllocAt i" "sint i \<le> sint (bmax (mbits m))" for t i
  proof -
    have "pc_ok (mbits m) (AllocAt i)" "bits_ok (mbits m)" using inv that(1) by (metis minv_def)+
    then have "in_bounds (mbits m) i" using that(2) by (simp add: in_bounds_def)
    then show ?thesis using load_at_exact \<open>bits_ok (mbits m)\<close> by simp
  qed
  then show ?thesis using inv by (auto simp: minv_def)
qed

definition two_bits :: Bits where
  "two_bits = \<lparr>bmin = 0, bmax = 1, ballocated = [0]\<rparr>"

lemmas bits_eval = load_at_def cas_set_def cas_clear_def ordinalToPos_def bit_of_def in_range_def
  LoadUint32_def CompareAndSwapUint32_def signed_divide_int_def signed_modulo_int_def in_bounds_def
  NewBits_def two_bits_def

text \<open>
  A run of two goroutines: the first takes 0 and returns it between the load and the swap of
  the second, whose \<open>Allocate\<close> then misses the free number 1.
\<close>

definition missed :: machine where
  "missed = \<lparr>mbits = two_bits, mpc = (\<lambda>_. Idle), mtrace = [Full 2, Gave 1 0, Got 1 0]\<rparr>"

lemma breach_to: "breach a m \<Longrightarrow> bstep m m1 \<Longrightarrow> m1 = m' \<Longrightarrow> breach a m'"
  by (blast intro: breach_step)

lemma missed_reach: "breach two_bits missed"
proof -
  define b where "b = two_bits\<lparr>ballocated := [1]\<rparr>"
  let ?m = "\<lambda>x p q tr. \<lparr>mbits = x, mpc = (\<lambda>_. Idle)(1 := p, 2 := q), mtrace = tr\<rparr>"
  note ev = machine0_def goes_def ends_def bits_eval b_def fun_upd_def
  have "breach two_bits (?m two_bits Idle Idle [])"
    using breach_init [of two_bits] by (simp add: machine0_def fun_upd_def)
  then have "breach two_bits (?m two_bits (AllocAt 0) Idle [])"
    by (rule breach_to [OF _ alloc_call [of _ 1]]) (auto simp: ev)
  then have "breach two_bits (?m two_bits (AllocCas 0 0) Idle [])"
    by (rule breach_to [OF _ alloc_load [of _ 1 0 0]]) (auto simp: ev)
  then have "breach two_bits (?m b Idle Idle [Got 1 0])"
    by (rule breach_to [OF _ alloc_got [of _ 1 0 0 b]]) (auto simp: ev)
  then have "breach two_bits (?m b Idle (AllocAt 0) [Got 1 0])"
    by (rule breach_to [OF _ alloc_call [of _ 2]]) (auto simp: ev)
  then have "breach two_bits (?m b Idle (AllocCas 0 1) [Got 1 0])"
    by (rule breach_to [OF _ alloc_load [of _ 2 0 1]]) (auto simp: ev)
  then have "breach two_bits (?m b Idle (AllocAt 1) [Got 1 0])"
    by (rule breach_to [OF _ alloc_next [of _ 2 0 1 b]]) (auto simp: ev)
  then have "breach two_bits (?m b Idle (AllocCas 1 1) [Got 1 0])"
    by (rule breach_to [OF _ alloc_load [of _ 2 1 1]]) (auto simp: ev)
  then have "breach two_bits (?m b (GiveCas 0 1) (AllocCas 1 1) [Got 1 0])"
    by (rule breach_to [OF _ give_load [of _ 1 0 1]]) (auto simp: ev)
  then have "breach two_bits (?m two_bits Idle (AllocCas 1 1) [Gave 1 0, Got 1 0])"
    by (rule breach_to [OF _ give_cas [of _ 1 0 1 True two_bits]]) (auto simp: ev)
  then have "breach two_bits (?m two_bits Idle (AllocAt 2) [Gave 1 0, Got 1 0])"
    by (rule breach_to [OF _ alloc_next [of _ 2 1 1 two_bits]]) (auto simp: ev)
  then show ?thesis
    by (rule breach_to [OF _ alloc_full [of _ 2 2]]) (auto simp: ev missed_def)
qed

lemma two_bits_new: "NewBits 0 1 = Returns two_bits"
  by (simp add: bits_eval)

theorem Bits_exclusive_witness:
  "NewBits 0 1 = Returns two_bits \<and> breach two_bits missed \<and> exclusive (mtrace missed) \<and>
   held (mtrace missed) = taken (mbits missed)"
  using Bits_exclusive [OF two_bits_new _ _ _ missed_reach] two_bits_new missed_reach by simp

text \<open>
  C36. Under concurrency \<open>Allocate\<close> is not complete: there is a run of two goroutines on the
  range 0 to 1 in which the number 1 is free from beginning to end and one call of
  \<open>Allocate\<close> still returns nil, because a failed swap moves on to the next number although the
  swap failed for another number's bit.
\<close>

theorem Allocate_can_miss:
  "\<exists>a m t. NewBits 0 1 = Returns a \<and> breach a m \<and> Full t \<in> set (mtrace m) \<and> (\<forall>s. Got s 1 \<notin> set (mtrace m))"
  using two_bits_new missed_reach by (intro exI [of _ two_bits] exI [of _ missed] exI [of _ 2]) (simp add: missed_def)

end
