(* ===== verification/IpsetEntry.thy ===== *)
theory IpsetEntry
  imports IpsetList
begin

text \<open>
  The text of an entry of an ipset: what \<open>Validate\<close> accepts, \<open>String\<close> writes without confusing any two
  entries.
\<close>

subsection \<open>The characters of addresses\<close>

definition ip_char :: "char \<Rightarrow> bool" where
  "ip_char c \<longleftrightarrow> is_hex c \<or> c = CHR '':'' \<or> c = CHR ''.''"

lemma digit_ip_char: "is_digit c \<Longrightarrow> ip_char c"
  by (simp add: ip_char_def is_hex_def hex_val_def is_digit_iff Let_def)

lemma comma_no_ip_char: "\<not> ip_char (CHR '','')" "\<not> ip_char (CHR ''/'')"
  by (simp_all add: ip_char_def is_hex_def hex_val_def)

lemma takeWhile_chars: "c \<in> set s \<Longrightarrow> c \<in> set (dropWhile P s) \<or> P c"
  by (induction s) auto

lemma dtoi_chars:
  assumes "dtoi s = Some (n, r)" "c \<in> set s"
  shows "c \<in> set r \<or> ip_char c"
proof -
  have "r = dropWhile is_digit s" using assms(1) by (auto simp: dtoi_def Let_def split: if_splits)
  with takeWhile_chars [OF assms(2), of is_digit] digit_ip_char show ?thesis by blast
qed

lemma xtoi_chars:
  assumes "xtoi s = Some (n, r)" "c \<in> set s"
  shows "c \<in> set r \<or> ip_char c"
proof -
  have "r = dropWhile is_hex s" using assms(1) by (auto simp: xtoi_def Let_def split: if_splits)
  with takeWhile_chars [OF assms(2), of is_hex] show ?thesis by (auto simp: ip_char_def)
qed

lemma v4_bytes_chars: "parse_v4_bytes k sep s = Some (bs, r) \<Longrightarrow> c \<in> set s \<Longrightarrow> c \<in> set r \<or> ip_char c"
proof (induction k sep s arbitrary: bs rule: parse_v4_bytes.induct)
  case (2 k sep s)
  let ?s = "if sep then tl s else s"
  from "2.prems"(1) obtain n s' bs' where d: "dtoi ?s = Some (n, s')" "\<not> n > 255" "parse_v4_bytes k True s' = Some (bs', r)"
      "s \<noteq> []" "sep \<longrightarrow> hd s = CHR ''.''" "\<not> (s = [] \<or> sep \<and> hd s \<noteq> CHR ''.'')"
    by (auto split: if_splits option.splits)
  have "c \<in> set ?s \<or> ip_char c" using "2.prems"(2) d(4,5) by (cases s) (auto simp: ip_char_def)
  then have "c \<in> set s' \<or> ip_char c" using dtoi_chars [OF d(1)] by blast
  with "2.IH" [OF d(6,1) refl d(2,3)] show ?case by blast
qed simp

lemma parseIPv4_chars: "parseIPv4 s \<noteq> [] \<Longrightarrow> c \<in> set s \<Longrightarrow> ip_char c"
  using v4_bytes_chars [of 4 False s _ "[]" c] by (auto simp: parseIPv4_def split: option.splits prod.splits list.splits)

lemma v6_loop_chars: "parse_v6_loop k s acc ell = Some (r, bs, e) \<Longrightarrow> c \<in> set s \<Longrightarrow> c \<in> set r \<or> ip_char c"
proof (induction k s acc ell arbitrary: rule: parse_v6_loop.induct)
  case (2 k s acc ell)
  then obtain n s' where x: "xtoi s = Some (n, s')" by (auto split: option.splits)
  have c: "c \<in> set s' \<or> ip_char c" using xtoi_chars [OF x "2.prems"(2)] .
  show ?case
    using "2.prems" x c parseIPv4_chars [of s c] "2.IH" [OF x refl]
    by (cases s'; cases "tl s'") (auto simp: Let_def ip_char_def split: if_splits option.splits list.splits)
qed simp

lemma parseIPv6_chars:
  assumes "parseIPv6 s \<noteq> []" "c \<in> set s"
  shows "ip_char c"
proof -
  let ?s = "if take 2 s = ''::'' then drop 2 s else s"
  have split: "set s = set (take 2 s) \<union> set (drop 2 s)" by (metis append_take_drop_id set_append)
  have c: "c \<in> set ?s \<or> ip_char c"
  proof (cases "take 2 s = ''::''")
    case True
    then have "set (take 2 s) = {CHR '':''}" by simp
    with split assms(2) True show ?thesis by (auto simp: ip_char_def)
  qed (use assms(2) in simp)
  show ?thesis
  proof (cases "?s = []")
    case False
    then obtain bs e where "parse_v6_loop 8 ?s [] (if take 2 s = ''::'' then Some 0 else None) = Some ([], bs, e)"
      using assms(1) by (auto simp: parseIPv6_def Let_def split: option.splits prod.splits if_splits)
    from v6_loop_chars [OF this, of c] c show ?thesis by auto
  qed (use c in auto)
qed

lemma ParseIP_chars: "ParseIP s \<noteq> [] \<Longrightarrow> c \<in> set s \<Longrightarrow> ip_char c"
proof -
  assume *: "ParseIP s \<noteq> []" "c \<in> set s"
  have "ParseIP_scan s cs = [] \<or> ParseIP_scan s cs = parseIPv4 s \<or> ParseIP_scan s cs = parseIPv6 s" for cs
    by (induction cs) auto
  then show ?thesis using * parseIPv4_chars parseIPv6_chars by (metis ParseIP_def)
qed

lemma IndexOf_slash: "IndexOf s ''/'' = Some i \<Longrightarrow> s = take i s @ CHR ''/'' # drop (Suc i) s"
proof (induction s arbitrary: i)
  case (Cons a s)
  then show ?case
    using IndexOf.simps [of "a # s" "''/''"] by (cases "a = CHR ''/''") (auto simp: HasPrefix_def split: option.splits)
qed (simp add: IndexOf.simps HasPrefix_def)

lemma ParseCIDR_chars:
  assumes "ParseCIDR_ok s" "c \<in> set s"
  shows "ip_char c \<or> c = CHR ''/''"
proof -
  from assms(1) obtain i n where i: "IndexOf s ''/'' = Some i" and d: "dtoi (drop (Suc i) s) = Some (n, [])"
    and a: "parseIPv4 (take i s) \<noteq> [] \<or> parseIPv6 (take i s) \<noteq> []"
    by (auto simp: ParseCIDR_ok_def Let_def split: option.splits prod.splits list.splits if_splits)
  have "set s = set (take i s) \<union> {CHR ''/''} \<union> set (drop (Suc i) s)"
    using arg_cong [OF IndexOf_slash [OF i], of set] by simp
  then consider "c \<in> set (take i s)" | "c = CHR ''/''" | "c \<in> set (drop (Suc i) s)" using assms(2) by blast
  then show ?thesis
  proof cases
    case 1
    then show ?thesis using a parseIPv4_chars parseIPv6_chars by blast
  qed (use dtoi_chars [OF d] in auto)
qed

lemma addr_no_comma: "ParseIP s \<noteq> [] \<Longrightarrow> CHR '','' \<notin> set s" "ParseCIDR_ok s \<Longrightarrow> CHR '','' \<notin> set s"
  using ParseIP_chars [of s] ParseCIDR_chars [of s] comma_no_ip_char by auto

subsection \<open>Valid entries\<close>

text \<open>The fields an entry of a set of its type consists of.\<close>

definition entry_fields :: "Entry \<Rightarrow> string \<times> string \<times> int \<times> string" where
  "entry_fields e =
     (if eSetType e = HashIP then (eIP e, [], 0, [])
      else if eSetType e = HashIPPort then (eIP e, eProtocol e, ePort e, [])
      else if eSetType e = HashIPPortIP then (eIP e, eProtocol e, ePort e, eIP2 e)
      else if eSetType e = HashIPPortNet then (eIP e, eProtocol e, ePort e, eNet e)
      else if eSetType e = HashNet then (eNet e, [], 0, [])
      else if eSetType e = HashNetPort then (eNet e, eProtocol e, ePort e, [])
      else ([], [], ePort e, []))"

text \<open>The entry as \<open>Validate\<close> leaves it: its addresses have no comma and its protocol is one of two.\<close>

definition addressed :: "Entry \<Rightarrow> bool" where
  "addressed e \<longleftrightarrow>
     (eSetType e \<in> {HashIPPort, HashIPPortIP, HashIPPortNet} \<longrightarrow> CHR '','' \<notin> set (eIP e)) \<and>
     (eSetType e = HashNetPort \<longrightarrow> CHR '','' \<notin> set (eNet e)) \<and>
     (eSetType e \<in> {HashIPPort, HashIPPortIP, HashIPPortNet, HashNetPort} \<longrightarrow> validateProtocol (eProtocol e))"

lemma Validate_addressed:
  assumes "Entry_Validate e st = (True, e')"
  shows "addressed e' \<and> eSetType e' = eSetType e"
  using assms addr_no_comma
  by (auto simp: Entry_Validate_def addressed_def default_protocol_def Let_def ipset_types split: if_splits option.splits sum.splits prod.splits)

lemma text_with_rest_inj:
  assumes "CHR '','' \<notin> set a" "CHR '','' \<notin> set a'" "validateProtocol p" "validateProtocol p'"
    and "a @ '','' @ p @ '':'' @ Itoa i @ '','' @ r = a' @ '','' @ p' @ '':'' @ Itoa i' @ '','' @ r'"
  shows "a = a' \<and> p = p' \<and> i = i' \<and> r = r'"
proof -
  have 1: "a = a' \<and> p @ CHR '':'' # Itoa i @ CHR '','' # r = p' @ CHR '':'' # Itoa i' @ CHR '','' # r'"
    using append_sep_eq [OF assms(1,2)] assms(5) by simp
  have "CHR '':'' \<notin> set p" "CHR '':'' \<notin> set p'"
    using assms(3,4) by (auto simp: validateProtocol_def Protocol_tcp_def Protocol_udp_def)
  from append_sep_eq [OF this conjunct2 [OF 1]]
  have 2: "p = p' \<and> Itoa i @ CHR '','' # r = Itoa i' @ CHR '','' # r'" .
  from append_sep_eq [OF Itoa_no_sep(2) Itoa_no_sep(2) conjunct2 [OF 2]] 1 2 Itoa_inj show ?thesis by blast
qed

lemma ipport_valid_inj:
  assumes "CHR '','' \<notin> set a" "CHR '','' \<notin> set a'" "validateProtocol p" "validateProtocol p'"
    and "ipport_text a p i = ipport_text a' p' i'"
  shows "a = a' \<and> p = p' \<and> i = i'"
  using ipport_text_inj [OF assms(1,2), of p p' i i'] assms(3-5)
  by (auto simp: validateProtocol_def Protocol_tcp_def Protocol_udp_def)

text \<open>
  C32. The text of an entry determines it: two valid entries of sets of the same type that are
  written the same agree in every field the type has, so adding, testing or deleting one never
  means another. This holds for all seven types of sets and for IPv4 and IPv6 addresses.
\<close>

theorem Entry_String_determines:
  assumes "Entry_Validate e st = (True, e')" "Entry_Validate f st' = (True, f')"
    and "eSetType e \<in> set ValidIPSetTypes" "eSetType f = eSetType e" "Entry_String e' = Entry_String f'"
  shows "entry_fields e' = entry_fields f'"
proof -
  have e: "addressed e'" "eSetType e' = eSetType e" and f: "addressed f'" "eSetType f' = eSetType e"
    using Validate_addressed [OF assms(1)] Validate_addressed [OF assms(2)] assms(4) by simp_all
  note defs = Entry_String_def entry_fields_def addressed_def ipport_text_def ipset_types
  consider (ip) "eSetType e = HashIP" | (ipport) "eSetType e = HashIPPort" | (ipportip) "eSetType e = HashIPPortIP"
    | (port) "eSetType e = BitmapPort" | (ipportnet) "eSetType e = HashIPPortNet" | (net) "eSetType e = HashNet"
    | (netport) "eSetType e = HashNetPort"
    using assms(3) by (auto simp: ValidIPSetTypes_def)
  then show ?thesis
  proof cases
    case ipport
    then have "ipport_text (eIP e') (eProtocol e') (ePort e') = ipport_text (eIP f') (eProtocol f') (ePort f')"
      using assms(5) e(2) f(2) by (simp add: defs)
    from ipport_valid_inj [OF _ _ _ _ this] ipport e f show ?thesis by (simp add: defs)
  next
    case ipportip
    then have "eIP e' @ '','' @ eProtocol e' @ '':'' @ Itoa (ePort e') @ '','' @ eIP2 e' =
        eIP f' @ '','' @ eProtocol f' @ '':'' @ Itoa (ePort f') @ '','' @ eIP2 f'"
      using assms(5) e(2) f(2) by (simp add: defs)
    from text_with_rest_inj [OF _ _ _ _ this] ipportip e f show ?thesis by (simp add: defs)
  next
    case ipportnet
    then have "eIP e' @ '','' @ eProtocol e' @ '':'' @ Itoa (ePort e') @ '','' @ eNet e' =
        eIP f' @ '','' @ eProtocol f' @ '':'' @ Itoa (ePort f') @ '','' @ eNet f'"
      using assms(5) e(2) f(2) by (simp add: defs)
    from text_with_rest_inj [OF _ _ _ _ this] ipportnet e f show ?thesis by (simp add: defs)
  next
    case netport
    then have "ipport_text (eNet e') (eProtocol e') (ePort e') = ipport_text (eNet f') (eProtocol f') (ePort f')"
      using assms(5) e(2) f(2) by (simp add: defs)
    from ipport_valid_inj [OF _ _ _ _ this] netport e f show ?thesis by (simp add: defs)
  next
    case port
    then have "Itoa (ePort e') = Itoa (ePort f')" using assms(5) e(2) f(2) by (simp add: defs)
    from Itoa_inj [OF this] port e(2) f(2) show ?thesis by (simp add: defs)
  qed (use assms(5) e(2) f(2) in \<open>simp_all add: defs\<close>)
qed

theorem Entry_String_determines_witness:
  "let e = \<lparr>eIP = ''10.0.0.1'', ePort = 53, eProtocol = [], eNet = [], eIP2 = [], eSetType = HashIPPort, eOptions = []\<rparr>;
       f = e\<lparr>eProtocol := ''tcp'', eNet := ''10.1.0.0/16''\<rparr>
   in snd (Entry_Validate e None) \<noteq> snd (Entry_Validate f None) \<and>
      entry_fields (snd (Entry_Validate e None)) = entry_fields (snd (Entry_Validate f None))"
proof -
  let ?e = "\<lparr>eIP = ''10.0.0.1'', ePort = 53, eProtocol = [], eNet = [], eIP2 = [], eSetType = HashIPPort, eOptions = []\<rparr>"
  let ?f = "?e\<lparr>eProtocol := ''tcp'', eNet := ''10.1.0.0/16''\<rparr>"
  let ?g = "?e\<lparr>eProtocol := ''tcp''\<rparr>"
  have ip: "ParseIP ''10.0.0.1'' \<noteq> []" by (simp add: go_eval)
  have v: "Entry_Validate ?e None = (True, ?g)" "Entry_Validate ?f None = (True, ?f)"
    using ip by (simp_all add: Entry_Validate_def default_protocol_def validateProtocol_def Protocol_tcp_def ipset_types)
  have t: "Entry_String ?g = Entry_String ?f" "eSetType ?e \<in> set ValidIPSetTypes"
    by (simp_all add: Entry_String_def ValidIPSetTypes_def ipset_types)
  from Entry_String_determines [OF v t(2) _ t(1)] show ?thesis unfolding Let_def v by simp
qed

end
