(* ===== verification/Json.thy ===== *)
theory Json
  imports Prelude
begin

text \<open>
  The part of \<open>encoding/json\<close> the sources use: checking and reading a text. The text is cut into
  tokens and the tokens are read with a stack of the open arrays and objects, so both passes run
  along their input. Strings are the bytes they stand for (\<^verbatim>\<open>\u\<close> escapes as UTF-8), numbers stay texts.
  The texts of syntax errors are not those of Go.
\<close>

datatype json = JNull | JBool bool | JNum string | JStr string | JArr "json list" | JObj "(string \<times> json) list"

datatype jtoken = LBrace | RBrace | LBrack | RBrack | Colon | Comma | TStr string | TNum string | TLit string

subsection \<open>Strings\<close>

definition is_hex :: "char \<Rightarrow> bool" where
  "is_hex c \<longleftrightarrow> is_digit c \<or> c \<in> set ''abcdefABCDEF''"

definition hex_val :: "char \<Rightarrow> nat" where
  "hex_val c =
     (let n = of_char c in if n \<le> 57 then n - 48 else if n \<le> 70 then n - 55 else n - 87)"

definition hex4 :: "string \<Rightarrow> nat option" where
  "hex4 s = (if length s \<ge> 4 \<and> list_all is_hex (take 4 s) then Some (foldl (\<lambda>a c. 16 * a + hex_val c) 0 (take 4 s)) else None)"

definition utf8 :: "nat \<Rightarrow> string" where
  "utf8 r =
     (if r < 128 then [char_of r]
      else if r < 2048 then map char_of [192 + r div 64, 128 + r mod 64]
      else if r < 65536 then map char_of [224 + r div 4096, 128 + r div 64 mod 64, 128 + r mod 64]
      else map char_of [240 + r div 262144, 128 + r div 4096 mod 64, 128 + r div 64 mod 64, 128 + r mod 64])"

text \<open>A surrogate pair is one character; a surrogate on its own is the replacement character.\<close>

definition unescape_u :: "string \<Rightarrow> (string \<times> string) option" where
  "unescape_u s =
     (case hex4 s of
        None \<Rightarrow> None
      | Some hi \<Rightarrow>
          let s' = drop 4 s
          in if 0xD800 \<le> hi \<and> hi < 0xE000
             then (case (if take 2 s' = [CHR 0x5C, CHR ''u''] then hex4 (drop 2 s') else None) of
                     Some lo \<Rightarrow>
                       if hi < 0xDC00 \<and> 0xDC00 \<le> lo \<and> lo < 0xE000
                       then Some (utf8 (0x10000 + (hi - 0xD800) * 1024 + (lo - 0xDC00)), drop 6 s')
                       else Some (utf8 0xFFFD, s')
                   | None \<Rightarrow> Some (utf8 0xFFFD, s'))
             else Some (utf8 hi, s'))"

lemma unescape_u_length: "unescape_u s = Some (t, s') \<Longrightarrow> length s' < length s"
  by (auto simp: unescape_u_def hex4_def Let_def split: option.splits if_splits)

definition simple_escape :: "char \<Rightarrow> char option" where
  "simple_escape e =
     map_of [(quote, quote), (CHR 0x5C, CHR 0x5C), (CHR ''/'', CHR ''/''), (CHR ''b'', CHR 0x08), (CHR ''f'', CHR 0x0C),
             (CHR ''n'', nl), (CHR ''r'', CHR 0x0D), (CHR ''t'', tab)] e"

text \<open>The rest of a string literal behind its opening quote: its bytes and what follows it.\<close>

function scan_string :: "string \<Rightarrow> string \<Rightarrow> (string \<times> string) option" where
  "scan_string acc [] = None"
| "scan_string acc (c # s) =
     (if c = quote then Some (acc, s)
      else if (of_char c :: nat) < 32 then None
      else if c = CHR 0x5C
      then (case s of
              [] \<Rightarrow> None
            | e # s' \<Rightarrow>
                if e = CHR ''u''
                then (case unescape_u s' of None \<Rightarrow> None | Some (t, s'') \<Rightarrow> scan_string (acc @ t) s'')
                else (case simple_escape e of None \<Rightarrow> None | Some x \<Rightarrow> scan_string (acc @ [x]) s'))
      else scan_string (acc @ [c]) s)"
  by pat_completeness auto
termination
  by (relation "measure (\<lambda>(acc, s). length s)") (auto dest: unescape_u_length)

declare scan_string.simps(2) [simp del]

lemma scan_string_length: "scan_string acc s = Some (t, s') \<Longrightarrow> length s' < length s"
proof (induction "length s" arbitrary: acc s rule: less_induct)
  case less
  note IH = less.hyps [THEN less_trans]
  show ?case
  proof (cases s)
    case (Cons c u)
    then show ?thesis
      using less.prems IH
      by (auto simp: scan_string.simps(2) split: if_splits list.splits option.splits prod.splits dest!: unescape_u_length)
        (meson less_SucI lessI)+
  qed (use less.prems in simp)
qed

subsection \<open>Numbers\<close>

definition digits1 :: "string \<Rightarrow> bool" where
  "digits1 s \<longleftrightarrow> s \<noteq> [] \<and> list_all is_digit s"

definition exponent_ok :: "string \<Rightarrow> bool" where
  "exponent_ok s \<longleftrightarrow>
     s = [] \<or> (hd s \<in> set ''eE'' \<and>
       digits1 (if tl s \<noteq> [] \<and> hd (tl s) \<in> set ''+-'' then tl (tl s) else tl s))"

definition fraction_ok :: "string \<Rightarrow> bool" where
  "fraction_ok s \<longleftrightarrow>
     (if s \<noteq> [] \<and> hd s = CHR ''.''
      then takeWhile is_digit (tl s) \<noteq> [] \<and> exponent_ok (dropWhile is_digit (tl s)) else exponent_ok s)"

definition number_ok :: "string \<Rightarrow> bool" where
  "number_ok s \<longleftrightarrow>
     (let body = (if s \<noteq> [] \<and> hd s = CHR ''-'' then tl s else s); whole = takeWhile is_digit body
      in whole \<noteq> [] \<and> (hd whole = CHR ''0'' \<longrightarrow> length whole = 1) \<and> fraction_ok (dropWhile is_digit body))"

subsection \<open>Tokens\<close>

definition punct :: "char \<Rightarrow> jtoken option" where
  "punct c =
     map_of [(CHR ''{'', LBrace), (CHR ''}'', RBrace), (CHR ''['', LBrack), (CHR '']'', RBrack), (CHR '':'', Colon), (CHR '','', Comma)] c"

definition num_char :: "char \<Rightarrow> bool" where
  "num_char c \<longleftrightarrow> is_digit c \<or> c \<in> set ''+-.eE''"

definition is_lower :: "char \<Rightarrow> bool" where
  "is_lower c \<longleftrightarrow> CHR ''a'' \<le> c \<and> c \<le> CHR ''z''"

abbreviation cons_token :: "jtoken \<Rightarrow> gerror + jtoken list \<Rightarrow> gerror + jtoken list" where
  "cons_token t r \<equiv> (case r of Inl e \<Rightarrow> Inl e | Inr ts \<Rightarrow> Inr (t # ts))"

function lex_json :: "string \<Rightarrow> gerror + jtoken list" where
  "lex_json [] = Inr []"
| "lex_json (c # s) =
     (if c \<in> {CHR '' '', tab, nl, CHR 0x0D} then lex_json s
      else case punct c of
             Some t \<Rightarrow> cons_token t (lex_json s)
           | None \<Rightarrow>
               if c = quote
               then (case scan_string [] s of
                       None \<Rightarrow> Inl ''invalid string literal'' | Some (t, s') \<Rightarrow> cons_token (TStr t) (lex_json s'))
               else if is_digit c \<or> c = CHR ''-''
               then (if number_ok (c # takeWhile num_char s)
                     then cons_token (TNum (c # takeWhile num_char s)) (lex_json (dropWhile num_char s))
                     else Inl ''invalid numeric literal'')
               else if c # takeWhile is_lower s \<in> {''true'', ''false'', ''null''}
               then cons_token (TLit (c # takeWhile is_lower s)) (lex_json (dropWhile is_lower s))
               else Inl ''invalid character'')"
  by pat_completeness auto
termination
  by (relation "measure length") (auto dest: scan_string_length simp: less_Suc_eq_le length_dropWhile_le)

declare lex_json.simps(2) [simp del]

subsection \<open>Values\<close>

datatype jmode =
    NeedValue | ValueOrEnd | KeyOrEnd | NeedKey "(string \<times> json) list" | NeedColon "(string \<times> json) list" string | Got json

text \<open>An open array with its elements, an open object with its members and the key of the next value.\<close>

datatype jframe = InArr "json list" | InObj "(string \<times> json) list" string

definition literal_val :: "string \<Rightarrow> json" where
  "literal_val l = (if l = ''null'' then JNull else JBool (l = ''true''))"

definition start_value :: "jtoken \<Rightarrow> jmode option" where
  "start_value t =
     (case t of
        TStr s \<Rightarrow> Some (Got (JStr s)) | TNum n \<Rightarrow> Some (Got (JNum n)) | TLit l \<Rightarrow> Some (Got (literal_val l))
      | LBrack \<Rightarrow> Some ValueOrEnd | LBrace \<Rightarrow> Some KeyOrEnd | _ \<Rightarrow> None)"

fun jstep :: "jtoken \<Rightarrow> jmode \<times> jframe list \<Rightarrow> (jmode \<times> jframe list) option" where
  "jstep t (NeedValue, st) = map_option (\<lambda>md. (md, st)) (start_value t)"
| "jstep t (ValueOrEnd, st) =
     (if t = RBrack then Some (Got (JArr []), st) else map_option (\<lambda>md. (md, InArr [] # st)) (start_value t))"
| "jstep t (KeyOrEnd, st) =
     (case t of RBrace \<Rightarrow> Some (Got (JObj []), st) | TStr k \<Rightarrow> Some (NeedColon [] k, st) | _ \<Rightarrow> None)"
| "jstep t (NeedKey kvs, st) = (case t of TStr k \<Rightarrow> Some (NeedColon kvs k, st) | _ \<Rightarrow> None)"
| "jstep t (NeedColon kvs k, st) = (if t = Colon then Some (NeedValue, InObj kvs k # st) else None)"
| "jstep t (Got v, []) = None"
| "jstep t (Got v, InArr vs # st) =
     (if t = Comma then Some (NeedValue, InArr (vs @ [v]) # st)
      else if t = RBrack then Some (Got (JArr (vs @ [v])), st) else None)"
| "jstep t (Got v, InObj kvs k # st) =
     (if t = Comma then Some (NeedKey (kvs @ [(k, v)]), st)
      else if t = RBrace then Some (Got (JObj (kvs @ [(k, v)])), st) else None)"

fun jrun :: "jtoken list \<Rightarrow> jmode \<times> jframe list \<Rightarrow> gerror + json" where
  "jrun [] (Got v, []) = Inr v"
| "jrun [] ms = Inl ''unexpected end of JSON input''"
| "jrun (t # ts) ms = (case jstep t ms of None \<Rightarrow> Inl ''invalid character'' | Some ms' \<Rightarrow> jrun ts ms')"

definition json_parse :: "string \<Rightarrow> gerror + json" where
  "json_parse s = (case lex_json s of Inl e \<Rightarrow> Inl e | Inr ts \<Rightarrow> jrun ts (NeedValue, []))"

end
