(* ===== verification/Api.thy ===== *)
theory Api
  imports Json
begin

text \<open>
  \<^verbatim>\<open>api/api.go\<close>: the annotation with the weights of ports. Unmarshalling into a map with \<open>int\<close> keys and
  \<open>uint\<close> values: \<open>null\<close> is the empty map, the value \<open>null\<close> of a member is 0, a later member replaces
  an earlier one with the same key, and the first key or value of another type or out of range
  is the error.
\<close>

definition ANWeight :: string where "ANWeight = ''v1.bmlb.l4/weight''"

type_synonym Weight = "(int, nat) gomap"

definition unmarshal_uint :: "json \<Rightarrow> gerror + nat" where
  "unmarshal_uint v =
     (case v of
        JNull \<Rightarrow> Inr 0
      | JNum n \<Rightarrow>
          (case ParseUint n of Inl e \<Rightarrow> Inl (''json: cannot unmarshal number '' @ n @ '' into Go value of type uint'') | Inr k \<Rightarrow> Inr k)
      | _ \<Rightarrow> Inl ''json: cannot unmarshal into Go value of type uint'')"

fun unmarshal_members :: "(string \<times> json) list \<Rightarrow> Weight \<Rightarrow> gerror + Weight" where
  "unmarshal_members [] w = Inr w"
| "unmarshal_members ((k, v) # kvs) w =
     (case unmarshal_uint v of
        Inl e \<Rightarrow> Inl e
      | Inr n \<Rightarrow>
          (case Atoi k of
             Inl e \<Rightarrow> Inl (''json: cannot unmarshal number '' @ k @ '' into Go value of type int'')
           | Inr i \<Rightarrow> unmarshal_members kvs (AList.update i n w)))"

definition unmarshal_weight :: "string \<Rightarrow> gerror + Weight" where
  "unmarshal_weight s =
     (case json_parse s of
        Inl e \<Rightarrow> Inl e
      | Inr JNull \<Rightarrow> Inr []
      | Inr (JObj kvs) \<Rightarrow> unmarshal_members kvs []
      | Inr _ \<Rightarrow> Inl ''json: cannot unmarshal into Go value of type api.Weight'')"

definition DecodeL4Weight :: "string \<Rightarrow> gerror + Weight" where
  "DecodeL4Weight weightStr = (case unmarshal_weight weightStr of Inl err \<Rightarrow> Inl err | Inr w \<Rightarrow> Inr w)"

subsection \<open>Reading back what was written\<close>

text \<open>Weights as JSON writes them, in any order.\<close>

definition show_member :: "int \<times> nat \<Rightarrow> string" where
  "show_member kv = [quote] @ Itoa (fst kv) @ [quote] @ '':'' @ show_nat (snd kv)"

definition show_weights :: "(int \<times> nat) list \<Rightarrow> string" where
  "show_weights kvs = ''{'' @ Join (map show_member kvs) '','' @ ''}''"

definition member_tokens :: "int \<times> nat \<Rightarrow> jtoken list" where
  "member_tokens kv = [TStr (Itoa (fst kv)), Colon, TNum (show_nat (snd kv))]"

lemma Itoa_chars: "c \<in> set (Itoa i) \<Longrightarrow> is_digit c \<or> c = CHR ''-''"
  using show_nat_digits [of "nat i"] show_nat_digits [of "nat (- i)"]
  by (auto simp: Itoa_def list_all_iff split: if_splits)

lemma plain_char: "is_digit c \<or> c = CHR ''-'' \<Longrightarrow> c \<noteq> quote \<and> \<not> (of_char c :: nat) < 32 \<and> c \<noteq> CHR 0x5C"
  by (auto simp: is_digit_iff)

lemma scan_plain:
  "\<forall>c \<in> set t. is_digit c \<or> c = CHR ''-'' \<Longrightarrow> scan_string acc (t @ quote # s) = Some (acc @ t, s)"
  using plain_char by (induction t arbitrary: acc) (simp_all add: scan_string.simps(2))

lemma punct_none: "punct quote = None" "is_digit c \<or> c = CHR ''-'' \<Longrightarrow> punct c = None"
  by (auto simp: punct_def is_digit_iff)

lemma no_blank: "is_digit c \<Longrightarrow> c \<notin> {CHR '' '', tab, nl, CHR 0x0D} \<and> c \<noteq> quote"
  by (auto simp: is_digit_iff)

lemma lex_string: "\<forall>c \<in> set t. is_digit c \<or> c = CHR ''-'' \<Longrightarrow>
    lex_json (quote # t @ quote # s) = cons_token (TStr t) (lex_json s)"
  by (simp add: lex_json.simps(2) punct_none scan_plain)

lemma number_ok_show_nat: "number_ok (show_nat n)"
proof -
  have minus: "hd (show_nat n) \<noteq> CHR ''-''" using hd_show_nat_digit [of n] by (metis not_digit_sign(1))
  have all: "takeWhile is_digit (show_nat n) = show_nat n" "dropWhile is_digit (show_nat n) = []"
    using show_nat_digits [of n] by (auto simp: takeWhile_eq_all_conv list_all_iff)
  have "length (show_nat n) = 1" if "hd (show_nat n) = CHR ''0''"
    using hd_show_nat_zero [OF that] by (simp add: show_nat.simps [of 0])
  then show ?thesis using minus show_nat_digits [of n]
    by (simp add: number_ok_def Let_def all list_all_iff fraction_ok_def exponent_ok_def)
qed

lemma lex_number:
  assumes "s = [] \<or> \<not> num_char (hd s)"
  shows "lex_json (show_nat n @ s) = cons_token (TNum (show_nat n)) (lex_json s)"
proof -
  obtain c t where ct: "show_nat n = c # t" by (cases "show_nat n") auto
  then have d: "is_digit c" "list_all is_digit t" using show_nat_digits [of n] by simp_all
  then have "\<forall>x \<in> set t. num_char x" by (simp add: list_all_iff num_char_def)
  then have tw: "takeWhile num_char (t @ s) = t" "dropWhile num_char (t @ s) = s"
    using assms by (cases s; simp)+
  have "number_ok (c # t)" using number_ok_show_nat [of n] ct by simp
  then show ?thesis using d no_blank [OF d(1)] punct_none(2) [of c] unfolding ct append_Cons lex_json.simps(2) tw by simp
qed

lemma lex_member:
  assumes "s \<noteq> []" "\<not> num_char (hd s)"
  shows "lex_json (show_member kv @ s) = map_sum id (\<lambda>ts. member_tokens kv @ ts) (lex_json s)"
proof -
  have c: "lex_json ('':'' @ x) = cons_token Colon (lex_json x)" for x by (simp add: lex_json.simps(2) punct_def)
  have "lex_json (show_member kv @ s) =
      cons_token (TStr (Itoa (fst kv))) (cons_token Colon (cons_token (TNum (show_nat (snd kv))) (lex_json s)))"
    using lex_string [of "Itoa (fst kv)" "'':'' @ show_nat (snd kv) @ s"] Itoa_chars c [of "show_nat (snd kv) @ s"]
      lex_number [of s "snd kv"] assms by (simp add: show_member_def)
  then show ?thesis by (cases "lex_json s") (simp_all add: member_tokens_def)
qed

lemma lex_weights:
  "lex_json (show_weights kvs) =
     Inr (LBrace # (case kvs of [] \<Rightarrow> [] | kv # rest' \<Rightarrow> member_tokens kv @ concat (map (\<lambda>x. Comma # member_tokens x) rest')) @ [RBrace])"
proof -
  have close: "lex_json ''}'' = Inr [RBrace]" by (simp add: lex_json.simps(2) punct_def)
  have open': "lex_json (''{'' @ s) = cons_token LBrace (lex_json s)" for s by (simp add: lex_json.simps(2) punct_def)
  have comma: "lex_json ('','' @ s) = cons_token Comma (lex_json s)" for s by (simp add: lex_json.simps(2) punct_def)
  have stop: "\<not> num_char (CHR '','')" "\<not> num_char (CHR ''}'')" by (simp_all add: num_char_def is_digit_iff)
  have tail: "lex_json (concat (map (\<lambda>x. '','' @ show_member x) xs) @ ''}'') =
      Inr (concat (map (\<lambda>x. Comma # member_tokens x) xs) @ [RBrace])" for xs
  proof (induction xs)
    case (Cons x xs)
    let ?s = "concat (map (\<lambda>x. '','' @ show_member x) xs) @ ''}''"
    have "?s \<noteq> []" "\<not> num_char (hd ?s)" using stop by (cases xs; simp)+
    from lex_member [OF this, of x] Cons comma [of "show_member x @ ?s"] show ?case by simp
  qed (simp add: close)
  have join: "Join (map show_member (x # xs)) '','' = show_member x @ concat (map (\<lambda>x. '','' @ show_member x) xs)" for x xs
    by (induction xs arbitrary: x) simp_all
  show ?thesis
  proof (cases kvs)
    case (Cons x xs)
    let ?s = "concat (map (\<lambda>x. '','' @ show_member x) xs) @ ''}''"
    have "?s \<noteq> []" "\<not> num_char (hd ?s)" using stop by (cases xs; simp)+
    from lex_member [OF this, of x] tail [of xs] open' [of "show_member x @ ?s"] show ?thesis
      unfolding show_weights_def Cons join by simp
  qed (use open' [of "''}''"] close in \<open>simp add: show_weights_def\<close>)
qed

lemma run_members:
  "jrun (member_tokens kv @ concat (map (\<lambda>x. Comma # member_tokens x) xs) @ [RBrace]) (NeedKey done', []) =
     Inr (JObj (done' @ map (\<lambda>x. (Itoa (fst x), JNum (show_nat (snd x)))) (kv # xs)))"
  by (induction xs arbitrary: kv done') (simp_all add: member_tokens_def start_value_def)

lemma parse_weights:
  "json_parse (show_weights kvs) = Inr (JObj (map (\<lambda>x. (Itoa (fst x), JNum (show_nat (snd x)))) kvs))"
proof (cases kvs)
  case (Cons x xs)
  have "jrun (member_tokens x @ ts) (KeyOrEnd, []) = jrun (member_tokens x @ ts) (NeedKey [], [])" for ts
    by (simp add: member_tokens_def)
  with Cons run_members [of x xs "[]"] show ?thesis by (simp add: json_parse_def lex_weights start_value_def)
qed (simp add: json_parse_def lex_weights start_value_def)

definition weight_ok :: "int \<times> nat \<Rightarrow> bool" where
  "weight_ok kv \<longleftrightarrow> - (2 ^ 63) \<le> fst kv \<and> fst kv < 2 ^ 63 \<and> snd kv < 2 ^ 64"

lemma members_read:
  "list_all weight_ok kvs \<Longrightarrow>
   unmarshal_members (map (\<lambda>x. (Itoa (fst x), JNum (show_nat (snd x)))) kvs) w = Inr (fold (\<lambda>x. AList.update (fst x) (snd x)) kvs w)"
  by (induction kvs arbitrary: w) (auto simp: weight_ok_def unmarshal_uint_def ParseUint_show_nat Atoi_Itoa)

lemma fold_update_last: "map_of (fold (\<lambda>x. AList.update (fst x) (snd x)) kvs w) = map_of w ++ map_of (rev kvs)"
  by (induction kvs arbitrary: w) (auto simp: update_conv' fun_eq_iff map_add_def split: option.splits)

text \<open>
  C33. Weights that fit the types are read back as they were written, in any order of the members; a
  later member for a port replaces an earlier one.
\<close>

theorem DecodeL4Weight_roundtrip:
  assumes "list_all weight_ok kvs"
  shows "\<exists>w. DecodeL4Weight (show_weights kvs) = Inr w \<and> map_of w = map_of (rev kvs)"
  using members_read [OF assms, of "[]"] fold_update_last [of kvs "[]"]
  by (auto simp: DecodeL4Weight_def unmarshal_weight_def parse_weights)

theorem DecodeL4Weight_roundtrip_witness:
  "\<exists>w. show_weights [(80, 3), (443, 1), (80, 5)] = ''{'' @ [quote] @ ''80'' @ [quote] @ '':3,'' @ [quote] @ ''443'' @ [quote] @ '':1,'' @
       [quote] @ ''80'' @ [quote] @ '':5}'' \<and>
     DecodeL4Weight (show_weights [(80, 3), (443, 1), (80, 5)]) = Inr w \<and> map_of w 80 = Some 5 \<and> map_of w 443 = Some 1"
proof -
  have "list_all weight_ok [(80, 3), (443, 1), (80, 5)]" by (simp add: weight_ok_def)
  from DecodeL4Weight_roundtrip [OF this] show ?thesis
    by (auto simp: show_weights_def show_member_def go_eval)
qed

text \<open>What is accepted fits the types: texts with other members are refused.\<close>

lemma Atoi_range: "Atoi s = Inr i \<Longrightarrow> - (2 ^ 63) \<le> i \<and> i < 2 ^ 63"
  by (auto simp: Atoi_def Let_def split: if_splits)

lemma members_range:
  "unmarshal_members kvs w = Inr w' \<Longrightarrow> list_all weight_ok w \<Longrightarrow> list_all weight_ok w'"
proof (induction kvs w rule: unmarshal_members.induct)
  case (2 k v kvs w)
  then obtain n i where n: "unmarshal_uint v = Inr n" and i: "Atoi k = Inr i"
    and run: "unmarshal_members kvs (AList.update i n w) = Inr w'"
    by (auto split: sum.splits)
  have "n < 2 ^ 64" using n by (auto simp: unmarshal_uint_def ParseUint_Inr split: json.splits sum.splits)
  then have "list_all weight_ok (AList.update i n w)"
    using "2.prems"(2) Atoi_range [OF i] by (induction w) (auto simp: weight_ok_def)
  with 2 n i run show ?case by auto
qed simp

lemma DecodeL4Weight_range: "DecodeL4Weight s = Inr w \<Longrightarrow> list_all weight_ok w"
  using members_range by (auto simp: DecodeL4Weight_def unmarshal_weight_def split: sum.splits json.splits)

end
