(* ===== verification/Firewalld.thy ===== *)
theory Firewalld
  imports Iptables
begin

text \<open>
  The part of \<^verbatim>\<open>utils/iptables/iptables.go\<close> that listens to FirewallD, as a client of \<^verbatim>\<open>utils/dbus\<close>: what the
  signal handler does is proved once against the contract of a connection, and read off for the
  fake connection and for the one over \<^verbatim>\<open>godbus\<close>.
\<close>

subsection \<open>Signals of FirewallD\<close>

text \<open>A signal after which the rules have to be written again, and one the handler can read.\<close>

definition reloads :: "dbus_signal \<Rightarrow> bool" where
  "reloads s \<longleftrightarrow> sigName s = firewalldInterface @ ''.Reloaded'' \<or>
     (sigName s = ''org.freedesktop.DBus.NameOwnerChanged'' \<and> sigBody s ! 0 = Some firewalldName \<and> sigBody s ! 2 \<noteq> Some [])"

definition readable :: "dbus_signal \<Rightarrow> bool" where
  "readable s \<longleftrightarrow>
     (sigName s = ''org.freedesktop.DBus.NameOwnerChanged'' \<longrightarrow>
      2 < length (sigBody s) \<and> sigBody s ! 0 \<noteq> None \<and> sigBody s ! 2 \<noteq> None)"

lemma signal_names: "firewalldInterface @ ''.Reloaded'' \<noteq> ''org.freedesktop.DBus.NameOwnerChanged''"
  by (simp add: firewalldInterface_def)

lemma reloads_owner:
  assumes "sigName s = ''org.freedesktop.DBus.NameOwnerChanged''" "readable s"
  obtains x y where "body_string (sigBody s) 0 = Returns x" "body_string (sigBody s) 2 = Returns y"
    "reloads s = (x = firewalldName \<and> y \<noteq> [])"
proof -
  from assms obtain x y where xy: "2 < length (sigBody s)" "sigBody s ! 0 = Some x" "sigBody s ! 2 = Some y"
    by (auto simp: readable_def)
  moreover have "sigBody s \<noteq> []" using xy(1) by auto
  ultimately have "body_string (sigBody s) 0 = Returns x" "body_string (sigBody s) 2 = Returns y"
    by (simp_all add: body_string_def)
  then show ?thesis using that assms(1) signal_names xy by (simp add: reloads_def)
qed

text \<open>
  The handler as a client of a connection. The reload functions leave the registrations alone and
  count themselves in \<open>cnt\<close>, which the operations of the bus leave alone.
\<close>

locale firewalld_client = dbus_connection bus ok regs objs
  for bus :: "'w dbus_Connection" and ok regs objs +
  fixes r :: "'w ipt_runner" and cnt :: "'w \<Rightarrow> nat"
  assumes object_there: "(firewalldName, firewalldPath) \<in> objs"
    and reload_law: "ok w \<Longrightarrow> ok (reload r w) \<and> regs (reload r w) = regs w \<and> cnt (reload r w) = Suc (cnt w)"
    and signal_cnt: "cnt (Signal bus ch w) = cnt w"
    and call_cnt: "cnt (snd (Call (Object bus firewalldName firewalldPath v) meth fl args w)) = cnt w"
begin

lemma loop_reloads:
  assumes "ok v" "irSignal r = Some ch"
  shows "list_all readable sigs \<Longrightarrow> ok w \<Longrightarrow>
    \<exists>w1. signal_loop bus (Object bus firewalldName firewalldPath v) r (map Some sigs @ None # later) w =
        (Returns (), Signal bus ch w1) \<and>
      ok w1 \<and> regs w1 = regs w \<and> cnt w1 = cnt w + length (filter reloads sigs)"
proof (induction sigs arbitrary: w)
  case Nil
  then show ?case using assms(2) by auto
next
  case (Cons s sigs)
  note IH = Cons.IH [of w] Cons.IH [of "reload r w"]
  show ?case
  proof (cases "sigName s = ''org.freedesktop.DBus.NameOwnerChanged''")
    case True
    then obtain x y where xy: "body_string (sigBody s) 0 = Returns x" "body_string (sigBody s) 2 = Returns y"
      "reloads s = (x = firewalldName \<and> y \<noteq> [])"
      using reloads_owner Cons.prems(1) by (metis list.pred_inject(2))
    obtain c w1 where c: "Call (Object bus firewalldName firewalldPath v) (firewalldInterface @ ''.getDefaultZone'') 0 [] w = (Returns c, w1)"
      "ok w1" "regs w1 = regs w" "cnt w1 = cnt w"
      using object_call [OF object_there assms(1) Cons.prems(2)] call_cnt by (metis gocall.exhaust prod.collapse snd_conv)
    show ?thesis
      using Cons.prems Cons.IH [of w] Cons.IH [of "reload r w1"] xy True c reload_law [OF c(2)] by auto
  next
    case False
    then show ?thesis
      using Cons.prems IH reload_law [OF Cons.prems(2)] by (auto simp: reloads_def)
  qed
qed

lemma handler_reloads:
  assumes "irSignal r = Some ch" "list_all readable sigs" "ok w"
  shows "\<exists>w1. dbusSignalHandler bus r (map Some sigs @ None # later) w = (Returns (), Signal bus ch w1) \<and>
    ok w1 \<and> regs w1 = regs w \<and> cnt (Signal bus ch w1) = cnt w + length (filter reloads sigs)"
  using loop_reloads [OF assms(3,1,2,3)] by (simp add: dbusSignalHandler_def signal_cnt)

end

text \<open>
  C25. The signal handler calls the reload functions exactly once for each signal that says
  FirewallD was reloaded or got a new owner, for no other signal, and ends at the nil that
  \<open>Destroy\<close> sends, whatever comes behind it: \<open>cnt\<close> counts the reloads in the state.
\<close>

theorem signals_reload_once:
  assumes "firewalld_client bus ok regs objs r cnt" "irSignal r = Some ch" "list_all readable sigs" "ok w"
    and "dbusSignalHandler bus r (map Some sigs @ None # later) w = (res, w')"
  shows "res = Returns () \<and> cnt w' = cnt w + length (filter reloads sigs)"
  using firewalld_client.handler_reloads [OF assms(1-4), of later] assms(5) by auto

text \<open>
  C35. When the handler ends it means to unregister its channel. Over a connection whose \<open>Signal\<close>
  toggles, as the comment on the interface says and as the fake connection does, the channel is
  gone afterwards; over one whose \<open>Signal\<close> adds, as \<^verbatim>\<open>godbus\<close> documents it, the channel is then
  registered once more, with nobody left to receive from it.
\<close>

theorem Destroy_registration:
  assumes "firewalld_client bus ok regs objs r cnt" "irSignal r = Some ch" "list_all readable sigs" "ok w"
    and "dbusSignalHandler bus r (map Some sigs @ None # later) w = (res, w')" "ch \<in> set (regs w)"
  shows "(toggling_connection bus ok regs objs \<longrightarrow> set (regs w') = set (regs w) - {ch}) \<and>
    (adding_connection bus ok regs objs \<longrightarrow> regs w' = regs w @ [ch])"
proof -
  obtain w1 where w1: "w' = Signal bus ch w1" "ok w1" "regs w1 = regs w"
    using firewalld_client.handler_reloads [OF assms(1-4), of later] assms(5) by auto
  have "set (toggle ch (regs w)) = set (regs w) - {ch}" if "distinct (regs w)"
    using that assms(6) by (simp add: toggle_def)
  then show ?thesis
    using w1 assms(4) by (auto simp: toggling_connection.signal_toggles toggling_connection.regs_distinct adding_connection.signal_adds)
qed

subsection \<open>A fake bus with FirewallD\<close>

definition no_store :: "gvalue list \<Rightarrow> gvalue list \<Rightarrow> gerror + gvalue list" where
  "no_store vs dests = Inl ''not used''"

definition fw_conn :: DBusFakeConnection where
  "fw_conn = AddObject firewalldName firewalldPath (\<lambda>_ _. Inr [Some ''public'']) (SetBusObject (\<lambda>_ _. Inr []) NewFakeConnection)"

definition fw_world :: "nat fake_world" where
  "fw_world = \<lparr>fw_conns = (\<lambda>_. fw_conn), fw_chans = (\<lambda>_. []), fw_rest = 0\<rparr>"

definition fw_bus :: "nat fake_world dbus_Connection" where
  "fw_bus = fake_Connection no_store 0"

definition plain_runner :: "'w ipt_runner" where
  "plain_runner = \<lparr>irProtocol = ProtocolIpv4, irHasCheck = True, irWaitFlag = [], irRestoreWaitFlag = [],
     irLockfilePath = LockfilePath16x, irReloadFuncs = [], irSignal = None\<rparr>"

definition fw_count :: "nat fake_world \<Rightarrow> nat fake_world" where
  "fw_count w = w\<lparr>fw_rest := Suc (fw_rest w)\<rparr>"

definition fw_runner :: "nat fake_world ipt_runner" where
  "fw_runner = AddReloadFunc fw_count (plain_runner\<lparr>irSignal := Some 7\<rparr>)"

abbreviation fw_objs :: "(string \<times> string) set" where
  "fw_objs \<equiv> {(firewalldName, firewalldPath)}"

interpretation fwc: firewalld_client fw_bus "fake_ok 0 fw_objs" "fake_regs 0" fw_objs fw_runner fw_rest
  unfolding fw_bus_def
  by unfold_locales
    (auto simp: reload_def fw_runner_def AddReloadFunc_def plain_runner_def fw_count_def fake_defs split: option.splits)

text \<open>Over \<^verbatim>\<open>godbus\<close>, simulated.\<close>

definition sim_count :: "unit dbusImpl \<times> nat list \<times> nat \<Rightarrow> unit dbusImpl \<times> nat list \<times> nat" where
  "sim_count = (\<lambda>(d, hs, n). (d, hs, Suc n))"

definition sim_runner :: "(unit dbusImpl \<times> nat list \<times> nat) ipt_runner" where
  "sim_runner = AddReloadFunc sim_count (plain_runner\<lparr>irSignal := Some 7\<rparr>)"

interpretation simc: firewalld_client "connImpl sim_godbus ()" "\<lambda>_. True" sim_regs UNIV sim_runner "\<lambda>w. snd (snd w)"
  by unfold_locales
    (auto simp: reload_def sim_runner_def AddReloadFunc_def plain_runner_def sim_count_def sim_regs_def sim_godbus_def connImpl_def
      conn_Object_def conn_Signal_def objectImpl_def obj_Call_def)

definition demo_signals :: "dbus_signal list" where
  "demo_signals = map (\<lambda>(n, b). \<lparr>sigSender = '':1.1'', sigPath = firewalldPath, sigName = n, sigBody = b\<rparr>)
     [(''org.freedesktop.DBus.NameOwnerChanged'', [Some firewalldName, Some [], Some '':1.7'']),
      (''org.freedesktop.DBus.NameOwnerChanged'', [Some firewalldName, Some '':1.7'', Some []]),
      (''org.freedesktop.DBus.NameAcquired'', []),
      (firewalldInterface @ ''.Reloaded'', [])]"

lemma demo_signals_ok: "list_all readable demo_signals" "length (filter reloads demo_signals) = 2"
  by (simp_all add: demo_signals_def readable_def reloads_def firewalldInterface_def firewalldName_def)

text \<open>The channel is registered by \<open>connectToFirewallD\<close>, the signal comes from \<open>EmitSignal\<close> and the nil from \<open>Destroy\<close>.\<close>

lemma fw_connect:
  "connectToFirewallD (fake_Interface no_store (NewFake (Some 0) None)) 7 plain_runner fw_world =
     (Returns (Some fw_bus, plain_runner\<lparr>irSignal := Some 7\<rparr>), fake_Signal 0 7 fw_world)"
  by (simp add: connectToFirewallD_def fake_Interface_def fake_SystemBus_def NewFake_def fake_defs fw_bus_def fw_world_def fw_conn_def
      AddObject_def SetBusObject_def)

lemma fw_ok: "fake_ok 0 fw_objs (fake_Signal 0 7 fw_world)" "fake_regs 0 (fake_Signal 0 7 fw_world) = [7]"
  by (simp_all add: fake_defs fw_world_def fw_conn_def AddObject_def SetBusObject_def NewFakeConnection_def toggle_def update_conv')

definition fw_emitted :: "nat fake_world" where
  "fw_emitted = EmitSignal 0 '':1.1'' firewalldPath firewalldInterface ''Reloaded'' [] (fake_Signal 0 7 fw_world)"

definition fw_reloaded :: dbus_signal where
  "fw_reloaded = \<lparr>sigSender = '':1.1'', sigPath = firewalldPath, sigName = firewalldInterface @ ''.Reloaded'', sigBody = []\<rparr>"

lemma fw_emitted_ok:
  "fake_ok 0 fw_objs fw_emitted" "fake_regs 0 fw_emitted = [7]" "fw_rest fw_emitted = 0"
  "Destroy fw_runner (fw_chans fw_emitted) 7 = map Some [fw_reloaded] @ None # []"
proof -
  have "fw_conns fw_emitted = fw_conns (fake_Signal 0 7 fw_world)" by (simp add: fw_emitted_def EmitSignal_def Let_def)
  then show "fake_ok 0 fw_objs fw_emitted" "fake_regs 0 fw_emitted = [7]"
    using fw_ok by (simp_all add: fake_ok_def fake_regs_def)
  show "fw_rest fw_emitted = 0" by (simp add: fw_emitted_def EmitSignal_def fake_Signal_def fw_world_def Let_def)
  have "fw_chans fw_emitted 7 = [Some fw_reloaded]"
    using fw_ok by (simp add: fw_emitted_def EmitSignal_delivers fake_ok_def fake_regs_def fw_reloaded_def)
      (simp add: fake_Signal_def fw_world_def Let_def)
  then show "Destroy fw_runner (fw_chans fw_emitted) 7 = map Some [fw_reloaded] @ None # []"
    by (simp add: Destroy_def fw_runner_def AddReloadFunc_def plain_runner_def)
qed

theorem signals_reload_once_witness:
  "\<exists>bus r w w'. connectToFirewallD (fake_Interface no_store (NewFake (Some 0) None)) 7 plain_runner fw_world = (Returns (Some bus, r), w) \<and>
     (let r = AddReloadFunc fw_count r; w = EmitSignal 0 '':1.1'' firewalldPath firewalldInterface ''Reloaded'' [] w
      in dbusSignalHandler bus r (Destroy r (fw_chans w) 7) w = (Returns (), w') \<and> fw_rest w' = 1)"
proof -
  obtain res w' where run: "dbusSignalHandler fw_bus fw_runner (map Some [fw_reloaded] @ None # []) fw_emitted = (res, w')" by force
  have "list_all readable [fw_reloaded]" "length (filter reloads [fw_reloaded]) = 1"
    by (simp_all add: readable_def reloads_def fw_reloaded_def firewalldInterface_def)
  with signals_reload_once [OF fwc.firewalld_client_axioms _ _ fw_emitted_ok(1) run, of 7]
  have "res = Returns () \<and> fw_rest w' = 1"
    by (simp add: fw_emitted_ok(3)) (simp add: fw_runner_def AddReloadFunc_def)
  with run fw_connect show ?thesis
    unfolding fw_emitted_ok(4) [symmetric] fw_runner_def fw_emitted_def Let_def by blast
qed

text \<open>The same signals over both connections: afterwards the channel 7 is gone from the one and twice in the other.\<close>

theorem Destroy_registration_witness:
  "7 \<notin> set (fake_regs 0 (snd (dbusSignalHandler fw_bus fw_runner (map Some demo_signals @ None # []) fw_emitted))) \<and>
   sim_regs (snd (dbusSignalHandler (connImpl sim_godbus ()) sim_runner (map Some demo_signals @ None # [])
     (\<lparr>systemBus = Some (), sessionBus = None\<rparr>, [7], 0))) = [7, 7]"
proof -
  obtain res w' where run: "dbusSignalHandler fw_bus fw_runner (map Some demo_signals @ None # []) fw_emitted = (res, w')" by force
  let ?w = "(\<lparr>systemBus = Some (), sessionBus = None\<rparr>, [7], 0)"
  obtain res1 v where run1: "dbusSignalHandler (connImpl sim_godbus ()) sim_runner (map Some demo_signals @ None # []) ?w = (res1, v)" by (rule prod.exhaust)
  have ch: "irSignal fw_runner = Some 7" "irSignal sim_runner = Some 7"
    by (simp_all add: fw_runner_def sim_runner_def AddReloadFunc_def)
  have "toggling_connection fw_bus (fake_ok 0 fw_objs) (fake_regs 0) fw_objs"
    unfolding fw_bus_def by (rule fakeb.toggling_connection_axioms)
  with Destroy_registration [OF fwc.firewalld_client_axioms ch(1) demo_signals_ok(1) fw_emitted_ok(1) run] fw_emitted_ok(2)
  have "7 \<notin> set (fake_regs 0 w')" by simp
  moreover have "sim_regs v = [7, 7]"
    using Destroy_registration [OF simc.firewalld_client_axioms ch(2) demo_signals_ok(1) _ run1] simg.real.adding_connection_axioms
    by (simp add: sim_regs_def)
  ultimately show ?thesis using run run1 by simp
qed

end
