(* ===== verification/VersionOrder.thy ===== *)
theory VersionOrder
  imports Version
begin

text \<open>
  What the comparison of \<^verbatim>\<open>utils/version\<close> implements for generic versions: the linear order of the
  version numbers, which are lists of components without trailing zeros.
\<close>

subsection \<open>Version numbers\<close>

typedef number = "{ns :: nat list. strip ns = ns}"
  morphisms number_components Number
  by (rule exI [of _ "[]"]) simp

setup_lifting type_definition_number

instantiation number :: linorder
begin

lift_definition less_eq_number :: "number \<Rightarrow> number \<Rightarrow> bool" is "(\<le>)" .
lift_definition less_number :: "number \<Rightarrow> number \<Rightarrow> bool" is "(<)" .

instance
  by standard (transfer; auto)+

end

lemma strip_idem [simp]: "strip (strip ns) = strip ns"
  by (simp add: strip_def)

lift_definition number_of :: "Version \<Rightarrow> number" is "\<lambda>v. strip (components v)"
  by simp

text \<open>
  C28. For versions that are not both semantic, comparing is comparing their numbers in a linear
  order: \<open>LessThan\<close> is its strict part, \<open>AtLeast\<close> its converse, and the result 0 means the same number,
  so \<open>1.4\<close> equals \<open>1.4.0\<close>. \<open>Compare\<close> does the same with a version that it parses first.
\<close>

theorem compare_number:
  assumes "\<not> semver v \<or> \<not> semver w"
  shows "(LessThan v w \<longleftrightarrow> number_of v < number_of w) \<and>
    (AtLeast v w \<longleftrightarrow> number_of w \<le> number_of v) \<and>
    (compareInternal v w = 0 \<longleftrightarrow> number_of v = number_of w) \<and>
    (parse s (semver v) = Inr w \<longrightarrow> Compare v s = Inr (if number_of v < number_of w then - 1 else if number_of w < number_of v then 1 else 0))"
proof -
  have eq: "number_of v = number_of w \<longleftrightarrow> strip (components v) = strip (components w)"
    and less: "number_of v < number_of w \<longleftrightarrow> strip (components v) < strip (components w)"
      "number_of w < number_of v \<longleftrightarrow> strip (components w) < strip (components v)"
    by (transfer; simp)+
  have "compareInternal v w = (if number_of v < number_of w then - 1 else if number_of w < number_of v then 1 else 0)"
    unfolding less by (rule compare_generic [OF assms])
  then show ?thesis by (auto simp: LessThan_def AtLeast_def Compare_def)
qed

definition numbered :: "nat list \<Rightarrow> Version" where
  "numbered ns = \<lparr>components = ns, semver = False, preRelease = [], buildMetadata = []\<rparr>"

theorem compare_number_witness:
  "number_of (numbered [1, 4]) < number_of (numbered [1, 4, 20]) \<and> number_of (numbered [1, 4]) = number_of (numbered [1, 4, 0])"
  using compare_number [of "numbered [1, 4]" "numbered [1, 4, 20]"] compare_number [of "numbered [1, 4]" "numbered [1, 4, 0]"]
  by (simp add: numbered_def LessThan_def compareInternal_def)

end
